theory Spec2Isabelle
  imports Complex_Main "HOL-Library.Word"
begin

section \<open>Errors, floating-point values and tensors\<close>

text \<open>
  The exceptions that the batching pipeline of
  \<^verbatim>\<open>seamless_communication/cli/m4t/finetune/dataloader.py\<close> can raise: a failed
  \<^verbatim>\<open>assert\<close>, \<^verbatim>\<open>max\<close> of an empty sequence, an index out of range, a
  shape mismatch inside torch, a division by zero, a number out of range, and a failing
  file read.
\<close>

datatype error = AssertionError | ValueError | IndexError | RuntimeError
  | ZeroDivisionError | OverflowError | OSError

text \<open>A raising computation is a value of \<open>error + 'a\<close>; \<open>ebind\<close> sequences two of them.\<close>

definition ebind :: "error + 'a \<Rightarrow> ('a \<Rightarrow> error + 'b) \<Rightarrow> error + 'b" where
  "ebind m f = (case m of Inl e \<Rightarrow> Inl e | Inr x \<Rightarrow> f x)"

text \<open>A list comprehension whose body may raise: the first exception aborts it.\<close>

fun try_map :: "('a \<Rightarrow> error + 'b) \<Rightarrow> 'a list \<Rightarrow> error + 'b list" where
  "try_map f [] = Inr []"
| "try_map f (x # xs) = ebind (f x) (\<lambda>y. ebind (try_map f xs) (\<lambda>ys. Inr (y # ys)))"

text \<open>
  A floating-point value is a finite number, an infinity or a NaN. Of the elements of a
  tensor only this classification matters to the pipeline (\<^verbatim>\<open>isnan\<close>); the only
  arithmetic on floats is the division and the comparison of the duration filter.
\<close>

datatype float = Finite real | PosInf | NegInf | NaN

fun isnan :: "float \<Rightarrow> bool" where
  "isnan NaN = True"
| "isnan _ = False"

fun isfinite :: "float \<Rightarrow> bool" where
  "isfinite (Finite _) = True"
| "isfinite _ = False"

text \<open>
  Python's \<^verbatim>\<open>x > y\<close> on floats, as IEEE 754 orders them: a comparison with a NaN is
  false. Python compares a float with an int by value, which is the first equation as well,
  a finite value being any real number.
\<close>

fun float_gt :: "float \<Rightarrow> float \<Rightarrow> bool" where
  "float_gt (Finite x) (Finite y) = (y < x)"
| "float_gt (Finite x) NegInf = True"
| "float_gt PosInf (Finite y) = True"
| "float_gt PosInf NegInf = True"
| "float_gt _ _ = False"

subsection \<open>True division of Python integers\<close>

text \<open>
  \<^verbatim>\<open>a / b\<close> on two Python ints is the double nearest to the exact quotient, ties going
  to the even significand; a zero divisor raises ZeroDivisionError and a quotient that
  rounds to \<open>2^1024\<close> or more raises OverflowError. A double is \<open>m * 2^q\<close> with
  \<open>m \<le> 2^53\<close> and \<open>q \<ge> -1074\<close>: for a quotient in \<open>[2^e, 2^(e+1))\<close> the doubles around
  it are the multiples of \<open>2^q\<close> with \<open>q = max (e - 52) (-1074)\<close>.

  \<open>bit_length n\<close> is the number of binary digits of \<open>n\<close>, \<open>floor_log2 a b\<close> the exponent
  \<open>e\<close> with \<open>2^e \<le> a / b < 2^(e+1)\<close>, and \<open>round_half_even a b\<close> the integer nearest to
  \<open>a / b\<close>, the even one of two that are equally near.
\<close>

fun bit_length :: "nat \<Rightarrow> nat" where
  "bit_length n = (if n = 0 then 0 else Suc (bit_length (n div 2)))"

declare bit_length.simps [simp del]

definition floor_log2 :: "nat \<Rightarrow> nat \<Rightarrow> int" where
  "floor_log2 a b =
     (let d = int (bit_length a) - int (bit_length b)
      in if (if 0 \<le> d then b * 2 ^ nat d \<le> a else b \<le> a * 2 ^ nat (- d)) then d else d - 1)"

definition round_half_even :: "nat \<Rightarrow> nat \<Rightarrow> nat" where
  "round_half_even a b =
     (let q = a div b; r = a mod b
      in if 2 * r < b \<or> (2 * r = b \<and> even q) then q else q + 1)"

text \<open>The quotient of a natural number by a positive natural number, as a double.\<close>

definition nat_true_divide :: "nat \<Rightarrow> nat \<Rightarrow> error + real" where
  "nat_true_divide a b =
     (if a = 0 then Inr 0
      else let q = max (floor_log2 a b - 52) (- 1074)
           in if 0 \<le> q
              then (let m = round_half_even a (b * 2 ^ nat q)
                    in if 2 ^ 1024 \<le> m * 2 ^ nat q then Inl OverflowError
                       else Inr (real (m * 2 ^ nat q)))
              else Inr (real (round_half_even (a * 2 ^ nat (- q)) b) / 2 ^ nat (- q)))"

definition int_true_divide :: "int \<Rightarrow> int \<Rightarrow> error + float" where
  "int_true_divide a b =
     (if b = 0 then Inl ZeroDivisionError
      else case nat_true_divide (nat \<bar>a\<bar>) (nat \<bar>b\<bar>) of
             Inl e \<Rightarrow> Inl e
           | Inr x \<Rightarrow> Inr (Finite (if (a < 0) = (b < 0) then x else - x)))"

text \<open>
  A tensor is its shape and its elements in row-major order, as torch stores a contiguous
  tensor. \<open>wf_tensor\<close> is the representation invariant.
\<close>

datatype 'a tensor = Tensor (shape: "nat list") (data: "'a list")

definition wf_tensor :: "'a tensor \<Rightarrow> bool" where
  "wf_tensor t \<longleftrightarrow> length (data t) = prod_list (shape t)"

text \<open>\<^verbatim>\<open>tensor.shape[0]\<close>: an IndexError on a 0-dimensional tensor.\<close>

definition shape0 :: "'a tensor \<Rightarrow> error + nat" where
  "shape0 t = (case shape t of [] \<Rightarrow> Inl IndexError | n # _ \<Rightarrow> Inr n)"

text \<open>\<^verbatim>\<open>t[i]\<close>: the \<open>i\<close>-th slice along the leading dimension.\<close>

definition row :: "nat \<Rightarrow> 'a tensor \<Rightarrow> 'a tensor" where
  "row i t = Tensor (tl (shape t))
     (take (prod_list (tl (shape t))) (drop (i * prod_list (tl (shape t))) (data t)))"

text \<open>\<^verbatim>\<open>tensor.isnan().any().item()\<close>\<close>

definition isnan_any :: "float tensor \<Rightarrow> bool" where
  "isnan_any t = list_ex isnan (data t)"

subsection \<open>\<^verbatim>\<open>torch.nn.functional.pad\<close> in constant mode, and \<^verbatim>\<open>torch.stack\<close>\<close>

text \<open>
  The padding list gives (left, right) amounts from the last dimension backwards. It
  must have even length and at most two entries per dimension; the dimensions it does
  not reach are left alone.
\<close>

fun pad_pairs :: "nat list \<Rightarrow> (nat \<times> nat) list" where
  "pad_pairs (lo # hi # rest) = (lo, hi) # pad_pairs rest"
| "pad_pairs _ = []"

definition slices :: "nat \<Rightarrow> nat \<Rightarrow> 'a list \<Rightarrow> 'a list list" where
  "slices k m xs = map (\<lambda>i. take m (drop (i * m) xs)) [0..<k]"

fun padded_shape :: "nat list \<Rightarrow> (nat \<times> nat) list \<Rightarrow> nat list" where
  "padded_shape (n # s) ((lo, hi) # ps) = (lo + n + hi) # padded_shape s ps"
| "padded_shape s _ = s"

fun pad_data :: "nat list \<Rightarrow> (nat \<times> nat) list \<Rightarrow> 'a \<Rightarrow> 'a list \<Rightarrow> 'a list" where
  "pad_data (n # s) ((lo, hi) # ps) v xs =
     replicate (lo * prod_list (padded_shape s ps)) v
     @ concat (map (pad_data s ps v) (slices n (prod_list s) xs))
     @ replicate (hi * prod_list (padded_shape s ps)) v"
| "pad_data s _ v xs = xs"

definition pad_tensor :: "'a tensor \<Rightarrow> nat list \<Rightarrow> 'a \<Rightarrow> error + 'a tensor" where
  "pad_tensor t padding v =
     (if odd (length padding) \<or> 2 * length (shape t) < length padding then Inl RuntimeError
      else let ps = replicate (length (shape t) - length padding div 2) (0, 0)
                    @ rev (pad_pairs padding)
           in Inr (Tensor (padded_shape (shape t) ps) (pad_data (shape t) ps v (data t))))"

text \<open>\<^verbatim>\<open>torch.stack(tensors, dim=0)\<close>: all shapes must agree, and the list is not empty.\<close>

definition stack :: "'a tensor list \<Rightarrow> error + 'a tensor" where
  "stack tensors =
     (case tensors of
        [] \<Rightarrow> Inl RuntimeError
      | t # rest \<Rightarrow>
          if list_all (\<lambda>u. shape u = shape t) rest
          then Inr (Tensor (length tensors # shape t) (concat (map data tensors)))
          else Inl RuntimeError)"

text \<open>\<^verbatim>\<open>tensor.unsqueeze(-1)\<close>, \<^verbatim>\<open>tensor.unsqueeze(0)\<close> and \<^verbatim>\<open>tensor.squeeze(0)\<close>\<close>

definition unsqueeze_last :: "'a tensor \<Rightarrow> 'a tensor" where
  "unsqueeze_last t = Tensor (shape t @ [1]) (data t)"

definition unsqueeze_first :: "'a tensor \<Rightarrow> 'a tensor" where
  "unsqueeze_first t = Tensor (1 # shape t) (data t)"

definition squeeze_first :: "'a tensor \<Rightarrow> 'a tensor" where
  "squeeze_first t = (case shape t of n # s \<Rightarrow> if n = 1 then Tensor s (data t) else t | [] \<Rightarrow> t)"

text \<open>
  \<^verbatim>\<open>tensor.transpose(0, 1)\<close> of a 2-dimensional tensor (the only use in the source, which
  has asserted the number of dimensions before): element \<open>(j, i)\<close> of the result is element
  \<open>(i, j)\<close> of the argument.
\<close>

definition transpose01 :: "'a tensor \<Rightarrow> 'a tensor" where
  "transpose01 t =
     (case shape t of
        [r, c] \<Rightarrow> Tensor [c, r] (concat (map (\<lambda>j. map (\<lambda>i. data t ! (i * c + j)) [0..<r]) [0..<c]))
      | _ \<Rightarrow> t)"

text \<open>\<^verbatim>\<open>torch.concat([a, b])\<close> along the leading dimension.\<close>

definition concat0 :: "'a tensor \<Rightarrow> 'a tensor \<Rightarrow> error + 'a tensor" where
  "concat0 a b =
     (case (shape a, shape b) of
        (n # s, m # s') \<Rightarrow>
          if s = s' then Inr (Tensor ((n + m) # s) (data a @ data b)) else Inl RuntimeError
      | _ \<Rightarrow> Inl RuntimeError)"

text \<open>The slices \<^verbatim>\<open>tokens[:-1]\<close> and \<^verbatim>\<open>tokens[1:]\<close> along the leading dimension.\<close>

definition drop_last :: "'a tensor \<Rightarrow> error + 'a tensor" where
  "drop_last t =
     (case shape t of
        [] \<Rightarrow> Inl IndexError
      | n # s \<Rightarrow> Inr (Tensor ((n - 1) # s) (take ((n - 1) * prod_list s) (data t))))"

definition drop_first :: "'a tensor \<Rightarrow> error + 'a tensor" where
  "drop_first t =
     (case shape t of
        [] \<Rightarrow> Inl IndexError
      | n # s \<Rightarrow> Inr (Tensor ((n - 1) # s) (drop (prod_list s) (data t))))"

text \<open>\<^verbatim>\<open>torch.LongTensor(list_of_ints)\<close>\<close>

definition LongTensor :: "int list \<Rightarrow> int tensor" where
  "LongTensor xs = Tensor [length xs] xs"

section \<open>The data model\<close>

text \<open>
  Modelled from the spec: the sample record \<^verbatim>\<open>LangPairSample\<close> of
  \<^verbatim>\<open>seamless_communication.datasets.datatypes\<close>, whose declaration is not among the
  sources. Section 3 of the specification gives its content: a source modality (audio file
  path, language code) and a target modality (text, language code, optional ordered
  sequence of integer unit ids). The field names are those the data loader reads.
\<close>

record MultimodalSample =
  lang :: string
  sample_text :: string
  audio_local_path :: string
  units :: "int list option"

record LangPairSample =
  source :: MultimodalSample
  target :: MultimodalSample

text \<open>The dataclasses \<^verbatim>\<open>SeqsBatch\<close> and \<^verbatim>\<open>MultimodalSeqsBatch\<close> (lines 34-63).\<close>

record SeqsBatch =
  src_tokens :: "float tensor option"
  src_lengths :: "int tensor option"
  target_tokens :: "int tensor option"
  prev_output_tokens :: "int tensor option"
  target_lengths :: "int tensor option"

record MultimodalSeqsBatch =
  speech_to_text :: SeqsBatch
  text_to_units :: SeqsBatch

text \<open>\<^verbatim>\<open>BatchingConfig\<close> (lines 66-87), with its defaults.\<close>

datatype dtype = float16 | float32

record BatchingConfig =
  fbank_feats_pad_idx :: int
  batch_size :: int
  max_audio_length_sec :: float
  rank :: int
  world_size :: int
  num_workers :: int
  float_dtype :: dtype

definition default_BatchingConfig :: BatchingConfig where
  "default_BatchingConfig =
     \<lparr>fbank_feats_pad_idx = 0, batch_size = 2, max_audio_length_sec = Finite 15, rank = 0,
      world_size = 1, num_workers = 2, float_dtype = float16\<rparr>"

text \<open>
  The tokenizers are collaborators from fairseq2: a tokenizer creates an encoder for a
  language, an encoder maps its input to a tensor of token ids, and the vocabulary gives
  the end-of-sequence and pad indices. Each call may raise.
\<close>

record VocabularyInfo =
  eos_idx :: int
  pad_idx :: int

type_synonym TextTokenEncoder = "string \<Rightarrow> error + int tensor"

type_synonym UnitTokenEncoder = "int tensor \<Rightarrow> error + int tensor"

record NllbTokenizer =
  create_text_encoder :: "string \<Rightarrow> string \<Rightarrow> error + TextTokenEncoder"
  text_vocab_info :: VocabularyInfo

record UnitTokenizer =
  create_unit_encoder :: "string \<Rightarrow> error + UnitTokenEncoder"
  unit_vocab_info :: VocabularyInfo

record fbank_params =
  num_mel_bins :: nat
  waveform_scale :: int
  channel_last :: bool
  standardize :: bool
  fbank_dtype :: dtype

text \<open>
  The state of a \<^verbatim>\<open>UnitYDataLoader\<close>: the two tokenizers, the two per-language encoder
  caches, the configuration and the filterbank parameters. (The dataset read from the
  manifest plays no part in assembling a batch from given raw samples.)
\<close>

record UnitYDataLoader =
  text_tokenizer :: NllbTokenizer
  text_encoders_per_lang :: "string \<rightharpoonup> TextTokenEncoder"
  unit_tokenizer :: UnitTokenizer
  unit_encoders_per_lang :: "string \<rightharpoonup> UnitTokenEncoder"
  batching_config :: BatchingConfig
  fbank_extract_params :: fbank_params

definition SAMPLE_RATE :: int where
  "SAMPLE_RATE = 16000"

text \<open>\<^verbatim>\<open>UnitYDataLoader.__init__\<close> (lines 97-117).\<close>

definition init_UnitYDataLoader ::
    "NllbTokenizer \<Rightarrow> UnitTokenizer \<Rightarrow> BatchingConfig \<Rightarrow> UnitYDataLoader" where
  "init_UnitYDataLoader text_tok unit_tok config =
     \<lparr>text_tokenizer = text_tok,
      text_encoders_per_lang = Map.empty,
      unit_tokenizer = unit_tok,
      unit_encoders_per_lang = Map.empty,
      batching_config = config,
      fbank_extract_params =
        \<lparr>num_mel_bins = 80, waveform_scale = 32768, channel_last = True,
         standardize = True, fbank_dtype = float_dtype config\<rparr>\<rparr>"

text \<open>
  What the loader calls outside this repository: parsing a raw manifest entry
  (\<^verbatim>\<open>LangPairSample.from_json\<close>), reading an audio file (\<^verbatim>\<open>torchaudio.load\<close>, giving the
  waveform and its sample rate), the filterbank converter of fairseq2 applied to a waveform
  and a sample rate, and the rounding of one element by \<^verbatim>\<open>Tensor.to(dtype)\<close>. They are
  parameters of the model; the file system is taken not to change during one call.
\<close>

record 'raw extern =
  from_json :: "'raw \<Rightarrow> error + LangPairSample"
  torchaudio_load :: "string \<Rightarrow> error + (float tensor \<times> int)"
  WaveformToFbankConverter :: "fbank_params \<Rightarrow> float tensor \<Rightarrow> int \<Rightarrow> error + float tensor"
  round_to :: "dtype \<Rightarrow> float \<Rightarrow> float"

definition to_dtype :: "'raw extern \<Rightarrow> dtype \<Rightarrow> float tensor \<Rightarrow> float tensor" where
  "to_dtype env dt t = Tensor (shape t) (map (round_to env dt) (data t))"

section \<open>The batch assembler\<close>

text \<open>
  \<^verbatim>\<open>UnitYDataLoader._batch_tensors\<close> (lines 185-194). \<^verbatim>\<open>max\<close> of an empty
  generator raises ValueError; \<^verbatim>\<open>padding[-1]\<close> is the right-hand amount of the
  leading dimension when the tensor has as many dimensions as \<^verbatim>\<open>tensors[0]\<close>. The
  amount \<^verbatim>\<open>padding_size - tensor.shape[0]\<close> is never negative, since
  \<^verbatim>\<open>padding_size\<close> is the maximum.
\<close>

definition batch_tensors :: "'a tensor list \<Rightarrow> 'a \<Rightarrow> error + 'a tensor" where
  "batch_tensors tensors pad_value =
     (case tensors of
        [] \<Rightarrow> Inl ValueError
      | t0 # _ \<Rightarrow>
          ebind (try_map shape0 tensors) (\<lambda>lens.
            let padding_size = Max (set lens);
                dims = length (shape t0)
            in ebind
                 (try_map
                    (\<lambda>tensor. ebind (shape0 tensor) (\<lambda>n.
                       pad_tensor tensor
                         ((replicate (2 * dims) 0)[2 * dims - 1 := padding_size - n])
                         pad_value))
                    tensors)
                 stack))"

section \<open>Feature extraction and tokenization\<close>

text \<open>
  \<^verbatim>\<open>UnitYDataLoader._get_source_fbank\<close>, lines 145-149: the channel layout handed to the
  filterbank converter. The assertion admits 1- and 2-dimensional waveforms only; a
  2-dimensional waveform whose first dimension exceeds 2 goes on unchanged.
\<close>

definition normalize_channel_layout :: "'a tensor \<Rightarrow> error + 'a tensor" where
  "normalize_channel_layout wav =
     (if length (shape wav) \<noteq> 1 \<and> length (shape wav) \<noteq> 2 then Inl AssertionError
      else if length (shape wav) = 1 then Inr (unsqueeze_last wav)
      else if hd (shape wav) \<le> 2 then Inr (transpose01 wav)
      else Inr wav)"

text \<open>\<^verbatim>\<open>UnitYDataLoader._get_source_fbank\<close> (lines 140-155).\<close>

definition get_source_fbank ::
    "'raw extern \<Rightarrow> UnitYDataLoader \<Rightarrow> LangPairSample \<Rightarrow> error + float tensor" where
  "get_source_fbank env self sample =
     ebind (torchaudio_load env (audio_local_path (source sample))) (\<lambda>(wav, sample_rate).
       if sample_rate \<noteq> SAMPLE_RATE then Inl AssertionError
       else ebind (normalize_channel_layout wav) (\<lambda>wav.
              WaveformToFbankConverter env (fbank_extract_params self) wav SAMPLE_RATE))"

text \<open>
  \<^verbatim>\<open>UnitYDataLoader._is_long_src_audio\<close> (lines 196-199). \<^verbatim>\<open>max\<close> of an empty shape
  raises ValueError. The dimensions of the waveform and the sample rate are Python ints,
  so that \<^verbatim>\<open>length_s\<close> is their quotient rounded to a double, and the comparison with
  \<^verbatim>\<open>max_audio_length_sec\<close> is a comparison of floats.
\<close>

definition length_s :: "'a tensor \<Rightarrow> int \<Rightarrow> error + float" where
  "length_s wav sample_rate =
     (if shape wav = [] then Inl ValueError
      else int_true_divide (int (Max (set (shape wav)))) sample_rate)"

definition is_long_src_audio ::
    "'raw extern \<Rightarrow> UnitYDataLoader \<Rightarrow> LangPairSample \<Rightarrow> error + bool" where
  "is_long_src_audio env self sample =
     ebind (torchaudio_load env (audio_local_path (source sample))) (\<lambda>(wav, sample_rate).
     ebind (length_s wav sample_rate) (\<lambda>len.
       Inr (float_gt len (max_audio_length_sec (batching_config self)))))"

text \<open>
  The duration of a loaded waveform in the words of the specification: the number of
  samples divided by the sample rate, as an exact number. \<^verbatim>\<open>torchaudio.load\<close> returns
  the waveform as \<open>[channel, time]\<close>, so that the number of samples is its last dimension.
\<close>

definition duration_sec :: "'a tensor \<Rightarrow> int \<Rightarrow> real" where
  "duration_sec wav sample_rate = real (last (shape wav)) / real_of_int sample_rate"

text \<open>
  \<^verbatim>\<open>UnitYDataLoader._get_tokenized_target_text\<close> (lines 157-167). The encoder of the
  target language is created on first use and kept in the loader, so the function returns
  the loader as well.
\<close>

definition get_tokenized_target_text ::
    "UnitYDataLoader \<Rightarrow> LangPairSample \<Rightarrow> error + (int tensor \<times> UnitYDataLoader)" where
  "get_tokenized_target_text self sample =
     (let target_lang = lang (target sample) in
      ebind
        (case text_encoders_per_lang self target_lang of
           Some encoder \<Rightarrow> Inr (encoder, self)
         | None \<Rightarrow>
             ebind (create_text_encoder (text_tokenizer self) target_lang ''target'')
               (\<lambda>encoder. Inr (encoder,
                  self\<lparr>text_encoders_per_lang :=
                    (text_encoders_per_lang self)(target_lang \<mapsto> encoder)\<rparr>)))
        (\<lambda>(encoder, self).
           ebind (encoder (sample_text (target sample))) (\<lambda>tokens.
           ebind (concat0 tokens (LongTensor [eos_idx (text_vocab_info (text_tokenizer self))]))
             (\<lambda>tokens. Inr (tokens, self)))))"

text \<open>\<^verbatim>\<open>UnitYDataLoader._get_tokenized_units\<close> (lines 169-183).\<close>

definition get_tokenized_units ::
    "UnitYDataLoader \<Rightarrow> LangPairSample \<Rightarrow> error + (int tensor option \<times> UnitYDataLoader)" where
  "get_tokenized_units self sample =
     (case units (target sample) of
        None \<Rightarrow> Inr (None, self)
      | Some us \<Rightarrow>
          let target_lang = lang (target sample) in
          ebind
            (case unit_encoders_per_lang self target_lang of
               Some encoder \<Rightarrow> Inr (encoder, self)
             | None \<Rightarrow>
                 ebind (create_unit_encoder (unit_tokenizer self) target_lang)
                   (\<lambda>encoder. Inr (encoder,
                      self\<lparr>unit_encoders_per_lang :=
                        (unit_encoders_per_lang self)(target_lang \<mapsto> encoder)\<rparr>)))
            (\<lambda>(encoder, self).
               ebind (encoder (unsqueeze_first (LongTensor us))) (\<lambda>tokens.
               ebind (concat0 (squeeze_first tokens)
                        (LongTensor [eos_idx (unit_vocab_info (unit_tokenizer self))]))
                 (\<lambda>tokens. Inr (Some tokens, self)))))"

text \<open>
  A list comprehension whose body may raise and updates the loader: the loader is threaded
  through the elements in order.
\<close>

fun try_fold_map ::
    "('s \<Rightarrow> 'a \<Rightarrow> error + ('b \<times> 's)) \<Rightarrow> 's \<Rightarrow> 'a list \<Rightarrow> error + ('b list \<times> 's)" where
  "try_fold_map f s [] = Inr ([], s)"
| "try_fold_map f s (x # xs) =
     ebind (f s x) (\<lambda>(y, s').
     ebind (try_fold_map f s' xs) (\<lambda>(ys, s''). Inr (y # ys, s'')))"

section \<open>Assembling a batch\<close>

text \<open>
  \<^verbatim>\<open>_prepare_batch\<close>, lines 205-206: the duration filter with its fallback.
  \<^verbatim>\<open>samples[0]\<close> raises IndexError on an empty list.
\<close>

definition filter_long_audio ::
    "'raw extern \<Rightarrow> UnitYDataLoader \<Rightarrow> LangPairSample list \<Rightarrow> error + LangPairSample list" where
  "filter_long_audio env self samples =
     ebind (try_map (is_long_src_audio env self) samples) (\<lambda>is_long.
       let filtered_samples = map fst (filter (\<lambda>(sample, long). \<not> long) (zip samples is_long))
       in if filtered_samples \<noteq> [] then Inr filtered_samples
          else (case samples of [] \<Rightarrow> Inl IndexError | sample # _ \<Rightarrow> Inr [sample]))"

text \<open>\<^verbatim>\<open>_prepare_batch\<close>, lines 208-214: the NaN filter and its assertion.\<close>

definition filter_nans ::
    "LangPairSample list \<Rightarrow> float tensor list
      \<Rightarrow> error + (LangPairSample list \<times> float tensor list)" where
  "filter_nans samples src_tokens_list =
     (let with_nans = map isnan_any src_tokens_list;
          samples' = map fst (filter (\<lambda>(sample, skip). \<not> skip) (zip samples with_nans))
      in if \<not> 0 < length samples' then Inl AssertionError
         else Inr (samples',
                   map fst (filter (\<lambda>(src_toks, skip). \<not> skip) (zip src_tokens_list with_nans))))"

text \<open>
  \<^verbatim>\<open>_prepare_batch\<close>, lines 202-214: the samples that reach batch assembly, with their
  feature matrices.
\<close>

definition surviving_samples ::
    "'raw extern \<Rightarrow> UnitYDataLoader \<Rightarrow> 'raw list
      \<Rightarrow> error + (LangPairSample list \<times> float tensor list)" where
  "surviving_samples env self raw_samples =
     ebind (try_map (from_json env) raw_samples) (\<lambda>samples.
     ebind (filter_long_audio env self samples) (\<lambda>samples.
     ebind (try_map (get_source_fbank env self) samples) (\<lambda>src_tokens_list.
     filter_nans samples src_tokens_list)))"

text \<open>
  \<^verbatim>\<open>_prepare_batch\<close>, lines 226-234 for text and again lines 248-256 for units: the
  previous-output view, the target view and the lengths of a list of token sequences.
\<close>

definition shifted_views ::
    "int tensor list \<Rightarrow> int \<Rightarrow> error + (int tensor \<times> int tensor \<times> int tensor)" where
  "shifted_views tokens_list pad =
     ebind (ebind (try_map drop_last tokens_list) (\<lambda>ts. batch_tensors ts pad))
       (\<lambda>prev_outputs_tokens.
     ebind (ebind (try_map drop_first tokens_list) (\<lambda>ts. batch_tensors ts pad))
       (\<lambda>target_tokens.
     ebind (try_map shape0 tokens_list) (\<lambda>lens.
     Inr (prev_outputs_tokens, target_tokens, LongTensor (map (\<lambda>n. int n - 1) lens)))))"

text \<open>\<^verbatim>\<open>UnitYDataLoader._prepare_batch\<close> (lines 201-274).\<close>

definition prepare_batch ::
    "'raw extern \<Rightarrow> UnitYDataLoader \<Rightarrow> 'raw list
      \<Rightarrow> error + (MultimodalSeqsBatch \<times> UnitYDataLoader)" where
  "prepare_batch env self raw_samples =
     ebind (surviving_samples env self raw_samples) (\<lambda>(samples, src_tokens_list).
     ebind (batch_tensors src_tokens_list
              (Finite (real_of_int (fbank_feats_pad_idx (batching_config self)))))
       (\<lambda>batched.
     let src_tokens = to_dtype env (float_dtype (batching_config self)) batched in
     ebind (try_map shape0 src_tokens_list) (\<lambda>lens.
     let src_lengths = LongTensor (map int lens) in
     ebind (try_fold_map get_tokenized_target_text self samples) (\<lambda>(text_tokens_list, self).
     ebind (shifted_views text_tokens_list (pad_idx (text_vocab_info (text_tokenizer self))))
       (\<lambda>(prev_outputs_tokens, target_tokens, tokens_lengths).
     ebind (try_fold_map get_tokenized_units self samples) (\<lambda>(units_list_raw, self).
     ebind
       (if None \<in> set units_list_raw then Inr (None, None, None)
        else
          let units_list = map the (filter (\<lambda>v. v \<noteq> None) units_list_raw) in
          ebind (shifted_views units_list (pad_idx (unit_vocab_info (unit_tokenizer self))))
            (\<lambda>(prev_outputs_units, target_units, units_lengths).
               Inr (Some prev_outputs_units, Some target_units, Some units_lengths)))
       (\<lambda>(prev_outputs_units, target_units, units_lengths).
     Inr (\<lparr>speech_to_text =
             \<lparr>src_tokens = Some src_tokens,
              src_lengths = Some src_lengths,
              target_tokens = Some target_tokens,
              prev_output_tokens = Some prev_outputs_tokens,
              target_lengths = Some tokens_lengths\<rparr>,
           text_to_units =
             \<lparr>src_tokens = None,
              src_lengths = None,
              target_tokens = target_units,
              prev_output_tokens = prev_outputs_units,
              target_lengths = units_lengths\<rparr>\<rparr>,
          self))))))))"

section \<open>Seeding the workers\<close>

text \<open>
  \<^verbatim>\<open>worker_init_fn\<close> (lines 90-91). The global numpy generator holds the Mersenne
  Twister key, an array of unsigned 32-bit words, and a position;
  \<^verbatim>\<open>np.random.get_state()[1][0]\<close> is the first word of the key, a \<^verbatim>\<open>np.uint32\<close>.

  The sum of a \<^verbatim>\<open>np.uint32\<close> and a Python int depends on the version of numpy, which
  the repository does not fix. Before numpy 2 (\<open>Legacy\<close>) the Python int is converted as
  \<^verbatim>\<open>np.asarray\<close> converts it, to \<^verbatim>\<open>int64\<close> if it fits, else to \<^verbatim>\<open>uint64\<close> if it fits,
  else to a Python object, and the sum is taken in the common type: in \<^verbatim>\<open>int64\<close>, in
  \<^verbatim>\<open>uint64\<close> (both wrap around), or exactly. From numpy 2 on (\<open>Weak\<close>) the sum stays a
  \<^verbatim>\<open>np.uint32\<close> and wraps around, and a Python int outside \<open>[0, 2^32)\<close> raises
  OverflowError.
\<close>

datatype promotion = Legacy | Weak

fun uint32_add_int :: "promotion \<Rightarrow> 32 word \<Rightarrow> int \<Rightarrow> error + int" where
  "uint32_add_int Legacy k i =
     (if - (2 ^ 63) \<le> i \<and> i < 2 ^ 63 then Inr (sint (word_of_int (uint k + i) :: 64 word))
      else if 0 \<le> i \<and> i < 2 ^ 64 then Inr (uint (word_of_int (uint k + i) :: 64 word))
      else Inr (uint k + i))"
| "uint32_add_int Weak k i =
     (if 0 \<le> i \<and> i < 2 ^ 32 then Inr (uint (k + word_of_int i)) else Inl OverflowError)"

text \<open>
  The seed that \<^verbatim>\<open>worker_init_fn\<close> computes, and the function itself. \<^verbatim>\<open>np.random.seed\<close>
  is a parameter: it turns the seed into a new generator state, or raises.
\<close>

record RandomState =
  mt_key :: "32 word list"
  mt_pos :: nat

definition worker_seed :: "promotion \<Rightarrow> RandomState \<Rightarrow> int \<Rightarrow> error + int" where
  "worker_seed p st worker_id =
     (case mt_key st of [] \<Rightarrow> Inl IndexError | k # _ \<Rightarrow> uint32_add_int p k worker_id)"

definition worker_init_fn ::
    "promotion \<Rightarrow> (int \<Rightarrow> error + RandomState) \<Rightarrow> RandomState \<Rightarrow> int
      \<Rightarrow> error + RandomState" where
  "worker_init_fn p np_random_seed st worker_id =
     ebind (worker_seed p st worker_id) np_random_seed"

text \<open>
  Tokenizing never changes the tokenizers, the configuration or the filterbank parameters
  of the loader, only its two caches. \<open>same_config\<close> says that two loader states agree on
  everything but the caches.
\<close>

definition same_config :: "UnitYDataLoader \<Rightarrow> UnitYDataLoader \<Rightarrow> bool" where
  "same_config a b \<longleftrightarrow> text_tokenizer a = text_tokenizer b \<and> unit_tokenizer a = unit_tokenizer b
     \<and> batching_config a = batching_config b \<and> fbank_extract_params a = fbank_extract_params b"

section \<open>A concrete loader with concrete samples\<close>

text \<open>
  A small world on which the pipeline is run: audio files at 16 kHz (five seconds, twenty
  seconds, three seconds, a two-second stereo file, a one-second file, a file of shape
  \<open>[3, 2]\<close>, a 1-dimensional waveform, a stereo file and a mono file of a single frame
  each, and two files of 4800 and 4801 frames), a filterbank converter that answers by the
  number of frames (80 mel bins; all-NaN features for the three-second file, a positive
  infinity in the features of the one-second file), a text encoder and a unit encoder that
  produce \<open>[eos, language, tokens...]\<close>, and the default configuration (15 seconds).
\<close>

definition ex_sample :: "string \<Rightarrow> string \<Rightarrow> int list option \<Rightarrow> LangPairSample" where
  "ex_sample path txt us =
     \<lparr>source = \<lparr>lang = ''eng'', sample_text = [], audio_local_path = path, units = None\<rparr>,
      target = \<lparr>lang = ''fra'', sample_text = txt, audio_local_path = [], units = us\<rparr>\<rparr>"

definition ex_A :: LangPairSample where "ex_A = ex_sample ''a.wav'' ''hi'' (Some [7, 8, 9, 10])"

definition ex_B :: LangPairSample where "ex_B = ex_sample ''b.wav'' ''salut'' (Some [1])"

definition ex_C :: LangPairSample where "ex_C = ex_sample ''c.wav'' ''non'' (Some [2])"

definition ex_D :: LangPairSample where "ex_D = ex_sample ''d.wav'' ''hello'' (Some [1, 2])"

definition ex_Dn :: LangPairSample where "ex_Dn = ex_sample ''d.wav'' ''hello'' None"

definition ex_E :: LangPairSample where "ex_E = ex_sample ''e.wav'' ''hi'' None"

definition ex_F :: LangPairSample where "ex_F = ex_sample ''f.wav'' ''hi'' None"

definition ex_H :: LangPairSample where "ex_H = ex_sample ''h.wav'' ''hi'' None"

definition ex_I :: LangPairSample where "ex_I = ex_sample ''i.wav'' ''hi'' None"

definition ex_J :: LangPairSample where "ex_J = ex_sample ''j.wav'' ''hi'' None"

definition ex_K :: LangPairSample where "ex_K = ex_sample ''k.wav'' ''hi'' None"

definition ex_load :: "string \<Rightarrow> error + (float tensor \<times> int)" where
  "ex_load path =
    (if path = ''a.wav'' then Inr (Tensor [1, 80000] (replicate 80000 (Finite 0)), 16000)
     else if path = ''b.wav'' then Inr (Tensor [1, 320000] (replicate 320000 (Finite 0)), 16000)
     else if path = ''c.wav'' then Inr (Tensor [1, 48000] (replicate 48000 (Finite 0)), 16000)
     else if path = ''d.wav'' then Inr (Tensor [2, 32000] (replicate 64000 (Finite 0)), 16000)
     else if path = ''e.wav'' then Inr (Tensor [1, 16000] (replicate 16000 (Finite 0)), 16000)
     else if path = ''f.wav'' then Inr (Tensor [3, 2] (replicate 6 (Finite 0)), 16000)
     else if path = ''g.wav'' then Inr (Tensor [4] (replicate 4 (Finite 0)), 16000)
     else if path = ''h.wav'' then Inr (Tensor [2, 1] (replicate 2 (Finite 0)), 16000)
     else if path = ''i.wav'' then Inr (Tensor [1, 1] (replicate 1 (Finite 0)), 16000)
     else if path = ''j.wav'' then Inr (Tensor [1, 4800] (replicate 4800 (Finite 0)), 16000)
     else if path = ''k.wav'' then Inr (Tensor [1, 4801] (replicate 4801 (Finite 0)), 16000)
     else Inl OSError)"

definition ex_fbank :: "fbank_params \<Rightarrow> float tensor \<Rightarrow> int \<Rightarrow> error + float tensor" where
  "ex_fbank params wav sample_rate =
     (case shape wav of
        [frames, channels] \<Rightarrow>
          if frames = 80000 then Inr (Tensor [498, 80] (replicate 39840 (Finite 0)))
          else if frames = 48000 then Inr (Tensor [298, 80] (replicate 23840 NaN))
          else if frames = 32000 then Inr (Tensor [198, 80] (replicate 15840 (Finite 1)))
          else if frames = 16000 then Inr (Tensor [98, 80] (PosInf # replicate 7839 (Finite 0)))
          else Inr (Tensor [0, 80] [])
      | _ \<Rightarrow> Inl RuntimeError)"

definition ex_env :: "LangPairSample extern" where
  "ex_env = \<lparr>from_json = Inr, torchaudio_load = ex_load,
             WaveformToFbankConverter = ex_fbank, round_to = (\<lambda>dt x. x)\<rparr>"

definition ex_text_encoder :: "string \<Rightarrow> TextTokenEncoder" where
  "ex_text_encoder lng txt = Inr (LongTensor (3 # 256 # map (\<lambda>c. 1000 + int (of_char c)) txt))"

definition ex_unit_encoder :: "string \<Rightarrow> UnitTokenEncoder" where
  "ex_unit_encoder lng t =
     Inr (Tensor [1, Suc (Suc (length (data t)))] (2 # 5 # map (\<lambda>u. u + 4) (data t)))"

definition ex_loader :: UnitYDataLoader where
  "ex_loader = init_UnitYDataLoader
     \<lparr>create_text_encoder = (\<lambda>lng mode. Inr (ex_text_encoder lng)),
      text_vocab_info = \<lparr>eos_idx = 3, pad_idx = 0\<rparr>\<rparr>
     \<lparr>create_unit_encoder = (\<lambda>lng. Inr (ex_unit_encoder lng)),
      unit_vocab_info = \<lparr>eos_idx = 2, pad_idx = 1\<rparr>\<rparr>
     default_BatchingConfig"

text \<open>The same loader with another bound on the duration.\<close>

definition ex_loader_bound :: "float \<Rightarrow> UnitYDataLoader" where
  "ex_loader_bound b = init_UnitYDataLoader
     \<lparr>create_text_encoder = (\<lambda>lng mode. Inr (ex_text_encoder lng)),
      text_vocab_info = \<lparr>eos_idx = 3, pad_idx = 0\<rparr>\<rparr>
     \<lparr>create_unit_encoder = (\<lambda>lng. Inr (ex_unit_encoder lng)),
      unit_vocab_info = \<lparr>eos_idx = 2, pad_idx = 1\<rparr>\<rparr>
     (default_BatchingConfig\<lparr>max_audio_length_sec := b\<rparr>)"

text \<open>The doubles that Python reads from \<^verbatim>\<open>0.3\<close> and from \<^verbatim>\<open>0.0001\<close>.\<close>

definition double_0_3 :: real where
  "double_0_3 = 5404319552844595 / 2 ^ 54"

definition double_0_0001 :: real where
  "double_0_0001 = 7378697629483821 / 2 ^ 66"

definition ex_loader_text :: UnitYDataLoader where
  "ex_loader_text = ex_loader\<lparr>text_encoders_per_lang := [''fra'' \<mapsto> ex_text_encoder ''fra'']\<rparr>"

definition ex_loader_units :: UnitYDataLoader where
  "ex_loader_units =
     ex_loader_text\<lparr>unit_encoders_per_lang := [''fra'' \<mapsto> ex_unit_encoder ''fra'']\<rparr>"

text \<open>The batches that \<open>prepare_batch\<close> assembles from these samples.\<close>

definition ex_batch_A :: MultimodalSeqsBatch where
  "ex_batch_A =
     \<lparr>speech_to_text =
        \<lparr>src_tokens = Some (Tensor [1, 498, 80] (replicate 39840 (Finite 0))),
         src_lengths = Some (Tensor [1] [498]),
         target_tokens = Some (Tensor [1, 4] [256, 1104, 1105, 3]),
         prev_output_tokens = Some (Tensor [1, 4] [3, 256, 1104, 1105]),
         target_lengths = Some (Tensor [1] [4])\<rparr>,
      text_to_units =
        \<lparr>src_tokens = None, src_lengths = None,
         target_tokens = Some (Tensor [1, 6] [5, 11, 12, 13, 14, 2]),
         prev_output_tokens = Some (Tensor [1, 6] [2, 5, 11, 12, 13, 14]),
         target_lengths = Some (Tensor [1] [6])\<rparr>\<rparr>"

definition ex_speech_AD :: SeqsBatch where
  "ex_speech_AD =
     \<lparr>src_tokens = Some (Tensor [2, 498, 80]
        (replicate 39840 (Finite 0) @ replicate 15840 (Finite 1) @ replicate 24000 (Finite 0))),
      src_lengths = Some (Tensor [2] [498, 198]),
      target_tokens = Some (Tensor [2, 7]
        [256, 1104, 1105, 3, 0, 0, 0, 256, 1104, 1101, 1108, 1108, 1111, 3]),
      prev_output_tokens = Some (Tensor [2, 7]
        [3, 256, 1104, 1105, 0, 0, 0, 3, 256, 1104, 1101, 1108, 1108, 1111]),
      target_lengths = Some (Tensor [2] [4, 7])\<rparr>"

definition ex_batch_AD :: MultimodalSeqsBatch where
  "ex_batch_AD =
     \<lparr>speech_to_text = ex_speech_AD,
      text_to_units =
        \<lparr>src_tokens = None, src_lengths = None,
         target_tokens = Some (Tensor [2, 6] [5, 11, 12, 13, 14, 2, 5, 5, 6, 2, 1, 1]),
         prev_output_tokens = Some (Tensor [2, 6] [2, 5, 11, 12, 13, 14, 2, 5, 5, 6, 1, 1]),
         target_lengths = Some (Tensor [2] [6, 4])\<rparr>\<rparr>"

definition ex_batch_ADn :: MultimodalSeqsBatch where
  "ex_batch_ADn =
     \<lparr>speech_to_text = ex_speech_AD,
      text_to_units =
        \<lparr>src_tokens = None, src_lengths = None, target_tokens = None,
         prev_output_tokens = None, target_lengths = None\<rparr>\<rparr>"

text \<open>The waveform and the sample rate that \<open>ex_load\<close> gives for the audio of a sample.\<close>

definition ex_wav :: "LangPairSample \<Rightarrow> float tensor" where
  "ex_wav s = fst (projr (ex_load (audio_local_path (source s))))"

definition ex_rate :: "LangPairSample \<Rightarrow> int" where
  "ex_rate s = snd (projr (ex_load (audio_local_path (source s))))"

text \<open>
  A seeding function in the manner of numpy: a seed outside \<open>[0, 2^32 - 1]\<close> is refused, and
  the first key word of the new state is the seed.
\<close>

definition ex_np_random_seed :: "int \<Rightarrow> error + RandomState" where
  "ex_np_random_seed seed =
     (if seed < 0 \<or> 2 ^ 32 - 1 < seed then Inl ValueError
      else Inr \<lparr>mt_key = [word_of_int seed], mt_pos = 624\<rparr>)"

definition ex_batch_E :: MultimodalSeqsBatch where
  "ex_batch_E =
     \<lparr>speech_to_text =
        \<lparr>src_tokens = Some (Tensor [1, 98, 80] (PosInf # replicate 7839 (Finite 0))),
         src_lengths = Some (Tensor [1] [98]),
         target_tokens = Some (Tensor [1, 4] [256, 1104, 1105, 3]),
         prev_output_tokens = Some (Tensor [1, 4] [3, 256, 1104, 1105]),
         target_lengths = Some (Tensor [1] [4])\<rparr>,
      text_to_units =
        \<lparr>src_tokens = None, src_lengths = None, target_tokens = None,
         prev_output_tokens = None, target_lengths = None\<rparr>\<rparr>"

section \<open>Properties of the error monad and of padding\<close>

lemma try_map_Inr_iff:
  "try_map f xs = Inr ys \<longleftrightarrow> list_all2 (\<lambda>x y. f x = Inr y) xs ys"
proof (induction xs arbitrary: ys)
  case Nil
  then show ?case by auto
next
  case (Cons x xs)
  show ?case
  proof (cases "f x")
    case (Inl e)
    then show ?thesis by (auto simp: ebind_def list_all2_Cons1)
  next
    case (Inr y)
    show ?thesis
    proof (cases "try_map f xs")
      case (Inl e)
      with Cons.IH have "\<And>zs. \<not> list_all2 (\<lambda>x y. f x = Inr y) xs zs" by simp
      with Inl Inr show ?thesis by (auto simp: ebind_def list_all2_Cons1)
    next
      case r: (Inr zs)
      have "list_all2 (\<lambda>x y. f x = Inr y) xs ws \<longleftrightarrow> ws = zs" for ws
        using Cons.IH[of ws] r by auto
      with r Inr show ?thesis by (auto simp: ebind_def list_all2_Cons1)
    qed
  qed
qed

lemma try_map_total:
  "(\<And>x. x \<in> set xs \<Longrightarrow> f x = Inr (g x)) \<Longrightarrow> try_map f xs = Inr (map g xs)"
  by (induction xs) (auto simp: ebind_def)

lemma slices_Suc: "slices (Suc k) m xs = take m xs # slices k m (drop m xs)"
proof -
  have "[0..<Suc k] = 0 # [Suc 0..<Suc k]"
    by (rule upt_conv_Cons) simp
  then have "[0..<Suc k] = 0 # map Suc [0..<k]"
    by (simp only: map_Suc_upt)
  then show ?thesis
    by (simp add: slices_def o_def add.commute del: upt_Suc)
qed

lemma concat_slices:
  "length xs = k * m \<Longrightarrow> concat (slices k m xs) = xs"
proof (induction k arbitrary: xs)
  case 0
  then show ?case by (simp add: slices_def)
next
  case (Suc k)
  have "length (drop m xs) = k * m" using Suc.prems by simp
  then show ?case by (simp add: slices_Suc Suc.IH)
qed

lemma slices_length:
  "length xs = k * m \<Longrightarrow> ys \<in> set (slices k m xs) \<Longrightarrow> length ys = m"
proof (induction k arbitrary: xs)
  case 0
  then show ?case by (simp add: slices_def)
next
  case (Suc k)
  have "length (drop m xs) = k * m" using Suc.prems by simp
  from Suc.IH[OF this] Suc.prems(2) show ?case
    unfolding slices_Suc by (cases "ys = take m xs") (use Suc.prems(1) in auto)
qed

lemma pad_data_zero:
  "length xs = prod_list s \<Longrightarrow> pad_data s (replicate (length s) (0, 0)) v xs = xs"
proof (induction s arbitrary: xs)
  case Nil
  then show ?case by simp
next
  case (Cons n s)
  have "map (pad_data s (replicate (length s) (0, 0)) v) (slices n (prod_list s) xs) = slices n (prod_list s) xs"
    using Cons.IH slices_length[of xs n "prod_list s"] Cons.prems
    by (intro map_idI) auto
  then show ?case using Cons.prems by (simp add: concat_slices)
qed

lemma padded_shape_zero: "padded_shape s (replicate (length s) (0, 0)) = s"
  by (induction s) auto

lemma pad_pairs_zeros: "pad_pairs (replicate (2 * m) 0 @ [a, b]) = replicate m (0, 0) @ [(a, b)]"
  by (induction m) auto

lemma padding_list:
  assumes "0 < d"
  shows "(replicate (2 * d) (0::nat))[2 * d - 1 := k] = replicate (2 * (d - 1)) 0 @ [0, k]"
proof -
  from assms obtain e where d: "d = Suc e" by (cases d) auto
  have "2 * d = 2 * e + 2" by (simp add: d)
  then have "replicate (2 * d) (0::nat) = replicate (2 * e) 0 @ replicate 2 0"
    by (simp only: replicate_add)
  also have "replicate 2 (0::nat) = [0, 0]" by (simp add: numeral_2_eq_2)
  finally have "(replicate (2 * d) (0::nat))[2 * d - 1 := k] = (replicate (2 * e) 0 @ [0, 0])[2 * d - 1 := k]"
    by simp
  also have "\<dots> = replicate (2 * e) 0 @ [0, k]"
    by (simp add: d list_update_append)
  finally show ?thesis by (simp add: d)
qed

lemma pad_tensor_last:
  assumes "0 < d" and "d \<le> length (shape t)"
  shows "pad_tensor t ((replicate (2 * d) 0)[2 * d - 1 := k]) v =
    Inr (Tensor
      (padded_shape (shape t) (replicate (length (shape t) - d) (0, 0) @ (0, k) # replicate (d - 1) (0, 0)))
      (pad_data (shape t) (replicate (length (shape t) - d) (0, 0) @ (0, k) # replicate (d - 1) (0, 0)) v (data t)))"
  unfolding padding_list[OF assms(1)]
  using assms by (simp add: pad_tensor_def pad_pairs_zeros Let_def)

lemma pad_tensor_short:
  assumes "length (shape t) < d"
  shows "pad_tensor t ((replicate (2 * d) 0)[2 * d - 1 := k]) v = Inl RuntimeError"
  using assms by (simp add: pad_tensor_def)

lemma pad_tensor_zero:
  assumes "0 < d" and "d \<le> length (shape t)" and "wf_tensor t"
  shows "pad_tensor t ((replicate (2 * d) 0)[2 * d - 1 := 0]) v = Inr t"
proof -
  have "replicate (length (shape t) - d) (0::nat, 0::nat) @ (0, 0) # replicate (d - 1) (0, 0)
        = replicate (length (shape t) - d) (0, 0) @ replicate (Suc (d - 1)) (0, 0)"
    by simp
  also have "\<dots> = replicate (length (shape t) - d + Suc (d - 1)) (0, 0)"
    by (simp only: replicate_add)
  also have "length (shape t) - d + Suc (d - 1) = length (shape t)"
    using assms(1,2) by simp
  finally have z: "replicate (length (shape t) - d) (0::nat, 0::nat) @ (0, 0) # replicate (d - 1) (0, 0)
        = replicate (length (shape t)) (0, 0)" .
  show ?thesis
    unfolding pad_tensor_last[OF assms(1,2)] z
    using assms(3) by (simp add: padded_shape_zero pad_data_zero wf_tensor_def)
qed

lemma pad_tensor_leading:
  assumes "shape t = n # s" and "wf_tensor t"
  shows "pad_tensor t ((replicate (2 * length (shape t)) 0)[2 * length (shape t) - 1 := k]) v =
    Inr (Tensor ((n + k) # s) (data t @ replicate (k * prod_list s) v))"
proof -
  have len: "length (data t) = n * prod_list s" using assms by (simp add: wf_tensor_def)
  have m: "map (pad_data s (replicate (length s) (0, 0)) v) (slices n (prod_list s) (data t))
        = slices n (prod_list s) (data t)"
    using slices_length[OF len] by (intro map_idI) (simp add: pad_data_zero)
  have r: "0 < length (shape t)" "length (shape t) \<le> length (shape t)"
    using assms(1) by simp_all
  show ?thesis
    unfolding pad_tensor_last[OF r]
    using assms(1) len m by (simp add: padded_shape_zero concat_slices)
qed

lemmas pad_tensor_simps =
  pad_tensor_short[unfolded One_nat_def] pad_tensor_zero[unfolded One_nat_def]
  pad_tensor_leading[unfolded One_nat_def]

lemma try_map_Inl:
  assumes "\<And>x. x \<in> set xs \<Longrightarrow> f x = Inr (g x) \<or> f x = Inl e"
    and "\<exists>x\<in>set xs. f x = Inl e"
  shows "try_map f xs = Inl e"
  using assms
proof (induction xs)
  case Nil
  then show ?case by simp
next
  case (Cons x xs)
  show ?case
  proof (cases "f x")
    case (Inl e')
    with Cons.prems(1)[of x] show ?thesis by (simp add: ebind_def)
  next
    case (Inr y)
    with Cons.prems(2) have "\<exists>x\<in>set xs. f x = Inl e" by auto
    with Cons.IH Cons.prems(1) have "try_map f xs = Inl e" by simp
    with Inr show ?thesis by (simp add: ebind_def)
  qed
qed

lemma shape0_Inr: "shape0 t = Inr n \<longleftrightarrow> (\<exists>s. shape t = n # s)"
  by (auto simp: shape0_def split: list.splits)

subsection \<open>Blocks of a concatenation, transposition\<close>

lemma take_drop_concat:
  assumes "\<And>xs. xs \<in> set xss \<Longrightarrow> length xs = m" and "i < length xss"
  shows "take m (drop (i * m) (concat xss)) = xss ! i"
  using assms
proof (induction xss arbitrary: i)
  case Nil
  then show ?case by simp
next
  case (Cons xs xss)
  have len: "length xs = m" using Cons.prems(1) by simp
  show ?case
  proof (cases i)
    case 0
    then show ?thesis using len by simp
  next
    case (Suc k)
    have "drop (i * m) (concat (xs # xss)) = drop (k * m) (concat xss)"
      using len by (simp add: Suc)
    moreover have "take m (drop (k * m) (concat xss)) = xss ! k"
      using Cons.IH[of k] Cons.prems Suc by simp
    ultimately show ?thesis by (simp add: Suc)
  qed
qed

lemma concat_nth_block:
  assumes "\<And>xs. xs \<in> set xss \<Longrightarrow> length xs = m" and "i < length xss" and "k < m"
  shows "concat xss ! (i * m + k) = xss ! i ! k"
proof -
  have "xss ! i ! k = take m (drop (i * m) (concat xss)) ! k"
    using take_drop_concat[OF assms(1,2)] by simp
  also have "\<dots> = drop (i * m) (concat xss) ! k"
    using assms(3) by simp
  also have "\<dots> = concat xss ! (i * m + k)"
  proof -
    have "length (concat xss) = length xss * m"
      using assms(1) by (induction xss) auto
    moreover have "i * m + k < length xss * m"
    proof -
      have "i * m + k < Suc i * m" using assms(3) by simp
      also have "\<dots> \<le> length xss * m" using assms(2) by (intro mult_le_mono1) simp
      finally show ?thesis .
    qed
    ultimately have "i * m \<le> length (concat xss)" using assms(2) by simp
    then show ?thesis by (rule nth_drop)
  qed
  finally show ?thesis by simp
qed

lemma transpose01_2d:
  assumes "shape t = [r, c]"
  shows "shape (transpose01 t) = [c, r]"
    and "length (data (transpose01 t)) = c * r"
    and "\<And>i j. i < r \<Longrightarrow> j < c \<Longrightarrow> data (transpose01 t) ! (j * r + i) = data t ! (i * c + j)"
proof -
  let ?xss = "map (\<lambda>j. map (\<lambda>i. data t ! (i * c + j)) [0..<r]) [0..<c]"
  have d: "data (transpose01 t) = concat ?xss" and s: "shape (transpose01 t) = [c, r]"
    using assms by (simp_all add: transpose01_def)
  show "shape (transpose01 t) = [c, r]" by (rule s)
  have len: "\<And>xs. xs \<in> set ?xss \<Longrightarrow> length xs = r" by auto
  show "length (data (transpose01 t)) = c * r"
    unfolding d by (simp add: length_concat o_def sum_list_triv)
  fix i j assume "i < r" "j < c"
  then show "data (transpose01 t) ! (j * r + i) = data t ! (i * c + j)"
    unfolding d using concat_nth_block[of ?xss r j i, OF len] by simp
qed

lemma normalize_channel_layout_cases:
  "normalize_channel_layout wav =
     (case shape wav of
        [n] \<Rightarrow> Inr (Tensor [n, 1] (data wav))
      | [c, n] \<Rightarrow> if c \<le> 2 then Inr (transpose01 wav) else Inr wav
      | _ \<Rightarrow> Inl AssertionError)"
  by (auto simp: normalize_channel_layout_def unsqueeze_last_def split: list.splits)

lemma get_source_fbank_loaded:
  assumes "torchaudio_load env (audio_local_path (source sample)) = Inr (wav, SAMPLE_RATE)"
  shows "get_source_fbank env self sample =
     ebind (normalize_channel_layout wav)
       (\<lambda>w. WaveformToFbankConverter env (fbank_extract_params self) w SAMPLE_RATE)"
  using assms by (simp add: get_source_fbank_def ebind_def)

lemma filter_zip_map:
  "map fst (filter (\<lambda>(x, b). \<not> b) (zip xs (map P xs))) = filter (\<lambda>x. \<not> P x) xs"
  by (induction xs) auto

lemma filter_long_audio_total:
  assumes "samples \<noteq> []"
    and "\<And>s. s \<in> set samples \<Longrightarrow>
          torchaudio_load env (audio_local_path (source s)) = Inr (wav s, sample_rate s)
          \<and> length_s (wav s) (sample_rate s) = Inr (len s)"
  shows "filter_long_audio env self samples =
     Inr (if \<forall>s\<in>set samples. float_gt (len s) (max_audio_length_sec (batching_config self))
          then [hd samples]
          else filter (\<lambda>s. \<not> float_gt (len s) (max_audio_length_sec (batching_config self)))
                 samples)"
proof -
  let ?P = "\<lambda>s. float_gt (len s) (max_audio_length_sec (batching_config self))"
  have "try_map (is_long_src_audio env self) samples = Inr (map ?P samples)"
    by (rule try_map_total) (use assms(2) in \<open>auto simp: is_long_src_audio_def ebind_def\<close>)
  moreover have "filter (\<lambda>s. \<not> ?P s) samples = [] \<longleftrightarrow> (\<forall>s\<in>set samples. ?P s)"
    by (auto simp: filter_empty_conv)
  moreover have "filter_long_audio env self samples =
      ebind (try_map (is_long_src_audio env self) samples) (\<lambda>is_long.
        if map fst (filter (\<lambda>(sample, long). \<not> long) (zip samples is_long)) \<noteq> []
        then Inr (map fst (filter (\<lambda>(sample, long). \<not> long) (zip samples is_long)))
        else Inr [hd samples])"
    using assms(1)
    by (cases samples) (simp_all add: filter_long_audio_def Let_def del: try_map.simps cong del: if_weak_cong)
  ultimately show ?thesis
    by (simp only: ebind_def sum.case filter_zip_map) auto
qed

subsection \<open>When \<open>batch_tensors\<close> returns, and what\<close>

lemma ebind_Inr_iff: "ebind m f = Inr y \<longleftrightarrow> (\<exists>x. m = Inr x \<and> f x = Inr y)"
  by (cases m) (auto simp: ebind_def)

lemma length_padded_shape: "length (padded_shape s ps) = length s"
  by (induction s ps rule: padded_shape.induct) auto

lemma stack_Inr_iff:
  "stack ps = Inr r \<longleftrightarrow>
     ps \<noteq> [] \<and> (\<forall>p\<in>set ps. shape p = shape (hd ps))
     \<and> r = Tensor (length ps # shape (hd ps)) (concat (map data ps))"
  by (cases ps) (auto simp: stack_def list_all_iff)

lemma try_map_shape0_Inr:
  "try_map shape0 ts = Inr lens \<longleftrightarrow> (\<forall>t\<in>set ts. shape t \<noteq> []) \<and> lens = map (hd \<circ> shape) ts"
proof -
  have "list_all2 (\<lambda>t n. shape0 t = Inr n) ts lens
      \<longleftrightarrow> (\<forall>t\<in>set ts. shape t \<noteq> []) \<and> lens = map (hd \<circ> shape) ts"
  proof (induction ts arbitrary: lens)
    case Nil
    then show ?case by auto
  next
    case (Cons t ts)
    have h: "shape0 t = Inr n \<longleftrightarrow> shape t \<noteq> [] \<and> n = hd (shape t)" for n
      by (cases "shape t") (auto simp: shape0_def)
    show ?case
    proof (cases lens)
      case Nil
      then show ?thesis by simp
    next
      case c: (Cons n ns)
      show ?thesis
        unfolding c list_all2_Cons Cons.IH h by auto
    qed
  qed
  then show ?thesis by (simp only: try_map_Inr_iff)
qed

lemma pad_step_same_rank:
  assumes "shape t = n # s" and "d = Suc (length s)"
  shows "\<exists>xs. pad_tensor t ((replicate (2 * d) 0)[2 * d - 1 := k]) v = Inr (Tensor ((n + k) # s) xs)
      \<and> (wf_tensor t \<longrightarrow> xs = data t @ replicate (k * prod_list s) v)"
proof -
  have r: "0 < d" "d \<le> length (shape t)" using assms by simp_all
  have z: "replicate (length (shape t) - d) (0::nat, 0::nat) = []" using assms by simp
  have sh: "padded_shape (shape t) ((0, k) # replicate (d - 1) (0, 0)) = (n + k) # s"
    using assms by (simp add: padded_shape_zero)
  show ?thesis
  proof (intro exI conjI impI)
    show "pad_tensor t ((replicate (2 * d) 0)[2 * d - 1 := k]) v =
      Inr (Tensor ((n + k) # s) (pad_data (shape t) ((0, k) # replicate (d - 1) (0, 0)) v (data t)))"
      unfolding pad_tensor_last[OF r] z using sh by simp
    assume "wf_tensor t"
    from pad_tensor_leading[OF assms(1) this, of k v]
    have "pad_tensor t ((replicate (2 * d) 0)[2 * d - 1 := k]) v =
        Inr (Tensor ((n + k) # s) (data t @ replicate (k * prod_list s) v))"
      using assms by simp
    then show "pad_data (shape t) ((0, k) # replicate (d - 1) (0, 0)) v (data t)
        = data t @ replicate (k * prod_list s) v"
      unfolding pad_tensor_last[OF r] z by simp
  qed
qed

lemma pad_step_InrD:
  assumes "shape t = n # s" and "0 < d"
    and "pad_tensor t ((replicate (2 * d) 0)[2 * d - 1 := k]) v = Inr p"
    and "length (shape p) = d"
  shows "shape p = (n + k) # s"
    and "wf_tensor t \<Longrightarrow> data p = data t @ replicate (k * prod_list s) v"
proof -
  have "\<not> length (shape t) < d"
    using assms(3) pad_tensor_short[of t d k v] by auto
  then have le: "d \<le> length (shape t)" by simp
  from assms(3) have "length (shape p) = length (shape t)"
    unfolding pad_tensor_last[OF assms(2) le] by (auto simp: length_padded_shape)
  with assms(1,4) have d: "d = Suc (length s)" by simp
  from pad_step_same_rank[OF assms(1) d, of k v] assms(3)
  show "shape p = (n + k) # s"
    and "wf_tensor t \<Longrightarrow> data p = data t @ replicate (k * prod_list s) v"
    by auto
qed

lemma list_all2_fun: "list_all2 (\<lambda>x y. y = h x) xs ys \<longleftrightarrow> ys = map h xs"
proof (induction xs arbitrary: ys)
  case Nil
  then show ?case by auto
next
  case (Cons x xs)
  then show ?case by (cases ys) auto
qed

lemma batch_tensors_InrD:
  assumes "batch_tensors ts v = Inr r"
  shows "\<exists>s. ts \<noteq> []
      \<and> (\<forall>t\<in>set ts. \<exists>n. shape t = n # s)
      \<and> shape r = length ts # Max (set (map (hd \<circ> shape) ts)) # s
      \<and> ((\<forall>t\<in>set ts. wf_tensor t) \<longrightarrow>
           data r = concat (map (\<lambda>t. data t @ replicate
             ((Max (set (map (hd \<circ> shape) ts)) - hd (shape t)) * prod_list s) v) ts))"
proof -
  define M where "M = Max (set (map (hd \<circ> shape) ts))"
  from assms obtain t0 rest where ts: "ts = t0 # rest"
    by (cases ts) (auto simp: batch_tensors_def)
  define d where "d = length (shape t0)"
  define f where "f = (\<lambda>tensor :: 'a tensor. ebind (shape0 tensor) (\<lambda>n.
     pad_tensor tensor ((replicate (2 * d) 0)[2 * d - 1 := M - n]) v))"
  from assms obtain lens padded where
    lens: "try_map shape0 ts = Inr lens" and
    padded: "try_map f ts = Inr padded" and
    st: "stack padded = Inr r"
    unfolding batch_tensors_def ts list.case ebind_Inr_iff Let_def f_def d_def M_def
    by (auto simp: try_map_shape0_Inr simp del: try_map.simps)
  from lens have ne: "\<And>t. t \<in> set ts \<Longrightarrow> shape t \<noteq> []"
    by (simp add: try_map_shape0_Inr)
  from ne[of t0] obtain n0 s0 where sh0: "shape t0 = n0 # s0"
    by (cases "shape t0") (auto simp: ts)
  have d: "d = Suc (length s0)" "0 < d" by (simp_all add: d_def sh0)
  have le: "hd (shape t) \<le> M" if "t \<in> set ts" for t
    unfolding M_def using that by (intro Max_ge) auto
  from padded have all2: "list_all2 (\<lambda>t p. f t = Inr p) ts padded"
    by (simp only: try_map_Inr_iff)
  then obtain p0 prest where pd: "padded = p0 # prest" and fp0: "f t0 = Inr p0"
    by (auto simp: ts list_all2_Cons1)
  from st have same: "\<And>p. p \<in> set padded \<Longrightarrow> shape p = shape p0"
    and r: "r = Tensor (length padded # shape p0) (concat (map data padded))"
    by (auto simp: stack_Inr_iff pd)
  have fp: "f t = pad_tensor t ((replicate (2 * d) 0)[2 * d - 1 := M - hd (shape t)]) v"
    if "t \<in> set ts" for t
    using ne[OF that] by (cases "shape t") (auto simp: f_def shape0_def ebind_def)
  have sp0: "shape p0 = M # s0"
  proof -
    from pad_step_same_rank[OF sh0 d(1), of "M - n0" v] fp0 fp[of t0]
    have "shape p0 = (n0 + (M - n0)) # s0" by (auto simp: ts sh0)
    moreover have "n0 \<le> M" using le[of t0] by (simp add: ts sh0)
    ultimately show ?thesis by simp
  qed
  have step: "shape t = hd (shape t) # s0
      \<and> shape p = M # s0
      \<and> (wf_tensor t \<longrightarrow> p = Tensor (M # s0)
            (data t @ replicate ((M - hd (shape t)) * prod_list s0) v))"
    if "t \<in> set ts" "p \<in> set padded" "f t = Inr p" for t p
  proof -
    from ne[OF that(1)] obtain n s where sh: "shape t = n # s" by (cases "shape t") auto
    have pt: "pad_tensor t ((replicate (2 * d) 0)[2 * d - 1 := M - n]) v = Inr p"
      using that(3) fp[OF that(1)] sh by simp
    have lp: "length (shape p) = d" using same[OF that(2)] sp0 d by simp
    from pad_step_InrD[OF sh d(2) pt lp]
    have a: "shape p = (n + (M - n)) # s"
      and b: "wf_tensor t \<Longrightarrow> data p = data t @ replicate ((M - n) * prod_list s) v"
      by auto
    from a same[OF that(2)] sp0 have s: "s = s0" by simp
    have "n \<le> M" using le[OF that(1)] sh by simp
    with a s have sp: "shape p = M # s0" by simp
    show ?thesis
      using sh s sp b by (cases p) auto
  qed
  have shapes: "\<forall>t\<in>set ts. \<exists>n. shape t = n # s0"
  proof
    fix t assume t: "t \<in> set ts"
    then obtain i where i: "i < length ts" "ts ! i = t" by (auto simp: in_set_conv_nth)
    from all2 i have "f t = Inr (padded ! i)" "padded ! i \<in> set padded"
      by (auto simp: list_all2_conv_all_nth)
    from step[OF t this(2,1)] show "\<exists>n. shape t = n # s0" by blast
  qed
  have len: "length padded = length ts" using all2 by (simp add: list_all2_lengthD)
  have dat: "data r = concat (map (\<lambda>t. data t @ replicate ((M - hd (shape t)) * prod_list s0) v) ts)"
    if wf: "\<forall>t\<in>set ts. wf_tensor t"
  proof -
    have "list_all2 (\<lambda>t p. p = Tensor (M # s0)
            (data t @ replicate ((M - hd (shape t)) * prod_list s0) v)) ts padded"
      using all2
    proof (rule list.rel_mono_strong)
      fix t p assume "t \<in> set ts" "p \<in> set padded" "f t = Inr p"
      from step[OF this] wf \<open>t \<in> set ts\<close>
      show "p = Tensor (M # s0) (data t @ replicate ((M - hd (shape t)) * prod_list s0) v)"
        by simp
    qed
    then have "padded = map (\<lambda>t. Tensor (M # s0)
            (data t @ replicate ((M - hd (shape t)) * prod_list s0) v)) ts"
      by (simp only: list_all2_fun)
    then show ?thesis by (simp add: r o_def)
  qed
  show ?thesis
    unfolding M_def[symmetric]
    using shapes dat ts by (intro exI[of _ s0]) (auto simp: r sp0 len)
qed

lemma batch_tensors_Cons:
  assumes "try_map shape0 (t0 # rest) = Inr lens"
  shows "batch_tensors (t0 # rest) v =
     ebind (try_map (\<lambda>tensor. ebind (shape0 tensor) (\<lambda>n.
         pad_tensor tensor
           ((replicate (2 * length (shape t0)) 0)[2 * length (shape t0) - 1 := Max (set lens) - n]) v))
       (t0 # rest)) stack"
  using assms by (simp add: batch_tensors_def ebind_def Let_def del: try_map.simps)

lemma batch_tensors_total:
  assumes "ts \<noteq> []" and "\<forall>t\<in>set ts. \<exists>n. shape t = n # s"
  shows "\<exists>r. batch_tensors ts v = Inr r"
proof -
  define M where "M = Max (set (map (hd \<circ> shape) ts))"
  from assms(1) obtain t0 rest where ts: "ts = t0 # rest" by (cases ts) auto
  define d where "d = length (shape t0)"
  define f where "f = (\<lambda>tensor :: 'a tensor. ebind (shape0 tensor) (\<lambda>n.
     pad_tensor tensor ((replicate (2 * d) 0)[2 * d - 1 := M - n]) v))"
  have lens: "try_map shape0 ts = Inr (map (hd \<circ> shape) ts)"
    using assms(2) by (auto simp: try_map_shape0_Inr)
  have d: "d = Suc (length s)" using assms(2) by (auto simp: d_def ts)
  have le: "hd (shape t) \<le> M" if "t \<in> set ts" for t
    unfolding M_def using that by (intro Max_ge) auto
  have ft: "\<exists>p. f t = Inr p \<and> shape p = M # s" if "t \<in> set ts" for t
  proof -
    from assms(2) that obtain n where sh: "shape t = n # s" by auto
    from pad_step_same_rank[OF sh d, of "M - n" v] le[OF that] sh
    show ?thesis by (auto simp: f_def shape0_def ebind_def)
  qed
  define g where "g = (\<lambda>t. projr (f t))"
  have fg: "f t = Inr (g t)" "shape (g t) = M # s" if "t \<in> set ts" for t
    using ft[OF that] by (auto simp: g_def)
  have "try_map f ts = Inr (map g ts)"
    by (rule try_map_total) (rule fg(1))
  moreover have "\<exists>r. stack (map g ts) = Inr r"
    using fg(2) by (auto simp: stack_Inr_iff ts)
  moreover have "batch_tensors ts v = ebind (try_map f ts) stack"
    unfolding f_def d_def M_def ts by (rule batch_tensors_Cons[OF lens[unfolded ts]])
  ultimately show ?thesis by (auto simp: ebind_def)
qed

subsection \<open>Tokenization and the stages of \<open>prepare_batch\<close>\<close>

lemma try_fold_map_InrD:
  assumes "try_fold_map f s xs = Inr (ys, s')"
    and "\<And>s x y s1. f s x = Inr (y, s1) \<Longrightarrow> I s \<Longrightarrow> P x y \<and> I s1"
    and "I s"
  shows "list_all2 P xs ys \<and> I s'"
  using assms(1,3)
proof (induction xs arbitrary: s ys)
  case Nil
  then show ?case by simp
next
  case (Cons x xs)
  from Cons.prems(1) obtain y s1 zs where
    fx: "f s x = Inr (y, s1)" and rest: "try_fold_map f s1 xs = Inr (zs, s')" and ys: "ys = y # zs"
    by (auto simp: ebind_Inr_iff)
  from assms(2)[OF fx Cons.prems(2)] have "P x y" "I s1" by auto
  with Cons.IH[OF rest] show ?case by (simp add: ys)
qed

lemma concat0_eos:
  "concat0 tokens (LongTensor [e]) = Inr t
     \<longleftrightarrow> (\<exists>n. shape tokens = [n] \<and> t = Tensor [Suc n] (data tokens @ [e]))"
  by (auto simp: concat0_def LongTensor_def split: list.splits)

lemma get_tokenized_target_text_InrD:
  assumes "get_tokenized_target_text self sample = Inr (t, self')"
  shows "(\<exists>n. shape t = [Suc n]) \<and> same_config self self'"
  using assms
  by (auto simp: get_tokenized_target_text_def Let_def ebind_Inr_iff concat0_eos same_config_def
      split: option.splits)

lemma get_tokenized_units_InrD:
  assumes "get_tokenized_units self sample = Inr (u, self')"
  shows "(u = None \<longleftrightarrow> units (target sample) = None)
     \<and> (\<forall>t. u = Some t \<longrightarrow> (\<exists>n. shape t = [Suc n])) \<and> same_config self self'"
  using assms
  by (auto simp: get_tokenized_units_def Let_def ebind_Inr_iff concat0_eos same_config_def
      split: option.splits)

lemma prepare_batch_InrD:
  assumes "prepare_batch env self raw = Inr (b, self')"
  shows "\<exists>samples fbs batched lens toks self1 prev tgt tlens utoks pu tu lu.
    surviving_samples env self raw = Inr (samples, fbs)
    \<and> batch_tensors fbs (Finite (real_of_int (fbank_feats_pad_idx (batching_config self)))) = Inr batched
    \<and> try_map shape0 fbs = Inr lens
    \<and> try_fold_map get_tokenized_target_text self samples = Inr (toks, self1)
    \<and> shifted_views toks (pad_idx (text_vocab_info (text_tokenizer self1))) = Inr (prev, tgt, tlens)
    \<and> try_fold_map get_tokenized_units self1 samples = Inr (utoks, self')
    \<and> (if None \<in> set utoks then pu = None \<and> tu = None \<and> lu = None
        else \<exists>pu' tu' lu'.
          shifted_views (map the (filter (\<lambda>v. v \<noteq> None) utoks))
            (pad_idx (unit_vocab_info (unit_tokenizer self'))) = Inr (pu', tu', lu')
          \<and> pu = Some pu' \<and> tu = Some tu' \<and> lu = Some lu')
    \<and> b = \<lparr>speech_to_text =
             \<lparr>src_tokens = Some (to_dtype env (float_dtype (batching_config self)) batched),
              src_lengths = Some (LongTensor (map int lens)),
              target_tokens = Some tgt,
              prev_output_tokens = Some prev,
              target_lengths = Some tlens\<rparr>,
           text_to_units =
             \<lparr>src_tokens = None, src_lengths = None, target_tokens = tu,
              prev_output_tokens = pu, target_lengths = lu\<rparr>\<rparr>"
  using assms unfolding prepare_batch_def Let_def
  by (auto simp: ebind_Inr_iff split: if_splits simp del: try_map.simps try_fold_map.simps)

lemma filter_zip_map2:
  "map fst (filter (\<lambda>(x, b). \<not> b) (zip xs (map P ys)))
     = map fst (filter (\<lambda>(x, y). \<not> P y) (zip xs ys))"
proof (induction xs arbitrary: ys)
  case Nil
  then show ?case by simp
next
  case (Cons x xs)
  then show ?case by (cases ys) auto
qed

lemma length_filter_zip:
  "length xs = length ys \<Longrightarrow>
     length (filter (\<lambda>(x, y). Q y) (zip xs ys)) = length (filter Q ys)"
  by (induction xs ys rule: list_induct2) auto

lemma filter_nans_Inr_iff:
  assumes "length samples = length fbs"
  shows "filter_nans samples fbs = Inr (ss, fs) \<longleftrightarrow>
     ss = map fst (filter (\<lambda>(s, t). \<not> isnan_any t) (zip samples fbs))
     \<and> fs = filter (\<lambda>t. \<not> isnan_any t) fbs \<and> fs \<noteq> []"
proof -
  have "length (map fst (filter (\<lambda>(s, t). \<not> isnan_any t) (zip samples fbs)))
      = length (filter (\<lambda>t. \<not> isnan_any t) fbs)"
    using length_filter_zip[OF assms, of "\<lambda>t. \<not> isnan_any t"] by simp
  then have "map fst (filter (\<lambda>(s, t). \<not> isnan_any t) (zip samples fbs)) = []
      \<longleftrightarrow> filter (\<lambda>t. \<not> isnan_any t) fbs = []"
    by (metis length_0_conv)
  then show ?thesis
    unfolding filter_nans_def Let_def filter_zip_map filter_zip_map2 by auto
qed

lemma surviving_samples_InrD:
  assumes "surviving_samples env self raw = Inr (ss, fs)"
  shows "\<exists>samples0 samples1 fbs1.
      try_map (from_json env) raw = Inr samples0
      \<and> filter_long_audio env self samples0 = Inr samples1
      \<and> try_map (get_source_fbank env self) samples1 = Inr fbs1
      \<and> ss = map fst (filter (\<lambda>(s, t). \<not> isnan_any t) (zip samples1 fbs1))
      \<and> fs = filter (\<lambda>t. \<not> isnan_any t) fbs1
      \<and> fs \<noteq> [] \<and> length ss = length fs"
proof -
  from assms obtain samples0 samples1 fbs1 where
    a: "try_map (from_json env) raw = Inr samples0"
       "filter_long_audio env self samples0 = Inr samples1"
       "try_map (get_source_fbank env self) samples1 = Inr fbs1"
       "filter_nans samples1 fbs1 = Inr (ss, fs)"
    unfolding surviving_samples_def by (auto simp: ebind_Inr_iff simp del: try_map.simps)
  from a(3) have len: "length samples1 = length fbs1"
    by (simp add: try_map_Inr_iff list_all2_lengthD del: try_map.simps)
  from a(4)[unfolded filter_nans_Inr_iff[OF len]]
  have b: "ss = map fst (filter (\<lambda>(s, t). \<not> isnan_any t) (zip samples1 fbs1))"
      "fs = filter (\<lambda>t. \<not> isnan_any t) fbs1" "fs \<noteq> []"
    by blast+
  have "length ss = length fs"
    unfolding b using length_filter_zip[OF len, of "\<lambda>t. \<not> isnan_any t"] by simp
  with a b show ?thesis by blast
qed

lemma drop_last_1d:
  assumes "shape t = [n]"
  shows "drop_last t = Inr (Tensor [n - 1] (take (n - 1) (data t)))"
    and "drop_first t = Inr (Tensor [n - 1] (drop 1 (data t)))"
  using assms by (simp_all add: drop_last_def drop_first_def)

lemma shifted_views_InrD:
  assumes "shifted_views toks pad = Inr (prev, tgt, lens)"
    and "\<forall>t\<in>set toks. \<exists>n. shape t = [Suc n]"
  shows "toks \<noteq> []
    \<and> shape prev = [length toks, Max (set (map (\<lambda>t. hd (shape t) - 1) toks))]
    \<and> shape tgt = [length toks, Max (set (map (\<lambda>t. hd (shape t) - 1) toks))]
    \<and> lens = LongTensor (map (\<lambda>t. int (hd (shape t)) - 1) toks)
    \<and> ((\<forall>t\<in>set toks. wf_tensor t) \<longrightarrow>
         data prev = concat (map (\<lambda>t. butlast (data t) @ replicate
             (Max (set (map (\<lambda>t. hd (shape t) - 1) toks)) - (hd (shape t) - 1)) pad) toks)
       \<and> data tgt = concat (map (\<lambda>t. tl (data t) @ replicate
             (Max (set (map (\<lambda>t. hd (shape t) - 1) toks)) - (hd (shape t) - 1)) pad) toks))"
proof -
  define M where "M = Max (set (map (\<lambda>t. hd (shape t) - 1) toks))"
  define dl where "dl = (\<lambda>t :: int tensor. Tensor [hd (shape t) - 1] (take (hd (shape t) - 1) (data t)))"
  define df where "df = (\<lambda>t :: int tensor. Tensor [hd (shape t) - 1] (drop 1 (data t)))"
  have 1: "try_map drop_last toks = Inr (map dl toks)"
    by (rule try_map_total) (use assms(2) in \<open>auto simp: dl_def drop_last_1d\<close>)
  have 2: "try_map drop_first toks = Inr (map df toks)"
    by (rule try_map_total) (use assms(2) in \<open>auto simp: df_def drop_last_1d\<close>)
  have 3: "try_map shape0 toks = Inr (map (hd \<circ> shape) toks)"
    using assms(2) by (auto simp: try_map_shape0_Inr)
  from assms(1) have bp: "batch_tensors (map dl toks) pad = Inr prev"
    and bt: "batch_tensors (map df toks) pad = Inr tgt"
    and ln: "lens = LongTensor (map (\<lambda>t. int (hd (shape t)) - 1) toks)"
    unfolding shifted_views_def 1 2 3 by (auto simp: ebind_def o_def split: sum.splits)
  have hd_dl: "map (hd \<circ> shape) (map dl toks) = map (\<lambda>t. hd (shape t) - 1) toks"
    and hd_df: "map (hd \<circ> shape) (map df toks) = map (\<lambda>t. hd (shape t) - 1) toks"
    by (simp_all add: dl_def df_def o_def)
  have wf_d: "wf_tensor (dl t) \<and> wf_tensor (df t) \<and> take (hd (shape t) - 1) (data t) = butlast (data t)
      \<and> drop 1 (data t) = tl (data t)"
    if "t \<in> set toks" "wf_tensor t" for t
  proof -
    from assms(2) that(1) obtain n where "shape t = [Suc n]" by auto
    with that(2) have "length (data t) = Suc n" by (simp add: wf_tensor_def)
    then show ?thesis
      using \<open>shape t = [Suc n]\<close>
      by (simp add: dl_def df_def wf_tensor_def butlast_conv_take drop_Suc)
  qed
  from batch_tensors_InrD[OF bp] obtain s where
    p: "toks \<noteq> []" "\<forall>t\<in>set (map dl toks). \<exists>n. shape t = n # s"
       "shape prev = length toks # M # s"
       "(\<forall>t\<in>set (map dl toks). wf_tensor t) \<longrightarrow>
           data prev = concat (map (\<lambda>t. data t @ replicate ((M - hd (shape t)) * prod_list s) pad) (map dl toks))"
    unfolding hd_dl M_def[symmetric] by auto
  from p(1,2) have s: "s = []" by (cases toks) (auto simp: dl_def)
  from batch_tensors_InrD[OF bt] obtain s' where
    q: "\<forall>t\<in>set (map df toks). \<exists>n. shape t = n # s'"
       "shape tgt = length toks # M # s'"
       "(\<forall>t\<in>set (map df toks). wf_tensor t) \<longrightarrow>
           data tgt = concat (map (\<lambda>t. data t @ replicate ((M - hd (shape t)) * prod_list s') pad) (map df toks))"
    unfolding hd_df M_def[symmetric] by auto
  from p(1) q(1) have s': "s' = []" by (cases toks) (auto simp: df_def)
  have "data prev = concat (map (\<lambda>t. butlast (data t) @ replicate (M - (hd (shape t) - 1)) pad) toks)
      \<and> data tgt = concat (map (\<lambda>t. tl (data t) @ replicate (M - (hd (shape t) - 1)) pad) toks)"
    if wf: "\<forall>t\<in>set toks. wf_tensor t"
  proof -
    have a: "data prev = concat (map (\<lambda>t. data t @ replicate ((M - hd (shape t)) * prod_list s) pad) (map dl toks))"
      using p(4) wf wf_d by auto
    have b: "data tgt = concat (map (\<lambda>t. data t @ replicate ((M - hd (shape t)) * prod_list s') pad) (map df toks))"
      using q(3) wf wf_d by auto
    have e1: "map (\<lambda>t. data t @ replicate ((M - hd (shape t)) * prod_list s) pad) (map dl toks)
        = map (\<lambda>t. butlast (data t) @ replicate (M - (hd (shape t) - 1)) pad) toks"
      unfolding map_map o_def
      by (rule map_cong[OF refl]) (use wf wf_d in \<open>auto simp: s dl_def\<close>)
    have e2: "map (\<lambda>t. data t @ replicate ((M - hd (shape t)) * prod_list s') pad) (map df toks)
        = map (\<lambda>t. tl (data t) @ replicate (M - (hd (shape t) - 1)) pad) toks"
      unfolding map_map o_def
      by (rule map_cong[OF refl]) (use wf wf_d in \<open>auto simp: s' df_def\<close>)
    show ?thesis unfolding a b e1 e2 by simp
  qed
  then show ?thesis
    unfolding M_def[symmetric] using p(1,3) q(2) ln s s' by simp
qed

lemma tokenized_texts_InrD:
  assumes "try_fold_map get_tokenized_target_text self samples = Inr (toks, self1)"
  shows "list_all2 (\<lambda>s t. \<exists>n. shape t = [Suc n]) samples toks \<and> same_config self self1"
proof -
  have "list_all2 (\<lambda>s t. \<exists>n. shape t = [Suc n]) samples toks \<and> same_config self self1"
    by (rule try_fold_map_InrD[OF assms, where I = "same_config self"])
       (auto dest!: get_tokenized_target_text_InrD simp: same_config_def)
  then show ?thesis .
qed

lemma tokenized_units_InrD:
  assumes "try_fold_map get_tokenized_units self samples = Inr (utoks, self1)"
  shows "list_all2 (\<lambda>s u. (u = None \<longleftrightarrow> units (target s) = None)
            \<and> (\<forall>t. u = Some t \<longrightarrow> (\<exists>n. shape t = [Suc n]))) samples utoks
      \<and> same_config self self1"
  by (rule try_fold_map_InrD[OF assms, where I = "same_config self"])
     (auto dest!: get_tokenized_units_InrD simp: same_config_def)

lemma None_in_units_iff:
  assumes "list_all2 (\<lambda>s u. (u = None \<longleftrightarrow> units (target s) = None) \<and> Q u) samples utoks"
  shows "None \<in> set utoks \<longleftrightarrow> (\<exists>s\<in>set samples. units (target s) = None)"
  using assms by (induction rule: list_all2_induct) auto

lemma list_all2_shapes_set:
  assumes "list_all2 (\<lambda>s t. \<exists>n. shape t = [Suc n]) samples toks"
  shows "\<forall>t\<in>set toks. \<exists>n. shape t = [Suc n]" and "length toks = length samples"
  using assms by (auto simp: list_all2_conv_all_nth in_set_conv_nth)

lemma units_shapes_set:
  assumes "list_all2 (\<lambda>s u. (u = None \<longleftrightarrow> units (target s) = None)
            \<and> (\<forall>t. u = Some t \<longrightarrow> (\<exists>n. shape t = [Suc n]))) samples utoks"
    and "None \<notin> set utoks"
  shows "\<forall>t\<in>set (map the utoks). \<exists>n. shape t = [Suc n]"
    and "length (map the utoks) = length samples"
proof -
  show "length (map the utoks) = length samples"
    using assms(1) by (simp add: list_all2_lengthD)
  show "\<forall>t\<in>set (map the utoks). \<exists>n. shape t = [Suc n]"
  proof
    fix t assume "t \<in> set (map the utoks)"
    then obtain u where u: "u \<in> set utoks" "t = the u" by auto
    with assms(2) obtain t' where "u = Some t'" by (cases u) auto
    moreover from u(1) assms(1) have "\<forall>t. u = Some t \<longrightarrow> (\<exists>n. shape t = [Suc n])"
      by (auto simp: list_all2_conv_all_nth in_set_conv_nth)
    ultimately show "\<exists>n. shape t = [Suc n]" using u(2) by simp
  qed
qed

lemma prepare_batch_views:
  assumes "prepare_batch env self raw = Inr (b, self')"
    and "surviving_samples env self raw = Inr (samples, fbs)"
  shows "\<exists>batched toks self1 prev tgt tlens utoks.
      batch_tensors fbs (Finite (real_of_int (fbank_feats_pad_idx (batching_config self))))
        = Inr batched
      \<and> (\<forall>t\<in>set fbs. shape t \<noteq> [])
      \<and> try_fold_map get_tokenized_target_text self samples = Inr (toks, self1)
      \<and> (\<forall>t\<in>set toks. \<exists>n. shape t = [Suc n]) \<and> length toks = length samples
      \<and> shifted_views toks (pad_idx (text_vocab_info (text_tokenizer self))) = Inr (prev, tgt, tlens)
      \<and> speech_to_text b =
           \<lparr>src_tokens = Some (to_dtype env (float_dtype (batching_config self)) batched),
            src_lengths = Some (LongTensor (map (\<lambda>t. int (hd (shape t))) fbs)),
            target_tokens = Some tgt,
            prev_output_tokens = Some prev,
            target_lengths = Some tlens\<rparr>
      \<and> src_tokens (text_to_units b) = None \<and> src_lengths (text_to_units b) = None
      \<and> try_fold_map get_tokenized_units self1 samples = Inr (utoks, self')
      \<and> length utoks = length samples
      \<and> (if \<exists>s\<in>set samples. units (target s) = None
          then prev_output_tokens (text_to_units b) = None
             \<and> target_tokens (text_to_units b) = None
             \<and> target_lengths (text_to_units b) = None
          else \<exists>pu tu lu.
             shifted_views (map the utoks) (pad_idx (unit_vocab_info (unit_tokenizer self)))
               = Inr (pu, tu, lu)
             \<and> None \<notin> set utoks
             \<and> (\<forall>t\<in>set (map the utoks). \<exists>n. shape t = [Suc n])
             \<and> prev_output_tokens (text_to_units b) = Some pu
             \<and> target_tokens (text_to_units b) = Some tu
             \<and> target_lengths (text_to_units b) = Some lu)"
proof -
  from prepare_batch_InrD[OF assms(1)] assms(2)
  obtain batched lens toks self1 prev tgt tlens utoks pu tu lu where
    bt: "batch_tensors fbs (Finite (real_of_int (fbank_feats_pad_idx (batching_config self)))) = Inr batched"
    and ln: "try_map shape0 fbs = Inr lens"
    and t: "try_fold_map get_tokenized_target_text self samples = Inr (toks, self1)"
    and sv: "shifted_views toks (pad_idx (text_vocab_info (text_tokenizer self1))) = Inr (prev, tgt, tlens)"
    and u: "try_fold_map get_tokenized_units self1 samples = Inr (utoks, self')"
    and c: "if None \<in> set utoks then pu = None \<and> tu = None \<and> lu = None
        else \<exists>pu' tu' lu'.
          shifted_views (map the (filter (\<lambda>v. v \<noteq> None) utoks))
            (pad_idx (unit_vocab_info (unit_tokenizer self'))) = Inr (pu', tu', lu')
          \<and> pu = Some pu' \<and> tu = Some tu' \<and> lu = Some lu'"
    and b: "speech_to_text b =
           \<lparr>src_tokens = Some (to_dtype env (float_dtype (batching_config self)) batched),
            src_lengths = Some (LongTensor (map int lens)),
            target_tokens = Some tgt, prev_output_tokens = Some prev, target_lengths = Some tlens\<rparr>"
      "text_to_units b = \<lparr>src_tokens = None, src_lengths = None, target_tokens = tu,
              prev_output_tokens = pu, target_lengths = lu\<rparr>"
    by auto
  from tokenized_texts_InrD[OF t] have
    l: "list_all2 (\<lambda>s t. \<exists>n. shape t = [Suc n]) samples toks" and c1: "same_config self self1"
    by simp_all
  from tokenized_units_InrD[OF u] have
    l2: "list_all2 (\<lambda>s u. (u = None \<longleftrightarrow> units (target s) = None)
            \<and> (\<forall>t. u = Some t \<longrightarrow> (\<exists>n. shape t = [Suc n]))) samples utoks"
    and c2: "same_config self1 self'" by simp_all
  from ln have ne: "\<forall>t\<in>set fbs. shape t \<noteq> []" and lens: "lens = map (hd \<circ> shape) fbs"
    by (simp_all add: try_map_shape0_Inr)
  have n: "None \<in> set utoks \<longleftrightarrow> (\<exists>s\<in>set samples. units (target s) = None)"
    by (rule None_in_units_iff[OF l2])
  have f: "filter (\<lambda>v. v \<noteq> None) utoks = utoks" if "None \<notin> set utoks"
    using that by (intro filter_True ballI) metis
  have us: "\<forall>t\<in>set (map the utoks). \<exists>n. shape t = [Suc n]" if "None \<notin> set utoks"
    by (rule units_shapes_set(1)[OF l2 that])
  have units: "if \<exists>s\<in>set samples. units (target s) = None
          then prev_output_tokens (text_to_units b) = None
             \<and> target_tokens (text_to_units b) = None
             \<and> target_lengths (text_to_units b) = None
          else \<exists>pu tu lu.
             shifted_views (map the utoks) (pad_idx (unit_vocab_info (unit_tokenizer self)))
               = Inr (pu, tu, lu)
             \<and> None \<notin> set utoks
             \<and> (\<forall>t\<in>set (map the utoks). \<exists>n. shape t = [Suc n])
             \<and> prev_output_tokens (text_to_units b) = Some pu
             \<and> target_tokens (text_to_units b) = Some tu
             \<and> target_lengths (text_to_units b) = Some lu"
  proof (cases "None \<in> set utoks")
    case True
    with c n b(2) show ?thesis by simp
  next
    case False
    from c have "\<exists>pu' tu' lu'.
          shifted_views (map the utoks)
            (pad_idx (unit_vocab_info (unit_tokenizer self'))) = Inr (pu', tu', lu')
          \<and> pu = Some pu' \<and> tu = Some tu' \<and> lu = Some lu'"
      unfolding if_not_P[OF False] f[OF False] .
    moreover have "unit_tokenizer self' = unit_tokenizer self"
      using c1 c2 by (simp add: same_config_def)
    ultimately show ?thesis
      using False us[OF False] n b(2) by auto
  qed
  have "length utoks = length samples" using l2 by (simp add: list_all2_lengthD)
  with bt ne t list_all2_shapes_set[OF l] sv b u units c1 show ?thesis
    by (intro exI[of _ batched] exI[of _ toks] exI[of _ self1] exI[of _ prev] exI[of _ tgt]
          exI[of _ tlens] exI[of _ utoks]) (simp add: lens same_config_def o_def)
qed

lemma batch_tensors_eq:
  assumes "ts \<noteq> []" and "\<forall>t\<in>set ts. wf_tensor t \<and> shape t \<noteq> [] \<and> tl (shape t) = s"
  shows "batch_tensors ts v =
     Inr (Tensor (length ts # Max (set (map (hd \<circ> shape) ts)) # s)
       (concat (map (\<lambda>t. data t @ replicate
          ((Max (set (map (hd \<circ> shape) ts)) - hd (shape t)) * prod_list s) v) ts)))"
proof -
  have sh: "\<forall>t\<in>set ts. \<exists>n. shape t = n # s"
  proof
    fix t assume "t \<in> set ts"
    with assms(2) show "\<exists>n. shape t = n # s" by (cases "shape t") auto
  qed
  from batch_tensors_total[OF assms(1) sh] obtain r where r: "batch_tensors ts v = Inr r" by blast
  from batch_tensors_InrD[OF r] obtain s' where
    a: "\<forall>t\<in>set ts. \<exists>n. shape t = n # s'"
       "shape r = length ts # Max (set (map (hd \<circ> shape) ts)) # s'"
       "(\<forall>t\<in>set ts. wf_tensor t) \<longrightarrow>
           data r = concat (map (\<lambda>t. data t @ replicate
             ((Max (set (map (hd \<circ> shape) ts)) - hd (shape t)) * prod_list s') v) ts)"
    by blast
  from assms(1) sh a(1) have "s' = s" by (cases ts) auto
  with a assms(2) show ?thesis
    unfolding r by (cases r) auto
qed

lemma shifted_views_rows:
  assumes "shifted_views toks pad = Inr (prev, tgt, lens)"
    and "\<forall>t\<in>set toks. \<exists>n. shape t = [Suc n]"
    and "\<forall>t\<in>set toks. wf_tensor t"
    and "i < length toks"
  shows "data (toks ! i) \<noteq> []
    \<and> data lens ! i = int (length (data (toks ! i))) - 1
    \<and> (\<exists>k. data (row i prev) = butlast (data (toks ! i)) @ replicate k pad
           \<and> data (row i tgt) = tl (data (toks ! i)) @ replicate k pad)
    \<and> (\<forall>j<length (data (toks ! i)) - 1.
           data (row i prev) ! j = data (toks ! i) ! j
         \<and> data (row i tgt) ! j = data (toks ! i) ! Suc j)"
proof -
  define M where "M = Max (set (map (\<lambda>t. hd (shape t) - 1) toks))"
  define S where "S = data (toks ! i)"
  define k where "k = M - (hd (shape (toks ! i)) - 1)"
  from shifted_views_InrD[OF assms(1,2)] assms(3) have
    sp: "shape prev = [length toks, M]" and st: "shape tgt = [length toks, M]"
    and ln: "lens = LongTensor (map (\<lambda>t. int (hd (shape t)) - 1) toks)"
    and dp: "data prev = concat (map (\<lambda>t. butlast (data t) @ replicate (M - (hd (shape t) - 1)) pad) toks)"
    and dt: "data tgt = concat (map (\<lambda>t. tl (data t) @ replicate (M - (hd (shape t) - 1)) pad) toks)"
    unfolding M_def by simp_all
  have len: "length (data t) = hd (shape t) \<and> 0 < hd (shape t) \<and> hd (shape t) - 1 \<le> M"
    if "t \<in> set toks" for t
  proof -
    from assms(2) that obtain n where "shape t = [Suc n]" by auto
    moreover have "hd (shape t) - 1 \<le> M"
      unfolding M_def using that by (intro Max_ge) auto
    ultimately show ?thesis using assms(3) that by (auto simp: wf_tensor_def)
  qed
  have ti: "toks ! i \<in> set toks" using assms(4) by simp
  have lp: "\<And>xs. xs \<in> set (map (\<lambda>t. butlast (data t) @ replicate (M - (hd (shape t) - 1)) pad) toks)
      \<Longrightarrow> length xs = M"
    using len by auto
  have lt: "\<And>xs. xs \<in> set (map (\<lambda>t. tl (data t) @ replicate (M - (hd (shape t) - 1)) pad) toks)
      \<Longrightarrow> length xs = M"
    using len by auto
  have "take M (drop (i * M)
      (concat (map (\<lambda>t. butlast (data t) @ replicate (M - (hd (shape t) - 1)) pad) toks)))
      = map (\<lambda>t. butlast (data t) @ replicate (M - (hd (shape t) - 1)) pad) toks ! i"
    by (rule take_drop_concat) (use lp assms(4) in simp_all)
  then have rp: "data (row i prev) = butlast S @ replicate k pad"
    unfolding row_def sp dp S_def k_def using assms(4) by simp
  have "take M (drop (i * M)
      (concat (map (\<lambda>t. tl (data t) @ replicate (M - (hd (shape t) - 1)) pad) toks)))
      = map (\<lambda>t. tl (data t) @ replicate (M - (hd (shape t) - 1)) pad) toks ! i"
    by (rule take_drop_concat) (use lt assms(4) in simp_all)
  then have rt: "data (row i tgt) = tl S @ replicate k pad"
    unfolding row_def st dt S_def k_def using assms(4) by simp
  have ne: "S \<noteq> []" and ls: "length S = hd (shape (toks ! i))"
    using len[OF ti] by (auto simp: S_def)
  have el: "(butlast S @ replicate k pad) ! j = S ! j \<and> (tl S @ replicate k pad) ! j = S ! Suc j"
    if "j < length S - 1" for j
    using that ne by (simp add: nth_append nth_butlast nth_tl)
  have "data lens ! i = int (length S) - 1"
    using assms(4) ls by (simp add: ln LongTensor_def)
  with ne rp rt el show ?thesis
    unfolding S_def[symmetric] by auto
qed

lemma Max_int_image:
  assumes "xs \<noteq> []"
  shows "Max ((\<lambda>x. int (f x)) ` set xs) = int (Max (f ` set xs))"
proof -
  have "int (Max (f ` set xs)) = Max (int ` f ` set xs)"
    by (rule mono_Max_commute) (use assms in \<open>auto simp: mono_def\<close>)
  then show ?thesis by (simp add: image_image)
qed

lemma shifted_views_lengths:
  assumes "shifted_views toks pad = Inr (prev, tgt, lens)"
    and "\<forall>t\<in>set toks. \<exists>n. shape t = [Suc n]"
  shows "data lens = map (\<lambda>t. int (hd (shape t)) - 1) toks
    \<and> shape prev = [length toks, nat (Max (set (data lens)))]
    \<and> shape tgt = [length toks, nat (Max (set (data lens)))]"
proof -
  from shifted_views_InrD[OF assms] have
    ne: "toks \<noteq> []"
    and sp: "shape prev = [length toks, Max (set (map (\<lambda>t. hd (shape t) - 1) toks))]"
    and st: "shape tgt = [length toks, Max (set (map (\<lambda>t. hd (shape t) - 1) toks))]"
    and ln: "lens = LongTensor (map (\<lambda>t. int (hd (shape t)) - 1) toks)"
    by simp_all
  have "map (\<lambda>t. int (hd (shape t)) - 1) toks = map int (map (\<lambda>t. hd (shape t) - 1) toks)"
    using assms(2) by auto
  then have "Max (set (data lens)) = int (Max (set (map (\<lambda>t. hd (shape t) - 1) toks)))"
    using ne by (simp add: ln LongTensor_def Max_int_image)
  with sp st ln show ?thesis by (simp add: LongTensor_def)
qed

lemma filter_long_audio_nonempty:
  assumes "filter_long_audio env self samples = Inr kept"
  shows "kept \<noteq> []"
  using assms unfolding filter_long_audio_def Let_def
  by (auto simp: ebind_Inr_iff split: if_splits list.splits simp del: try_map.simps)

lemma filter_nans_all_nan:
  assumes "list_all isnan_any fbs"
  shows "filter_nans samples fbs = Inl AssertionError"
proof -
  have "filter (\<lambda>(s, y). \<not> isnan_any y) (zip samples fbs) = []"
    using assms by (auto simp: filter_empty_conv list_all_iff dest: set_zip_rightD)
  then show ?thesis
    unfolding filter_nans_def Let_def filter_zip_map2 by simp
qed

subsection \<open>Running the pipeline on the concrete samples\<close>

lemmas divide_defs = int_true_divide_def nat_true_divide_def floor_log2_def
  round_half_even_def bit_length.simps Let_def

lemma ex_length_s:
  "length_s (Tensor [1, 80000] d) 16000 = Inr (Finite 5)"
  "length_s (Tensor [1, 320000] d) 16000 = Inr (Finite 20)"
  "length_s (Tensor [1, 48000] d) 16000 = Inr (Finite 3)"
  "length_s (Tensor [2, 32000] d) 16000 = Inr (Finite 2)"
  "length_s (Tensor [1, 16000] d) 16000 = Inr (Finite 1)"
  by (simp_all add: length_s_def divide_defs)

lemma ex_length_s_short:
  "length_s (Tensor [2, 1] d) 16000 = Inr (Finite (1152921504606847 / 2 ^ 63))"
  "length_s (Tensor [1, 1] d) 16000 = Inr (Finite (1152921504606847 / 2 ^ 64))"
  "length_s (Tensor [1, 4800] d) 16000 = Inr (Finite (5404319552844595 / 2 ^ 54))"
  "length_s (Tensor [1, 4801] d) 16000 = Inr (Finite (2702722726375719 / 2 ^ 53))"
  by (simp_all add: length_s_def divide_defs)

lemmas ex_lengths = ex_length_s ex_length_s[unfolded One_nat_def]
  ex_length_s_short ex_length_s_short[unfolded One_nat_def]

lemmas ex_defs = ex_env_def ex_load_def ex_sample_def ex_fbank_def ex_loader_def
  init_UnitYDataLoader_def default_BatchingConfig_def ex_text_encoder_def ex_unit_encoder_def
  ex_A_def ex_B_def ex_C_def ex_D_def ex_Dn_def ex_E_def ex_F_def
  ex_loader_text_def ex_loader_units_def ex_batch_A_def ex_batch_AD_def ex_batch_ADn_def
  ex_speech_AD_def

lemmas model_defs = is_long_src_audio_def ex_lengths get_source_fbank_def
  normalize_channel_layout_def unsqueeze_last_def SAMPLE_RATE_def isnan_any_def
  get_tokenized_target_text_def get_tokenized_units_def concat0_def LongTensor_def
  unsqueeze_first_def squeeze_first_def filter_long_audio_def filter_nans_def
  surviving_samples_def shifted_views_def drop_last_def drop_first_def shape0_def
  prepare_batch_def to_dtype_def ebind_def Let_def wf_tensor_def list_ex_iff
  transpose01_2d(1) batch_tensors_eq[where s = "[80]"] batch_tensors_eq[where s = "[]"]

lemma ex_surviving_ABC:
  "surviving_samples ex_env ex_loader [ex_A, ex_B, ex_C]
     = Inr ([ex_A], [Tensor [498, 80] (replicate 39840 (Finite 0))])"
  by (simp add: ex_defs model_defs)

lemma ex_surviving_AD:
  "surviving_samples ex_env ex_loader [ex_A, ex_D]
     = Inr ([ex_A, ex_D],
            [Tensor [498, 80] (replicate 39840 (Finite 0)),
             Tensor [198, 80] (replicate 15840 (Finite 1))])"
  by (simp add: ex_defs model_defs)

lemma ex_surviving_ADn:
  "surviving_samples ex_env ex_loader [ex_A, ex_Dn]
     = Inr ([ex_A, ex_Dn],
            [Tensor [498, 80] (replicate 39840 (Finite 0)),
             Tensor [198, 80] (replicate 15840 (Finite 1))])"
  by (simp add: ex_defs model_defs)

lemma ex_prepare_ABC:
  "prepare_batch ex_env ex_loader [ex_A, ex_B, ex_C] = Inr (ex_batch_A, ex_loader_units)"
  by (simp add: ex_defs model_defs)

lemma ex_prepare_AD:
  "prepare_batch ex_env ex_loader [ex_A, ex_D] = Inr (ex_batch_AD, ex_loader_units)"
  by (simp add: ex_defs model_defs)

lemma ex_prepare_ADn:
  "prepare_batch ex_env ex_loader [ex_A, ex_Dn] = Inr (ex_batch_ADn, ex_loader_units)"
  by (simp add: ex_defs model_defs)

lemma ex_text_AD:
  "try_fold_map get_tokenized_target_text ex_loader [ex_A, ex_D]
     = Inr ([Tensor [5] [3, 256, 1104, 1105, 3],
             Tensor [8] [3, 256, 1104, 1101, 1108, 1108, 1111, 3]], ex_loader_text)"
  by (simp add: ex_defs model_defs)

lemma ex_units_AD:
  "try_fold_map get_tokenized_units ex_loader_text [ex_A, ex_D]
     = Inr ([Some (Tensor [7] [2, 5, 11, 12, 13, 14, 2]), Some (Tensor [5] [2, 5, 5, 6, 2])],
            ex_loader_units)"
  by (simp add: ex_defs model_defs)

lemma ex_wf_AD:
  "list_all wf_tensor [Tensor [5] [3, 256, 1104, 1105, 3 :: int],
             Tensor [8] [3, 256, 1104, 1101, 1108, 1108, 1111, 3]]"
  "list_all (\<lambda>u. case u of None \<Rightarrow> True | Some t \<Rightarrow> wf_tensor t)
     [Some (Tensor [7] [2, 5, 11, 12, 13, 14, 2 :: int]), Some (Tensor [5] [2, 5, 5, 6, 2])]"
  by (simp_all add: wf_tensor_def)

subsection \<open>The quotient of two integers is correctly rounded\<close>

text \<open>
  \<open>nat_true_divide a b\<close> is a multiple \<open>m * 2^q\<close> of the spacing \<open>2^q\<close> of the doubles
  around \<open>a / b\<close>, with a significand \<open>m \<le> 2^53\<close>, at most half a spacing away from
  \<open>a / b\<close>; on a tie the significand is even; and it raises only when \<open>a / b\<close> is at
  least half a spacing above the largest double.
\<close>

lemma bit_length_pos: "0 < n \<Longrightarrow> 0 < bit_length n"
  by (subst bit_length.simps) simp

lemma bit_length_bounds:
  "0 < n \<Longrightarrow> 2 ^ (bit_length n - 1) \<le> n \<and> n < 2 ^ bit_length n"
proof (induction n rule: bit_length.induct)
  case (1 n)
  have bl: "bit_length n = Suc (bit_length (n div 2))"
    using 1(2) by (subst bit_length.simps) simp
  show ?case
  proof (cases "n div 2 = 0")
    case True
    with 1(2) have "n = 1" by (simp add: div_eq_0_iff) 
    then show ?thesis by (simp add: bit_length.simps)
  next
    case False
    with 1 have IH: "2 ^ (bit_length (n div 2) - 1) \<le> n div 2" "n div 2 < 2 ^ bit_length (n div 2)"
      by simp_all
    from False have "0 < bit_length (n div 2)" by (simp add: bit_length_pos)
    then obtain j where j: "bit_length (n div 2) = Suc j" by (cases "bit_length (n div 2)") auto
    from IH(1) have "2 * 2 ^ j \<le> 2 * (n div 2)" unfolding j by simp
    also have "\<dots> \<le> n" by simp
    finally have lo: "2 ^ (bit_length n - 1) \<le> n" by (simp add: bl j)
    from IH(2) have "Suc (n div 2) \<le> 2 ^ bit_length (n div 2)" by simp
    then have "2 * Suc (n div 2) \<le> 2 * 2 ^ bit_length (n div 2)" by (rule mult_le_mono2)
    moreover have "n < 2 * Suc (n div 2)" by simp
    ultimately have "n < 2 ^ bit_length n" by (simp add: bl)
    with lo show ?thesis by simp
  qed
qed

lemma round_half_even_error:
  assumes "0 < b"
  shows "\<bar>real a / real b - real (round_half_even a b)\<bar> \<le> 1 / 2"
proof -
  define q r where "q = a div b" and "r = a mod b"
  have a: "a = q * b + r" and rb: "r < b" using assms by (simp_all add: q_def r_def)
  have e: "real a / real b = real q + real r / real b"
    using assms by (simp add: a field_simps)
  have r1: "real r / real b < 1" using rb assms by simp
  have r0: "0 \<le> real r / real b" by simp
  show ?thesis
  proof (cases "2 * r < b \<or> (2 * r = b \<and> even q)")
    case True
    then have "round_half_even a b = q" by (simp add: round_half_even_def Let_def q_def r_def)
    moreover from True have "2 * r \<le> b" by auto
    then have "2 * real r \<le> real b" by (metis of_nat_le_iff of_nat_mult of_nat_numeral)
    then have "real r / real b \<le> 1 / 2" using assms by (simp add: field_simps)
    ultimately show ?thesis using r0 by (simp add: e)
  next
    case False
    then have "round_half_even a b = q + 1" by (simp add: round_half_even_def Let_def q_def r_def)
    moreover from False have "b \<le> 2 * r" by auto
    then have "real b \<le> 2 * real r" by (metis of_nat_le_iff of_nat_mult of_nat_numeral)
    then have "1 / 2 \<le> real r / real b" using assms by (simp add: field_simps)
    ultimately show ?thesis using r1 by (simp add: e)
  qed
qed

lemma pow2_int: "2 powr real_of_int (int n) = (2 :: real) ^ n"
  by (simp add: powr_realpow)

lemma pow2_add: "2 powr real_of_int (j + k) = 2 powr real_of_int j * (2 :: real) powr real_of_int k"
  by (simp add: powr_add)

lemma pow2_neg: "(2 :: real) powr real_of_int (- int n) = 1 / 2 ^ n"
  by (simp add: powr_minus_divide powr_realpow)

lemma nat_le_real_pow1: "b * 2 ^ n \<le> a \<longleftrightarrow> real b * 2 ^ n \<le> real a"
proof -
  have "real (b * 2 ^ n) \<le> real a \<longleftrightarrow> b * 2 ^ n \<le> a" by (rule of_nat_le_iff)
  then show ?thesis by simp
qed

lemma nat_le_real_pow2: "b \<le> a * 2 ^ n \<longleftrightarrow> real b \<le> real a * 2 ^ n"
proof -
  have "real b \<le> real (a * 2 ^ n) \<longleftrightarrow> b \<le> a * 2 ^ n" by (rule of_nat_le_iff)
  then show ?thesis by simp
qed

lemma bit_length_real:
  assumes "0 < a"
  shows "2 powr real_of_int (int (bit_length a) - 1) \<le> real a"
    and "real a < 2 powr real_of_int (int (bit_length a))"
proof -
  from bit_length_bounds[OF assms] bit_length_pos[OF assms]
  have a: "2 ^ (bit_length a - 1) \<le> a" "a < 2 ^ bit_length a" "0 < bit_length a" by simp_all
  have "real (2 ^ (bit_length a - 1)) \<le> real a" using a(1) by (simp only: of_nat_le_iff)
  then have "2 ^ (bit_length a - 1) \<le> real a" by simp
  moreover have "int (bit_length a) - 1 = int (bit_length a - 1)" using a(3) by simp
  ultimately show "2 powr real_of_int (int (bit_length a) - 1) \<le> real a"
    by (simp only: pow2_int)
  have "real a < real (2 ^ bit_length a)" using a(2) by (simp only: of_nat_less_iff)
  then have "real a < 2 ^ bit_length a" by simp
  then show "real a < 2 powr real_of_int (int (bit_length a))" by (simp only: pow2_int)
qed

lemma floor_log2_bounds:
  assumes "0 < a" and "0 < b"
  shows "2 powr real_of_int (floor_log2 a b) \<le> real a / real b"
    and "real a / real b < 2 powr real_of_int (floor_log2 a b + 1)"
proof -
  define A B where "A = int (bit_length a)" and "B = int (bit_length b)"
  define d where "d = A - B"
  let ?P = "\<lambda>k :: int. (2 :: real) powr real_of_int k"
  note ra = bit_length_real[OF assms(1), folded A_def]
  note rb = bit_length_real[OF assms(2), folded B_def]
  have bpos: "0 < real b" using assms(2) by simp
  have Ppos: "0 \<le> ?P k" for k by simp
  have up: "real a / real b < ?P (d + 1)"
  proof -
    have "A = d + 1 + (B - 1)" by (simp add: d_def)
    then have "?P A = ?P (d + 1 + (B - 1))" by (rule arg_cong)
    also have "\<dots> = ?P (d + 1) * ?P (B - 1)" by (rule pow2_add)
    also have "\<dots> \<le> ?P (d + 1) * real b"
      using rb(1) Ppos by (rule mult_left_mono)
    finally have "real a < ?P (d + 1) * real b" using ra(2) by linarith
    then show ?thesis using bpos by (simp only: pos_divide_less_eq)
  qed
  have lo: "?P (d - 1) \<le> real a / real b"
  proof -
    have "?P (d - 1) * real b \<le> ?P (d - 1) * ?P B"
      using rb(2) Ppos by (intro mult_left_mono) linarith+
    also have "\<dots> = ?P (d - 1 + B)" by (rule pow2_add[symmetric])
    also have "d - 1 + B = A - 1" by (simp add: d_def)
    finally have "?P (d - 1) * real b \<le> real a" using ra(1) by linarith
    then show ?thesis using bpos by (simp only: pos_le_divide_eq)
  qed
  have t: "(if 0 \<le> d then b * 2 ^ nat d \<le> a else b \<le> a * 2 ^ nat (- d))
      \<longleftrightarrow> ?P d \<le> real a / real b"
  proof (cases "0 \<le> d")
    case True
    then have "?P d = 2 ^ nat d" using pow2_int[of "nat d"] by simp
    then have "?P d \<le> real a / real b \<longleftrightarrow> 2 ^ nat d * real b \<le> real a"
      using bpos by (simp only: pos_le_divide_eq)
    then show ?thesis using True by (simp add: nat_le_real_pow1 mult.commute)
  next
    case False
    have p: "(0 :: real) < 2 ^ nat (- d)" by simp
    from False have "?P d = 1 / 2 ^ nat (- d)" using pow2_neg[of "nat (- d)"] by simp
    then have "?P d \<le> real a / real b \<longleftrightarrow> 1 / 2 ^ nat (- d) * real b \<le> real a"
      using bpos by (simp only: pos_le_divide_eq)
    also have "\<dots> \<longleftrightarrow> real b / 2 ^ nat (- d) \<le> real a" by simp
    also have "\<dots> \<longleftrightarrow> real b \<le> real a * 2 ^ nat (- d)"
      using p by (simp only: pos_divide_le_eq)
    finally show ?thesis using False by (simp only: nat_le_real_pow2 if_False)
  qed
  have fl: "floor_log2 a b = (if ?P d \<le> real a / real b then d else d - 1)"
    unfolding floor_log2_def Let_def A_def[symmetric] B_def[symmetric] d_def[symmetric] t ..
  show "2 powr real_of_int (floor_log2 a b) \<le> real a / real b"
    using lo unfolding fl by (simp only: split: if_splits) simp
  show "real a / real b < 2 powr real_of_int (floor_log2 a b + 1)"
    using up unfolding fl by (cases "?P d \<le> real a / real b") simp_all
qed

lemma scaled_error:
  fixes c s m :: real
  assumes "0 < s" and "\<bar>c / s - m\<bar> \<le> 1 / 2"
  shows "\<bar>c - m * s\<bar> \<le> s / 2"
proof -
  have "c - m * s = s * (c / s - m)" using assms(1) by (simp add: field_simps)
  then have "\<bar>c - m * s\<bar> = s * \<bar>c / s - m\<bar>" using assms(1) by (simp add: abs_mult)
  also have "\<dots> \<le> s * (1 / 2)" using assms by (intro mult_left_mono) simp_all
  finally show ?thesis by simp
qed

lemma significand_bound:
  fixes c s :: real
  assumes "0 < s" and "c < s * 2 ^ 53" and "\<bar>c / s - real m\<bar> \<le> 1 / 2"
  shows "m \<le> 2 ^ 53"
proof -
  from assms(1,2) have "c / s < 2 ^ 53" by (simp add: pos_divide_less_eq mult.commute)
  with assms(3) have "real m < 2 ^ 53 + 1" by linarith
  then have "real m < real (2 ^ 53 + 1)" by simp
  then have "m < 2 ^ 53 + 1" by (simp only: of_nat_less_iff)
  then show ?thesis by simp
qed

lemma nat_true_divide_nearest:
  assumes "0 < b" and "nat_true_divide a b = Inr x"
  shows "\<exists>m q. x = real m * 2 powr real_of_int q \<and> m \<le> 2 ^ 53 \<and> - 1074 \<le> q
             \<and> x < 2 ^ 1024
             \<and> \<bar>real a / real b - x\<bar> \<le> 2 powr real_of_int q / 2
             \<and> (q = - 1074 \<or> 2 powr real_of_int (q + 52) \<le> real a / real b)"
proof (cases "a = 0")
  case True
  with assms(2) have "x = 0" by (simp add: nat_true_divide_def)
  with True show ?thesis
    by (intro exI[of _ 0] exI[of _ "- 1074"]) simp
next
  case False
  let ?P = "\<lambda>k :: int. (2 :: real) powr real_of_int k"
  define c where "c = real a / real b"
  define e where "e = floor_log2 a b"
  define q where "q = max (e - 52) (- 1074)"
  from False assms(1) floor_log2_bounds[of a b]
  have eb: "?P e \<le> c" "c < ?P (e + 1)" by (simp_all add: c_def e_def)
  have qe: "- 1074 \<le> q" "e + 1 \<le> q + 53" "q = - 1074 \<or> q + 52 = e"
    by (auto simp: q_def)
  have spos: "0 < ?P q" by simp
  have "?P (e + 1) \<le> ?P (q + 53)" using qe(2) by (intro powr_mono) simp_all
  also have "\<dots> = ?P q * ?P 53" by (rule pow2_add)
  also have "?P 53 = 2 ^ 53" using pow2_int[of 53] by simp
  finally have cs: "c < ?P q * 2 ^ 53" using eb(2) by linarith
  have grid: "q = - 1074 \<or> ?P (q + 52) \<le> c" using qe(3) eb(1) by auto
  show ?thesis
  proof (cases "0 \<le> q")
    case True
    define n where "n = nat q"
    define m where "m = round_half_even a (b * 2 ^ n)"
    have Pq: "?P q = 2 ^ n" using True pow2_int[of n] by (simp add: n_def)
    from assms(2) False True
    have x: "x = real (m * 2 ^ n)" and nov: "\<not> 2 ^ 1024 \<le> m * 2 ^ n"
      by (simp_all add: nat_true_divide_def Let_def e_def[symmetric] q_def[symmetric]
          n_def[symmetric] m_def[symmetric] split: if_splits)
    have "0 < b * 2 ^ n" using assms(1) by simp
    from round_half_even_error[OF this, of a]
    have "\<bar>real a / real (b * 2 ^ n) - real m\<bar> \<le> 1 / 2" by (simp only: m_def)
    moreover have "real a / real (b * 2 ^ n) = c / ?P q"
      by (simp add: c_def Pq)
    ultimately have err: "\<bar>c / ?P q - real m\<bar> \<le> 1 / 2" by simp
    have 1: "x = real m * ?P q" by (simp add: x Pq)
    have 2: "m \<le> 2 ^ 53" using spos cs err by (rule significand_bound)
    from nov have "m * 2 ^ n < 2 ^ 1024" by simp
    then have "real (m * 2 ^ n) < real (2 ^ 1024)" by (simp only: of_nat_less_iff)
    then have 3: "x < 2 ^ 1024" by (simp add: x)
    have 4: "\<bar>c - x\<bar> \<le> ?P q / 2" unfolding 1 using spos err by (rule scaled_error)
    from 1 2 3 4 qe(1) grid show ?thesis unfolding c_def by blast
  next
    case False
    define n where "n = nat (- q)"
    define m where "m = round_half_even (a * 2 ^ n) b"
    have Pq: "?P q = 1 / 2 ^ n" using False pow2_neg[of n] by (simp add: n_def)
    from assms(2) \<open>a \<noteq> 0\<close> False
    have x: "x = real m / 2 ^ n"
      by (simp add: nat_true_divide_def Let_def e_def[symmetric] q_def[symmetric]
          n_def[symmetric] m_def[symmetric] split: if_splits)
    from round_half_even_error[OF assms(1), of "a * 2 ^ n"]
    have "\<bar>real (a * 2 ^ n) / real b - real m\<bar> \<le> 1 / 2" by (simp only: m_def)
    moreover have "real (a * 2 ^ n) / real b = c / ?P q"
      by (simp add: c_def Pq)
    ultimately have err: "\<bar>c / ?P q - real m\<bar> \<le> 1 / 2" by simp
    have 1: "x = real m * ?P q" by (simp add: x Pq)
    have 2: "m \<le> 2 ^ 53" using spos cs err by (rule significand_bound)
    have "?P q \<le> ?P 0" using False by (intro powr_mono) simp_all
    then have "?P q \<le> 1" by simp
    moreover have "real m \<le> real (2 ^ 53)" using 2 by (simp only: of_nat_le_iff)
    ultimately have "real m * ?P q \<le> 2 ^ 53 * 1"
      by (intro mult_mono) simp_all
    also have "\<dots> < (2 :: real) ^ 1024" by simp
    finally have 3: "x < 2 ^ 1024" unfolding 1 .
    have 4: "\<bar>c - x\<bar> \<le> ?P q / 2" unfolding 1 using spos err by (rule scaled_error)
    from 1 2 3 4 qe(1) grid show ?thesis unfolding c_def by blast
  qed
qed

lemma round_half_even_tie:
  assumes "2 * (a mod b) = b"
  shows "even (round_half_even a b)"
  using assms by (simp add: round_half_even_def Let_def)

lemma below_midpoint:
  fixes c y s A S :: real
  assumes "\<bar>c - y\<bar> \<le> s / 2" and "A \<le> y" and "s \<le> S"
  shows "A - S / 2 \<le> c"
  using assms by linarith

lemma nat_true_divide_overflow:
  assumes "0 < b" and "nat_true_divide a b = Inl err"
  shows "err = OverflowError \<and> 2 ^ 1024 - 2 ^ 970 \<le> real a / real b"
proof -
  let ?P = "\<lambda>k :: int. (2 :: real) powr real_of_int k"
  define c where "c = real a / real b"
  define e where "e = floor_log2 a b"
  define q where "q = max (e - 52) (- 1074)"
  define n where "n = nat q"
  define m where "m = round_half_even a (b * 2 ^ n)"
  from assms(2) have a: "a \<noteq> 0" and q: "0 \<le> q" and ov: "2 ^ 1024 \<le> m * 2 ^ n"
    and err: "err = OverflowError"
    by (simp_all add: nat_true_divide_def Let_def e_def[symmetric] q_def[symmetric]
        n_def[symmetric] m_def[symmetric] split: if_splits)
  from a assms(1) floor_log2_bounds[of a b]
  have eb: "?P e \<le> c" by (simp add: c_def e_def)
  have "2 ^ 1024 - 2 ^ 970 \<le> c"
  proof (cases "n \<le> 971")
    case True
    have "0 < b * 2 ^ n" using assms(1) by simp
    from round_half_even_error[OF this, of a]
    have "\<bar>real a / real (b * 2 ^ n) - real m\<bar> \<le> 1 / 2" by (simp only: m_def)
    moreover have "real a / real (b * 2 ^ n) = c / 2 ^ n" by (simp add: c_def)
    ultimately have "\<bar>c / 2 ^ n - real m\<bar> \<le> 1 / 2" by simp
    then have "\<bar>c - real m * 2 ^ n\<bar> \<le> 2 ^ n / 2" by (intro scaled_error) simp_all
    moreover have "real (2 ^ 1024) \<le> real (m * 2 ^ n)" using ov by (simp only: of_nat_le_iff)
    then have "2 ^ 1024 \<le> real m * 2 ^ n" by simp
    moreover have "(2 :: real) ^ n \<le> 2 ^ 971" using True by (intro power_increasing) simp_all
    ultimately have "2 ^ 1024 - 2 ^ 971 / 2 \<le> c" by (rule below_midpoint)
    moreover have "(2 :: real) ^ 971 / 2 = 2 ^ 970" by simp
    ultimately show ?thesis by (simp only:)
  next
    case False
    then have "1024 \<le> e" using q by (simp add: n_def q_def)
    then have "?P 1024 \<le> ?P e" by (intro powr_mono) simp_all
    moreover have "?P 1024 = 2 ^ 1024" using pow2_int[of 1024] by simp
    ultimately have "2 ^ 1024 \<le> c" using eb by linarith
    then show ?thesis by simp
  qed
  with err show ?thesis by (simp add: c_def)
qed

lemma length_s_nearest:
  assumes "0 < sample_rate" and "length_s wav sample_rate = Inr l"
  shows "\<exists>m q. l = Finite (real m * 2 powr real_of_int q) \<and> m \<le> 2 ^ 53 \<and> - 1074 \<le> q
           \<and> real m * 2 powr real_of_int q < 2 ^ 1024
           \<and> \<bar>real (Max (set (shape wav))) / real_of_int sample_rate
                - real m * 2 powr real_of_int q\<bar> \<le> 2 powr real_of_int q / 2
           \<and> (q = - 1074
              \<or> 2 powr real_of_int (q + 52)
                   \<le> real (Max (set (shape wav))) / real_of_int sample_rate)"
proof -
  define a where "a = Max (set (shape wav))"
  define b where "b = nat sample_rate"
  have b: "0 < b" "real b = real_of_int sample_rate" using assms(1) by (simp_all add: b_def)
  from assms obtain x where x: "nat_true_divide a b = Inr x" and l: "l = Finite x"
    by (auto simp: length_s_def int_true_divide_def a_def b_def split: if_splits sum.splits)
  from nat_true_divide_nearest[OF b(1) x] l show ?thesis
    unfolding a_def[symmetric] b(2) by blast
qed

subsection \<open>The sum of a key word and a worker index\<close>

lemma mod_2_32_inj:
  fixes a i j :: int
  assumes "(a + i) mod 2 ^ 32 = (a + j) mod 2 ^ 32"
    and "0 \<le> i" "i < 2 ^ 32" "0 \<le> j" "j < 2 ^ 32"
  shows "i = j"
proof -
  from assms(1) have "(2 ^ 32 :: int) dvd (a + i) - (a + j)"
    by (simp add: mod_eq_dvd_iff)
  then have "(2 ^ 32 :: int) dvd i - j" by simp
  moreover have "\<bar>i - j\<bar> < 2 ^ 32" using assms(2-5) by simp
  ultimately have "i - j = 0"
    using dvd_imp_le_int[of "i - j" "2 ^ 32"] by auto
  then show ?thesis by simp
qed

lemma uint32_add_int_small:
  assumes "0 \<le> i" and "i < 2 ^ 32"
  shows "uint32_add_int p k i
      = Inr (case p of Legacy \<Rightarrow> uint k + i | Weak \<Rightarrow> (uint k + i) mod 2 ^ 32)"
proof (cases p)
  case Legacy
  have "uint k < 2 ^ 32" using uint_bounded[of k] by simp
  from this assms(2) have "uint k + i < 2 ^ 32 + 2 ^ 32" by (rule add_strict_mono)
  then have u: "uint k + i < 2 ^ 63" by simp
  have "0 \<le> uint k + i" using assms(1) by simp
  then have "- (2 ^ 63) \<le> uint k + i" by simp
  note r = this u
  have "sint (word_of_int (uint k + i) :: 64 word) = signed_take_bit 63 (uint k + i)"
    by (simp only: sint_sbintrunc') simp
  also have "\<dots> = uint k + i"
    using r by (intro signed_take_bit_int_eq_self)
  finally have "sint (word_of_int (uint k + i) :: 64 word) = uint k + i" .
  with assms Legacy show ?thesis by simp
next
  case Weak
  have "uint (k + word_of_int i) = (uint k + i) mod 2 ^ 32"
    by (simp add: uint_word_ariths uint_word_of_int mod_add_right_eq)
  with assms Weak show ?thesis by simp
qed

section \<open>The properties of the batching pipeline\<close>

text \<open>
  Claim C1, as amended (the NaN filter). The filter tests \<^verbatim>\<open>isnan\<close>, so it removes the
  feature matrices that contain a NaN and keeps one that contains an infinity. Whenever
  \<open>prepare_batch\<close> returns a batch: the raw samples were parsed, the duration filter kept
  \<open>samples1\<close>, their feature matrices \<open>fbs1\<close> were extracted, the samples that reach batch
  assembly are exactly those of \<open>samples1\<close> whose feature matrix contains no NaN, and
  \<open>speech_to_text.src_tokens\<close> is the padded stack of exactly the NaN-free feature matrices,
  converted to the configured precision. Before that conversion the stack contains no NaN
  at all (feature matrices well-formed), the pad value being a finite number.
\<close>

theorem nan_filter_drops_nan_matrices:
  assumes "prepare_batch env self raw = Inr (b, self')"
  shows "\<exists>samples0 samples1 fbs1 batched.
      try_map (from_json env) raw = Inr samples0
    \<and> filter_long_audio env self samples0 = Inr samples1
    \<and> try_map (get_source_fbank env self) samples1 = Inr fbs1
    \<and> surviving_samples env self raw =
         Inr (map fst (filter (\<lambda>(s, t). \<not> isnan_any t) (zip samples1 fbs1)),
              filter (\<lambda>t. \<not> isnan_any t) fbs1)
    \<and> batch_tensors (filter (\<lambda>t. \<not> isnan_any t) fbs1)
         (Finite (real_of_int (fbank_feats_pad_idx (batching_config self)))) = Inr batched
    \<and> src_tokens (speech_to_text b)
         = Some (to_dtype env (float_dtype (batching_config self)) batched)
    \<and> (list_all wf_tensor fbs1 \<longrightarrow> \<not> isnan_any batched)"
proof -
  from prepare_batch_InrD[OF assms] obtain samples fbs where
    sv: "surviving_samples env self raw = Inr (samples, fbs)" by blast
  from surviving_samples_InrD[OF sv] obtain samples0 samples1 fbs1 where
    a: "try_map (from_json env) raw = Inr samples0"
       "filter_long_audio env self samples0 = Inr samples1"
       "try_map (get_source_fbank env self) samples1 = Inr fbs1"
       "samples = map fst (filter (\<lambda>(s, t). \<not> isnan_any t) (zip samples1 fbs1))"
       "fbs = filter (\<lambda>t. \<not> isnan_any t) fbs1"
    by blast
  from prepare_batch_views[OF assms sv] obtain batched where
    bt: "batch_tensors fbs (Finite (real_of_int (fbank_feats_pad_idx (batching_config self)))) = Inr batched"
    and st: "src_tokens (speech_to_text b)
         = Some (to_dtype env (float_dtype (batching_config self)) batched)"
    by auto
  have nn: "\<not> isnan_any batched" if "list_all wf_tensor fbs1"
  proof -
    from that have "\<forall>t\<in>set fbs. wf_tensor t" by (auto simp: a(5) list_all_iff)
    with batch_tensors_InrD[OF bt] obtain s where
      d: "data batched = concat (map (\<lambda>t. data t @ replicate
             ((Max (set (map (hd \<circ> shape) fbs)) - hd (shape t)) * prod_list s)
             (Finite (real_of_int (fbank_feats_pad_idx (batching_config self))))) fbs)"
      by auto
    have "\<forall>t\<in>set fbs. \<not> list_ex isnan (data t)"
      by (auto simp: a(5) isnan_any_def)
    then show ?thesis
      unfolding isnan_any_def d by (auto simp: list_ex_iff)
  qed
  from a sv bt st nn show ?thesis by blast
qed

text \<open>
  On the samples \<open>A\<close>, \<open>B\<close>, \<open>C\<close>: \<open>B\<close> is too long, the features of \<open>C\<close> are all NaN, and the
  batch is built from \<open>A\<close> alone.
\<close>

theorem nan_filter_drops_nan_matrices_witness:
  "prepare_batch ex_env ex_loader [ex_A, ex_B, ex_C] = Inr (ex_batch_A, ex_loader_units)
   \<and> get_source_fbank ex_env ex_loader ex_C = Inr (Tensor [298, 80] (replicate 23840 NaN))
   \<and> isnan_any (Tensor [298, 80] (replicate 23840 NaN))
   \<and> (\<exists>samples0 samples1 fbs1 batched.
        try_map (from_json ex_env) [ex_A, ex_B, ex_C] = Inr samples0
      \<and> filter_long_audio ex_env ex_loader samples0 = Inr samples1
      \<and> try_map (get_source_fbank ex_env ex_loader) samples1 = Inr fbs1
      \<and> surviving_samples ex_env ex_loader [ex_A, ex_B, ex_C] =
           Inr (map fst (filter (\<lambda>(s, t). \<not> isnan_any t) (zip samples1 fbs1)),
                filter (\<lambda>t. \<not> isnan_any t) fbs1)
      \<and> batch_tensors (filter (\<lambda>t. \<not> isnan_any t) fbs1)
           (Finite (real_of_int (fbank_feats_pad_idx (batching_config ex_loader)))) = Inr batched
      \<and> src_tokens (speech_to_text ex_batch_A)
           = Some (to_dtype ex_env (float_dtype (batching_config ex_loader)) batched)
      \<and> (list_all wf_tensor fbs1 \<longrightarrow> \<not> isnan_any batched))"
proof -
  have "get_source_fbank ex_env ex_loader ex_C = Inr (Tensor [298, 80] (replicate 23840 NaN))"
    and "isnan_any (Tensor [298, 80] (replicate 23840 NaN))"
    by (simp_all add: ex_defs model_defs)
  with nan_filter_drops_nan_matrices[OF ex_prepare_ABC] ex_prepare_ABC show ?thesis
    by blast
qed

text \<open>
  The claim as stated speaks of non-finite values. It fails on the sample \<open>E\<close>, whose feature
  matrix contains a positive infinity and no NaN: the sample is kept and the infinity is in
  the source tokens of the batch.
\<close>

theorem infinite_feature_survives_counterexample:
  "get_source_fbank ex_env ex_loader ex_E
      = Inr (Tensor [98, 80] (PosInf # replicate 7839 (Finite 0)))
   \<and> \<not> isfinite PosInf
   \<and> prepare_batch ex_env ex_loader [ex_E] = Inr (ex_batch_E, ex_loader_text)
   \<and> src_tokens (speech_to_text ex_batch_E)
      = Some (Tensor [1, 98, 80] (PosInf # replicate 7839 (Finite 0)))"
  by (simp add: ex_defs model_defs ex_batch_E_def)

text \<open>
  Claim C2, as amended (the duration filter). The duration that the filter compares with
  \<^verbatim>\<open>max_audio_length_sec\<close> is \<^verbatim>\<open>length_s\<close> as the code computes it: the largest
  dimension of the loaded waveform divided by the sample rate, rounded to a double. For a
  non-empty list of samples whose audio files load and whose \<^verbatim>\<open>length_s\<close> is computed
  without an exception, the filter returns: it drops exactly the samples whose
  \<^verbatim>\<open>length_s\<close> strictly exceeds \<^verbatim>\<open>max_audio_length_sec\<close> and keeps all others, in
  order; and when every sample exceeds the bound it keeps exactly the first sample of the
  list. For a positive sample rate, \<^verbatim>\<open>length_s\<close> is a double \<open>m * 2^q\<close> at most half a
  spacing \<open>2^q\<close> of the doubles away from the exact quotient.
\<close>

theorem duration_filter_keeps_within_bound:
  assumes "samples \<noteq> []"
    and "\<forall>s\<in>set samples.
          torchaudio_load env (audio_local_path (source s)) = Inr (wav s, sample_rate s)
          \<and> length_s (wav s) (sample_rate s) = Inr (len s)"
  shows "filter_long_audio env self samples =
     Inr (if \<forall>s\<in>set samples. float_gt (len s) (max_audio_length_sec (batching_config self))
          then [hd samples]
          else filter (\<lambda>s. \<not> float_gt (len s) (max_audio_length_sec (batching_config self)))
                 samples)
   \<and> (\<forall>s\<in>set samples. 0 < sample_rate s \<longrightarrow>
        (\<exists>m q. len s = Finite (real m * 2 powr real_of_int q) \<and> m \<le> 2 ^ 53 \<and> - 1074 \<le> q
           \<and> real m * 2 powr real_of_int q < 2 ^ 1024
           \<and> \<bar>real (Max (set (shape (wav s)))) / real_of_int (sample_rate s)
                - real m * 2 powr real_of_int q\<bar> \<le> 2 powr real_of_int q / 2
           \<and> (q = - 1074
              \<or> 2 powr real_of_int (q + 52)
                   \<le> real (Max (set (shape (wav s)))) / real_of_int (sample_rate s))))"
proof (intro conjI ballI impI)
  show "filter_long_audio env self samples =
     Inr (if \<forall>s\<in>set samples. float_gt (len s) (max_audio_length_sec (batching_config self))
          then [hd samples]
          else filter (\<lambda>s. \<not> float_gt (len s) (max_audio_length_sec (batching_config self)))
                 samples)"
    using assms(2) by (intro filter_long_audio_total[OF assms(1)]) blast
next
  fix s assume "s \<in> set samples" and r: "0 < sample_rate s"
  with assms(2) have "length_s (wav s) (sample_rate s) = Inr (len s)" by blast
  with r show "\<exists>m q. len s = Finite (real m * 2 powr real_of_int q) \<and> m \<le> 2 ^ 53 \<and> - 1074 \<le> q
           \<and> real m * 2 powr real_of_int q < 2 ^ 1024
           \<and> \<bar>real (Max (set (shape (wav s)))) / real_of_int (sample_rate s)
                - real m * 2 powr real_of_int q\<bar> \<le> 2 powr real_of_int q / 2
           \<and> (q = - 1074
              \<or> 2 powr real_of_int (q + 52)
                   \<le> real (Max (set (shape (wav s)))) / real_of_int (sample_rate s))"
    by (rule length_s_nearest)
qed

text \<open>
  With the default bound of 15 seconds, of the samples \<open>A\<close> (5 s), \<open>B\<close> (20 s) and \<open>C\<close> (3 s)
  the filter keeps \<open>A\<close> and \<open>C\<close>, and of \<open>B\<close> twice it keeps the first. With the bound
  \<^verbatim>\<open>0.3\<close> a file of 4800 frames is kept, since \<^verbatim>\<open>4800 / 16000\<close> is the same double as
  \<^verbatim>\<open>0.3\<close>, and a file of 4801 frames is dropped.
\<close>

theorem duration_filter_keeps_within_bound_witness:
  "[ex_A, ex_B, ex_C] \<noteq> []
   \<and> length_s (ex_wav ex_A) (ex_rate ex_A) = Inr (Finite 5)
   \<and> length_s (ex_wav ex_B) (ex_rate ex_B) = Inr (Finite 20)
   \<and> length_s (ex_wav ex_C) (ex_rate ex_C) = Inr (Finite 3)
   \<and> max_audio_length_sec (batching_config ex_loader) = Finite 15
   \<and> filter_long_audio ex_env ex_loader [ex_A, ex_B, ex_C] = Inr [ex_A, ex_C]
   \<and> filter_long_audio ex_env ex_loader [ex_B, ex_B] = Inr [ex_B]
   \<and> length_s (ex_wav ex_J) (ex_rate ex_J) = Inr (Finite double_0_3)
   \<and> length_s (ex_wav ex_K) (ex_rate ex_K) = Inr (Finite (2702722726375719 / 2 ^ 53))
   \<and> filter_long_audio ex_env (ex_loader_bound (Finite double_0_3)) [ex_K, ex_J] = Inr [ex_J]
   \<and> (\<exists>m q. double_0_3 = real m * 2 powr real_of_int q \<and> m \<le> 2 ^ 53
         \<and> \<bar>4800 / 16000 - double_0_3\<bar> \<le> 2 powr real_of_int q / 2
         \<and> 2 powr real_of_int (q + 52) \<le> 4800 / 16000)"
proof -
  define len where "len = (\<lambda>s. projr (length_s (ex_wav s) (ex_rate s)))"
  have l: "length_s (ex_wav ex_A) (ex_rate ex_A) = Inr (Finite 5)"
    "length_s (ex_wav ex_B) (ex_rate ex_B) = Inr (Finite 20)"
    "length_s (ex_wav ex_C) (ex_rate ex_C) = Inr (Finite 3)"
    "length_s (ex_wav ex_J) (ex_rate ex_J) = Inr (Finite double_0_3)"
    "length_s (ex_wav ex_K) (ex_rate ex_K) = Inr (Finite (2702722726375719 / 2 ^ 53))"
    by (simp_all add: ex_defs ex_J_def ex_K_def ex_wav_def ex_rate_def ex_lengths
        double_0_3_def)
  have b: "max_audio_length_sec (batching_config ex_loader) = Finite 15"
    "max_audio_length_sec (batching_config (ex_loader_bound x)) = x" for x
    by (simp_all add: ex_defs ex_loader_bound_def)
  have ld: "torchaudio_load ex_env (audio_local_path (source s)) = Inr (ex_wav s, ex_rate s)"
    if "s \<in> {ex_A, ex_B, ex_C, ex_J, ex_K}" for s
    using that by (auto simp: ex_defs ex_J_def ex_K_def ex_wav_def ex_rate_def)
  have h1: "\<forall>s\<in>set [ex_A, ex_B, ex_C].
      torchaudio_load ex_env (audio_local_path (source s)) = Inr (ex_wav s, ex_rate s)
      \<and> length_s (ex_wav s) (ex_rate s) = Inr (len s)"
    using ld l by (auto simp: len_def)
  have h2: "\<forall>s\<in>set [ex_B, ex_B].
      torchaudio_load ex_env (audio_local_path (source s)) = Inr (ex_wav s, ex_rate s)
      \<and> length_s (ex_wav s) (ex_rate s) = Inr (len s)"
    using ld l by (auto simp: len_def)
  have h3: "\<forall>s\<in>set [ex_K, ex_J].
      torchaudio_load ex_env (audio_local_path (source s)) = Inr (ex_wav s, ex_rate s)
      \<and> length_s (ex_wav s) (ex_rate s) = Inr (len s)"
    using ld l by (auto simp: len_def)
  note t1 = duration_filter_keeps_within_bound[of "[ex_A, ex_B, ex_C]" ex_env ex_wav ex_rate len
      ex_loader, OF _ h1]
  note t2 = duration_filter_keeps_within_bound[of "[ex_B, ex_B]" ex_env ex_wav ex_rate len
      ex_loader, OF _ h2]
  note t3 = duration_filter_keeps_within_bound[of "[ex_K, ex_J]" ex_env ex_wav ex_rate len
      "ex_loader_bound (Finite double_0_3)", OF _ h3]
  have "filter_long_audio ex_env ex_loader [ex_A, ex_B, ex_C] = Inr [ex_A, ex_C]"
    using t1 by (simp add: l b len_def)
  moreover have "filter_long_audio ex_env ex_loader [ex_B, ex_B] = Inr [ex_B]"
    using t2 by (simp add: l b len_def)
  moreover have "filter_long_audio ex_env (ex_loader_bound (Finite double_0_3)) [ex_K, ex_J]
      = Inr [ex_J]"
    using t3 by (simp add: l b len_def double_0_3_def)
  moreover have "\<exists>m q. double_0_3 = real m * 2 powr real_of_int q \<and> m \<le> 2 ^ 53
         \<and> \<bar>4800 / 16000 - double_0_3\<bar> \<le> 2 powr real_of_int q / 2
         \<and> 2 powr real_of_int (q + 52) \<le> 4800 / 16000"
  proof -
    have "len ex_J = Finite double_0_3" by (simp add: len_def l)
    moreover have "Max (set (shape (ex_wav ex_J))) = 4800" "ex_rate ex_J = 16000"
      by (simp_all add: ex_defs ex_J_def ex_wav_def ex_rate_def)
    ultimately have w: "Max (set (shape (ex_wav ex_J))) = 4800" "ex_rate ex_J = 16000"
      "len ex_J = Finite double_0_3"
      by simp_all
    have "ex_J \<in> set [ex_K, ex_J]" and "0 < ex_rate ex_J" by (simp_all add: w(2))
    from t3[OF list.distinct(2), THEN conjunct2, rule_format, OF this] obtain m q where raw:
      "len ex_J = Finite (real m * 2 powr real_of_int q)" "m \<le> 2 ^ 53"
      "\<bar>real (Max (set (shape (ex_wav ex_J)))) / real_of_int (ex_rate ex_J)
          - real m * 2 powr real_of_int q\<bar> \<le> 2 powr real_of_int q / 2"
      "q = - 1074
       \<or> 2 powr real_of_int (q + 52)
            \<le> real (Max (set (shape (ex_wav ex_J)))) / real_of_int (ex_rate ex_J)"
      by blast
    from raw(1) have mq1: "double_0_3 = real m * 2 powr real_of_int q"
      unfolding w by (simp only: float.inject)
    note mq = mq1 raw(2) raw(3,4)[unfolded w of_nat_numeral of_int_numeral]
    have "q \<noteq> - 1074"
    proof
      assume q: "q = - 1074"
      have "real m \<le> real (2 ^ 53)" using mq(2) by (simp only: of_nat_le_iff)
      then have "real m \<le> 2 ^ 53" by simp
      then have "real m * 2 powr real_of_int q \<le> 2 ^ 53 * 2 powr real_of_int q"
        by (rule mult_right_mono) simp
      also have "\<dots> = 2 powr real_of_int (53 + q)"
        using pow2_add[of 53 q] pow2_int[of 53] by simp
      also have "\<dots> \<le> 2 powr real_of_int (- 2)"
        unfolding q by (intro powr_mono) simp_all
      also have "\<dots> = 1 / 4" using pow2_neg[of 2] by simp
      finally have "double_0_3 \<le> 1 / 4" unfolding mq(1) .
      then show False by (simp add: double_0_3_def)
    qed
    with mq show ?thesis by (intro exI[of _ m] exI[of _ q]) simp
  qed
  ultimately show ?thesis using l b by simp
qed

text \<open>
  The claim as stated measures the duration as the number of samples divided by the sample
  rate. It fails on a stereo file of a single frame: its duration, \<open>1 / 16000\<close> of a second,
  does not exceed the bound \<^verbatim>\<open>0.0001\<close>, but the largest dimension of its waveform is
  the number of channels, \<^verbatim>\<open>length_s\<close> is \<^verbatim>\<open>2 / 16000\<close>, and the filter drops the
  sample, while it keeps the mono file of the same duration.
\<close>

theorem stereo_frame_dropped_within_bound_counterexample:
  "torchaudio_load ex_env (audio_local_path (source ex_H))
       = Inr (Tensor [2, 1] (replicate 2 (Finite 0)), 16000)
   \<and> duration_sec (Tensor [2, 1] (replicate 2 (Finite 0))) 16000 = 1 / 16000
   \<and> max_audio_length_sec (batching_config (ex_loader_bound (Finite double_0_0001)))
       = Finite double_0_0001
   \<and> \<not> double_0_0001 < 1 / 16000
   \<and> filter_long_audio ex_env (ex_loader_bound (Finite double_0_0001)) [ex_I, ex_H]
       = Inr [ex_I]"
  by (simp add: ex_defs ex_H_def ex_I_def ex_loader_bound_def double_0_0001_def
      duration_sec_def filter_long_audio_def is_long_src_audio_def ex_lengths ebind_def)

text \<open>
  Claim C3 (units are absent jointly). Whenever \<open>prepare_batch\<close> returns a batch from the
  surviving samples \<open>samples\<close>: if some surviving sample has no unit sequence, then
  \<open>target_tokens\<close>, \<open>prev_output_tokens\<close> and \<open>target_lengths\<close> of the text-to-units sub-batch
  are all \<open>None\<close>; if every surviving sample has a unit sequence, all three are present.
\<close>

theorem units_absent_jointly:
  assumes "prepare_batch env self raw = Inr (b, self')"
    and "surviving_samples env self raw = Inr (samples, fbs)"
  shows "if \<exists>s\<in>set samples. units (target s) = None
         then target_tokens (text_to_units b) = None
            \<and> prev_output_tokens (text_to_units b) = None
            \<and> target_lengths (text_to_units b) = None
         else target_tokens (text_to_units b) \<noteq> None
            \<and> prev_output_tokens (text_to_units b) \<noteq> None
            \<and> target_lengths (text_to_units b) \<noteq> None"
  using prepare_batch_views[OF assms] by (auto split: if_splits)

theorem units_absent_jointly_witness:
  "prepare_batch ex_env ex_loader [ex_A, ex_Dn] = Inr (ex_batch_ADn, ex_loader_units)
   \<and> surviving_samples ex_env ex_loader [ex_A, ex_Dn]
      = Inr ([ex_A, ex_Dn],
            [Tensor [498, 80] (replicate 39840 (Finite 0)),
             Tensor [198, 80] (replicate 15840 (Finite 1))])
   \<and> units (target ex_Dn) = None
   \<and> target_tokens (text_to_units ex_batch_ADn) = None
   \<and> prev_output_tokens (text_to_units ex_batch_ADn) = None
   \<and> target_lengths (text_to_units ex_batch_ADn) = None
   \<and> prepare_batch ex_env ex_loader [ex_A, ex_D] = Inr (ex_batch_AD, ex_loader_units)
   \<and> surviving_samples ex_env ex_loader [ex_A, ex_D]
      = Inr ([ex_A, ex_D],
            [Tensor [498, 80] (replicate 39840 (Finite 0)),
             Tensor [198, 80] (replicate 15840 (Finite 1))])
   \<and> units (target ex_A) \<noteq> None \<and> units (target ex_D) \<noteq> None
   \<and> target_tokens (text_to_units ex_batch_AD) \<noteq> None
   \<and> prev_output_tokens (text_to_units ex_batch_AD) \<noteq> None
   \<and> target_lengths (text_to_units ex_batch_AD) \<noteq> None"
proof -
  have u: "units (target ex_Dn) = None" "units (target ex_A) \<noteq> None" "units (target ex_D) \<noteq> None"
    by (simp_all add: ex_A_def ex_D_def ex_Dn_def ex_sample_def)
  from units_absent_jointly[OF ex_prepare_ADn ex_surviving_ADn] u
  have 1: "target_tokens (text_to_units ex_batch_ADn) = None
      \<and> prev_output_tokens (text_to_units ex_batch_ADn) = None
      \<and> target_lengths (text_to_units ex_batch_ADn) = None"
    by simp
  from units_absent_jointly[OF ex_prepare_AD ex_surviving_AD] u
  have 2: "target_tokens (text_to_units ex_batch_AD) \<noteq> None
      \<and> prev_output_tokens (text_to_units ex_batch_AD) \<noteq> None
      \<and> target_lengths (text_to_units ex_batch_AD) \<noteq> None"
    by simp
  from 1 2 u ex_prepare_ADn ex_surviving_ADn ex_prepare_AD ex_surviving_AD
  show ?thesis by blast
qed

text \<open>
  Claim C4 (the shift invariant). Let \<open>toks\<close> be the tokenized target texts and \<open>utoks\<close> the
  tokenized unit sequences of the surviving samples, all well-formed. Whenever
  \<open>prepare_batch\<close> returns a batch, for every sequence \<open>S\<close> of length \<open>n\<close> at index \<open>i\<close>: \<open>S\<close> is
  not empty, row \<open>i\<close> of \<open>prev_output_tokens\<close> is \<open>S\<close> without its last element and row \<open>i\<close> of
  \<open>target_tokens\<close> is \<open>S\<close> without its first element, both followed by the same number of
  pad values; so \<open>prev[j] = S[j]\<close> and \<open>target[j] = S[j + 1]\<close> for \<open>j < n - 1\<close>; and the recorded
  length is \<open>n - 1\<close>. This holds for the text views, and for the unit views when they are
  present.
\<close>

theorem shift_invariant:
  assumes "prepare_batch env self raw = Inr (b, self')"
    and "surviving_samples env self raw = Inr (samples, fbs)"
    and "try_fold_map get_tokenized_target_text self samples = Inr (toks, self1)"
    and "try_fold_map get_tokenized_units self1 samples = Inr (utoks, self2)"
    and "list_all wf_tensor toks"
    and "list_all (\<lambda>u. case u of None \<Rightarrow> True | Some t \<Rightarrow> wf_tensor t) utoks"
  shows "(\<exists>prev tgt lens.
        prev_output_tokens (speech_to_text b) = Some prev
      \<and> target_tokens (speech_to_text b) = Some tgt
      \<and> target_lengths (speech_to_text b) = Some lens
      \<and> (\<forall>i<length toks.
            data (toks ! i) \<noteq> []
          \<and> data lens ! i = int (length (data (toks ! i))) - 1
          \<and> (\<exists>k. data (row i prev) = butlast (data (toks ! i))
                      @ replicate k (pad_idx (text_vocab_info (text_tokenizer self)))
                 \<and> data (row i tgt) = tl (data (toks ! i))
                      @ replicate k (pad_idx (text_vocab_info (text_tokenizer self))))
          \<and> (\<forall>j<length (data (toks ! i)) - 1.
                 data (row i prev) ! j = data (toks ! i) ! j
               \<and> data (row i tgt) ! j = data (toks ! i) ! Suc j)))
    \<and> (\<forall>prev tgt lens.
        prev_output_tokens (text_to_units b) = Some prev
      \<and> target_tokens (text_to_units b) = Some tgt
      \<and> target_lengths (text_to_units b) = Some lens
      \<longrightarrow> (\<forall>i<length utoks. \<exists>S.
            utoks ! i = Some S
          \<and> data S \<noteq> []
          \<and> data lens ! i = int (length (data S)) - 1
          \<and> (\<exists>k. data (row i prev) = butlast (data S)
                      @ replicate k (pad_idx (unit_vocab_info (unit_tokenizer self)))
                 \<and> data (row i tgt) = tl (data S)
                      @ replicate k (pad_idx (unit_vocab_info (unit_tokenizer self))))
          \<and> (\<forall>j<length (data S) - 1.
                 data (row i prev) ! j = data S ! j
               \<and> data (row i tgt) ! j = data S ! Suc j)))"
proof -
  from prepare_batch_views[OF assms(1,2)] assms(3,4)
  obtain prev tgt tlens where
    l: "\<forall>t\<in>set toks. \<exists>n. shape t = [Suc n]"
    and sv: "shifted_views toks (pad_idx (text_vocab_info (text_tokenizer self))) = Inr (prev, tgt, tlens)"
    and b: "prev_output_tokens (speech_to_text b) = Some prev"
      "target_tokens (speech_to_text b) = Some tgt" "target_lengths (speech_to_text b) = Some tlens"
    and c: "if \<exists>s\<in>set samples. units (target s) = None
          then prev_output_tokens (text_to_units b) = None
             \<and> target_tokens (text_to_units b) = None
             \<and> target_lengths (text_to_units b) = None
          else \<exists>pu tu lu.
             shifted_views (map the utoks) (pad_idx (unit_vocab_info (unit_tokenizer self)))
               = Inr (pu, tu, lu)
             \<and> None \<notin> set utoks
             \<and> (\<forall>t\<in>set (map the utoks). \<exists>n. shape t = [Suc n])
             \<and> prev_output_tokens (text_to_units b) = Some pu
             \<and> target_tokens (text_to_units b) = Some tu
             \<and> target_lengths (text_to_units b) = Some lu"
    by auto
  have wt: "\<forall>t\<in>set toks. wf_tensor t" using assms(5) by (simp add: list_all_iff)
  have txt_part: "\<exists>prev tgt lens.
        prev_output_tokens (speech_to_text b) = Some prev
      \<and> target_tokens (speech_to_text b) = Some tgt
      \<and> target_lengths (speech_to_text b) = Some lens
      \<and> (\<forall>i<length toks.
            data (toks ! i) \<noteq> []
          \<and> data lens ! i = int (length (data (toks ! i))) - 1
          \<and> (\<exists>k. data (row i prev) = butlast (data (toks ! i))
                      @ replicate k (pad_idx (text_vocab_info (text_tokenizer self)))
                 \<and> data (row i tgt) = tl (data (toks ! i))
                      @ replicate k (pad_idx (text_vocab_info (text_tokenizer self))))
          \<and> (\<forall>j<length (data (toks ! i)) - 1.
                 data (row i prev) ! j = data (toks ! i) ! j
               \<and> data (row i tgt) ! j = data (toks ! i) ! Suc j))"
    using b shifted_views_rows[OF sv l wt] by blast
  have unit_part: "\<exists>S. utoks ! i = Some S
          \<and> data S \<noteq> []
          \<and> data lens ! i = int (length (data S)) - 1
          \<and> (\<exists>k. data (row i prev) = butlast (data S)
                      @ replicate k (pad_idx (unit_vocab_info (unit_tokenizer self)))
                 \<and> data (row i tgt) = tl (data S)
                      @ replicate k (pad_idx (unit_vocab_info (unit_tokenizer self))))
          \<and> (\<forall>j<length (data S) - 1.
                 data (row i prev) ! j = data S ! j
               \<and> data (row i tgt) ! j = data S ! Suc j)"
    if e: "prev_output_tokens (text_to_units b) = Some prev"
      "target_tokens (text_to_units b) = Some tgt"
      "target_lengths (text_to_units b) = Some lens"
      and i: "i < length utoks"
    for prev tgt lens i
  proof -
    from c e have
      v: "shifted_views (map the utoks) (pad_idx (unit_vocab_info (unit_tokenizer self)))
               = Inr (prev, tgt, lens)"
      and nn: "None \<notin> set utoks"
      and sh: "\<forall>t\<in>set (map the utoks). \<exists>n. shape t = [Suc n]"
      by (auto split: if_splits)
    have wu: "\<forall>t\<in>set (map the utoks). wf_tensor t"
    proof
      fix t assume "t \<in> set (map the utoks)"
      then obtain u where u: "u \<in> set utoks" "t = the u" by auto
      with nn obtain t' where "u = Some t'" by (cases u) auto
      with u assms(6) show "wf_tensor t" by (auto simp: list_all_iff)
    qed
    from nn i obtain S where S: "utoks ! i = Some S"
      by (cases "utoks ! i") (auto simp: in_set_conv_nth)
    from shifted_views_rows[OF v sh wu, of i] i S show ?thesis by simp
  qed
  from txt_part unit_part show ?thesis by blast
qed

theorem shift_invariant_witness:
  "prepare_batch ex_env ex_loader [ex_A, ex_D] = Inr (ex_batch_AD, ex_loader_units)
   \<and> surviving_samples ex_env ex_loader [ex_A, ex_D]
      = Inr ([ex_A, ex_D],
            [Tensor [498, 80] (replicate 39840 (Finite 0)),
             Tensor [198, 80] (replicate 15840 (Finite 1))])
   \<and> try_fold_map get_tokenized_target_text ex_loader [ex_A, ex_D]
      = Inr ([Tensor [5] [3, 256, 1104, 1105, 3],
              Tensor [8] [3, 256, 1104, 1101, 1108, 1108, 1111, 3]], ex_loader_text)
   \<and> try_fold_map get_tokenized_units ex_loader_text [ex_A, ex_D]
      = Inr ([Some (Tensor [7] [2, 5, 11, 12, 13, 14, 2]), Some (Tensor [5] [2, 5, 5, 6, 2])],
             ex_loader_units)
   \<and> (\<exists>k. data (row 0 (Tensor [2, 7]
              [3, 256, 1104, 1105, 0, 0, 0, 3, 256, 1104, 1101, 1108, 1108, 1111 :: int]))
            = butlast [3, 256, 1104, 1105, 3] @ replicate k 0
          \<and> data (row 0 (Tensor [2, 7]
              [256, 1104, 1105, 3, 0, 0, 0, 256, 1104, 1101, 1108, 1108, 1111, 3 :: int]))
            = tl [3, 256, 1104, 1105, 3] @ replicate k 0)
   \<and> (\<exists>k. data (row 1 (Tensor [2, 6] [2, 5, 11, 12, 13, 14, 2, 5, 5, 6, 1, 1 :: int]))
            = butlast [2, 5, 5, 6, 2] @ replicate k 1
          \<and> data (row 1 (Tensor [2, 6] [5, 11, 12, 13, 14, 2, 5, 5, 6, 2, 1, 1 :: int]))
            = tl [2, 5, 5, 6, 2] @ replicate k 1)
   \<and> data (Tensor [2] [4, 7 :: int]) ! 0 = int (length [3, 256, 1104, 1105, 3 :: int]) - 1
   \<and> data (Tensor [2] [6, 4 :: int]) ! 1 = int (length [2, 5, 5, 6, 2 :: int]) - 1"
proof -
  note t = shift_invariant[OF ex_prepare_AD ex_surviving_AD ex_text_AD ex_units_AD ex_wf_AD]
  have sp: "prev_output_tokens (speech_to_text ex_batch_AD) = Some (Tensor [2, 7]
              [3, 256, 1104, 1105, 0, 0, 0, 3, 256, 1104, 1101, 1108, 1108, 1111])"
    "target_tokens (speech_to_text ex_batch_AD) = Some (Tensor [2, 7]
              [256, 1104, 1105, 3, 0, 0, 0, 256, 1104, 1101, 1108, 1108, 1111, 3])"
    "target_lengths (speech_to_text ex_batch_AD) = Some (Tensor [2] [4, 7])"
    and un: "prev_output_tokens (text_to_units ex_batch_AD)
       = Some (Tensor [2, 6] [2, 5, 11, 12, 13, 14, 2, 5, 5, 6, 1, 1])"
    "target_tokens (text_to_units ex_batch_AD)
       = Some (Tensor [2, 6] [5, 11, 12, 13, 14, 2, 5, 5, 6, 2, 1, 1])"
    "target_lengths (text_to_units ex_batch_AD) = Some (Tensor [2] [6, 4])"
    and pads: "pad_idx (text_vocab_info (text_tokenizer ex_loader)) = 0"
      "pad_idx (unit_vocab_info (unit_tokenizer ex_loader)) = 1"
    by (simp_all add: ex_defs)
  from t obtain prev tgt lens where
    e: "prev_output_tokens (speech_to_text ex_batch_AD) = Some prev"
      "target_tokens (speech_to_text ex_batch_AD) = Some tgt"
      "target_lengths (speech_to_text ex_batch_AD) = Some lens"
    and r: "\<forall>i<length [Tensor [5] [3, 256, 1104, 1105, 3 :: int],
              Tensor [8] [3, 256, 1104, 1101, 1108, 1108, 1111, 3]].
            data ([Tensor [5] [3, 256, 1104, 1105, 3 :: int],
              Tensor [8] [3, 256, 1104, 1101, 1108, 1108, 1111, 3]] ! i) \<noteq> []
          \<and> data lens ! i = int (length (data ([Tensor [5] [3, 256, 1104, 1105, 3 :: int],
              Tensor [8] [3, 256, 1104, 1101, 1108, 1108, 1111, 3]] ! i))) - 1
          \<and> (\<exists>k. data (row i prev) = butlast (data ([Tensor [5] [3, 256, 1104, 1105, 3 :: int],
              Tensor [8] [3, 256, 1104, 1101, 1108, 1108, 1111, 3]] ! i))
                      @ replicate k (pad_idx (text_vocab_info (text_tokenizer ex_loader)))
                 \<and> data (row i tgt) = tl (data ([Tensor [5] [3, 256, 1104, 1105, 3 :: int],
              Tensor [8] [3, 256, 1104, 1101, 1108, 1108, 1111, 3]] ! i))
                      @ replicate k (pad_idx (text_vocab_info (text_tokenizer ex_loader))))
          \<and> (\<forall>j<length (data ([Tensor [5] [3, 256, 1104, 1105, 3 :: int],
              Tensor [8] [3, 256, 1104, 1101, 1108, 1108, 1111, 3]] ! i)) - 1.
                 data (row i prev) ! j = data ([Tensor [5] [3, 256, 1104, 1105, 3 :: int],
              Tensor [8] [3, 256, 1104, 1101, 1108, 1108, 1111, 3]] ! i) ! j
               \<and> data (row i tgt) ! j = data ([Tensor [5] [3, 256, 1104, 1105, 3 :: int],
              Tensor [8] [3, 256, 1104, 1101, 1108, 1108, 1111, 3]] ! i) ! Suc j)"
    by blast
  from e sp have pv: "prev = Tensor [2, 7]
              [3, 256, 1104, 1105, 0, 0, 0, 3, 256, 1104, 1101, 1108, 1108, 1111]"
    "tgt = Tensor [2, 7] [256, 1104, 1105, 3, 0, 0, 0, 256, 1104, 1101, 1108, 1108, 1111, 3]"
    "lens = Tensor [2] [4, 7]"
    by simp_all
  from r[rule_format, of 0] have a:
    "\<exists>k. data (row 0 (Tensor [2, 7]
              [3, 256, 1104, 1105, 0, 0, 0, 3, 256, 1104, 1101, 1108, 1108, 1111 :: int]))
            = butlast [3, 256, 1104, 1105, 3] @ replicate k 0
          \<and> data (row 0 (Tensor [2, 7]
              [256, 1104, 1105, 3, 0, 0, 0, 256, 1104, 1101, 1108, 1108, 1111, 3 :: int]))
            = tl [3, 256, 1104, 1105, 3] @ replicate k 0"
    "data (Tensor [2] [4, 7 :: int]) ! 0 = int (length [3, 256, 1104, 1105, 3 :: int]) - 1"
    unfolding pv pads by simp_all
  from t have "\<forall>i<length [Some (Tensor [7] [2, 5, 11, 12, 13, 14, 2 :: int]),
            Some (Tensor [5] [2, 5, 5, 6, 2])]. \<exists>S.
            [Some (Tensor [7] [2, 5, 11, 12, 13, 14, 2 :: int]),
             Some (Tensor [5] [2, 5, 5, 6, 2])] ! i = Some S
          \<and> data S \<noteq> []
          \<and> data (Tensor [2] [6, 4 :: int]) ! i = int (length (data S)) - 1
          \<and> (\<exists>k. data (row i (Tensor [2, 6] [2, 5, 11, 12, 13, 14, 2, 5, 5, 6, 1, 1 :: int]))
                   = butlast (data S)
                      @ replicate k (pad_idx (unit_vocab_info (unit_tokenizer ex_loader)))
                 \<and> data (row i (Tensor [2, 6] [5, 11, 12, 13, 14, 2, 5, 5, 6, 2, 1, 1 :: int]))
                   = tl (data S)
                      @ replicate k (pad_idx (unit_vocab_info (unit_tokenizer ex_loader))))
          \<and> (\<forall>j<length (data S) - 1.
                 data (row i (Tensor [2, 6] [2, 5, 11, 12, 13, 14, 2, 5, 5, 6, 1, 1 :: int])) ! j
                   = data S ! j
               \<and> data (row i (Tensor [2, 6] [5, 11, 12, 13, 14, 2, 5, 5, 6, 2, 1, 1 :: int])) ! j
                   = data S ! Suc j)"
    using un by blast
  from this[rule_format, of 1] have b:
    "(\<exists>k. data (row 1 (Tensor [2, 6] [2, 5, 11, 12, 13, 14, 2, 5, 5, 6, 1, 1 :: int]))
            = butlast [2, 5, 5, 6, 2] @ replicate k 1
          \<and> data (row 1 (Tensor [2, 6] [5, 11, 12, 13, 14, 2, 5, 5, 6, 2, 1, 1 :: int]))
            = tl [2, 5, 5, 6, 2] @ replicate k 1)
     \<and> data (Tensor [2] [6, 4 :: int]) ! 1 = int (length [2, 5, 5, 6, 2 :: int]) - 1"
    unfolding pads by auto
  from a b ex_prepare_AD ex_surviving_AD ex_text_AD ex_units_AD show ?thesis
    by blast
qed

text \<open>
  Claim C5 (one batch dimension). Whenever \<open>prepare_batch\<close> returns a batch from the
  surviving samples \<open>samples\<close>, there is at least one of them, all five tensors of the
  speech-to-text sub-batch are present and have leading dimension \<open>length samples\<close>, the
  text-to-units sub-batch has no source tensors, and each of its target tensors that is
  present has leading dimension \<open>length samples\<close> as well.
\<close>

theorem batch_dimensions_agree:
  assumes "prepare_batch env self raw = Inr (b, self')"
    and "surviving_samples env self raw = Inr (samples, fbs)"
  shows "0 < length samples
    \<and> (\<exists>st sl tt pt tl.
          speech_to_text b = \<lparr>src_tokens = Some st, src_lengths = Some sl, target_tokens = Some tt,
            prev_output_tokens = Some pt, target_lengths = Some tl\<rparr>
          \<and> shape0 st = Inr (length samples) \<and> shape sl = [length samples]
          \<and> shape0 tt = Inr (length samples) \<and> shape0 pt = Inr (length samples)
          \<and> shape tl = [length samples])
    \<and> src_tokens (text_to_units b) = None \<and> src_lengths (text_to_units b) = None
    \<and> (\<forall>t. target_tokens (text_to_units b) = Some t \<longrightarrow> shape0 t = Inr (length samples))
    \<and> (\<forall>t. prev_output_tokens (text_to_units b) = Some t \<longrightarrow> shape0 t = Inr (length samples))
    \<and> (\<forall>t. target_lengths (text_to_units b) = Some t \<longrightarrow> shape t = [length samples])"
proof -
  from surviving_samples_InrD[OF assms(2)] have ne: "fbs \<noteq> []" and len: "length samples = length fbs"
    by auto
  from prepare_batch_views[OF assms] obtain batched toks prev tgt tlens utoks where
    bt: "batch_tensors fbs (Finite (real_of_int (fbank_feats_pad_idx (batching_config self)))) = Inr batched"
    and l: "\<forall>t\<in>set toks. \<exists>n. shape t = [Suc n]" "length toks = length samples"
    and sv: "shifted_views toks (pad_idx (text_vocab_info (text_tokenizer self))) = Inr (prev, tgt, tlens)"
    and b: "speech_to_text b =
           \<lparr>src_tokens = Some (to_dtype env (float_dtype (batching_config self)) batched),
            src_lengths = Some (LongTensor (map (\<lambda>t. int (hd (shape t))) fbs)),
            target_tokens = Some tgt, prev_output_tokens = Some prev, target_lengths = Some tlens\<rparr>"
    and n: "src_tokens (text_to_units b) = None" "src_lengths (text_to_units b) = None"
    and lu: "length utoks = length samples"
    and c: "if \<exists>s\<in>set samples. units (target s) = None
          then prev_output_tokens (text_to_units b) = None
             \<and> target_tokens (text_to_units b) = None
             \<and> target_lengths (text_to_units b) = None
          else \<exists>pu tu lu.
             shifted_views (map the utoks) (pad_idx (unit_vocab_info (unit_tokenizer self)))
               = Inr (pu, tu, lu)
             \<and> None \<notin> set utoks
             \<and> (\<forall>t\<in>set (map the utoks). \<exists>n. shape t = [Suc n])
             \<and> prev_output_tokens (text_to_units b) = Some pu
             \<and> target_tokens (text_to_units b) = Some tu
             \<and> target_lengths (text_to_units b) = Some lu"
    by blast
  from batch_tensors_InrD[OF bt] obtain s where
    sb: "shape batched = length fbs # Max (set (map (hd \<circ> shape) fbs)) # s" by auto
  from shifted_views_InrD[OF sv l(1)] l(2)
  have st: "shape prev = [length samples, Max (set (map (\<lambda>t. hd (shape t) - 1) toks))]"
    "shape tgt = [length samples, Max (set (map (\<lambda>t. hd (shape t) - 1) toks))]"
    "tlens = LongTensor (map (\<lambda>t. int (hd (shape t)) - 1) toks)"
    by simp_all
  have speech: "\<exists>st sl tt pt tl.
          speech_to_text b = \<lparr>src_tokens = Some st, src_lengths = Some sl, target_tokens = Some tt,
            prev_output_tokens = Some pt, target_lengths = Some tl\<rparr>
          \<and> shape0 st = Inr (length samples) \<and> shape sl = [length samples]
          \<and> shape0 tt = Inr (length samples) \<and> shape0 pt = Inr (length samples)
          \<and> shape tl = [length samples]"
    unfolding b using sb st len l(2) by (simp add: shape0_def to_dtype_def LongTensor_def)
  have units: "(\<forall>t. target_tokens (text_to_units b) = Some t \<longrightarrow> shape0 t = Inr (length samples))
    \<and> (\<forall>t. prev_output_tokens (text_to_units b) = Some t \<longrightarrow> shape0 t = Inr (length samples))
    \<and> (\<forall>t. target_lengths (text_to_units b) = Some t \<longrightarrow> shape t = [length samples])"
  proof (cases "\<exists>s\<in>set samples. units (target s) = None")
    case True
    with c show ?thesis by simp
  next
    case False
    with c obtain pu tu lu where
      v: "shifted_views (map the utoks) (pad_idx (unit_vocab_info (unit_tokenizer self))) = Inr (pu, tu, lu)"
      and sh: "\<forall>t\<in>set (map the utoks). \<exists>n. shape t = [Suc n]"
      and e: "prev_output_tokens (text_to_units b) = Some pu"
        "target_tokens (text_to_units b) = Some tu" "target_lengths (text_to_units b) = Some lu"
      by auto
    from shifted_views_InrD[OF v sh] lu
    show ?thesis
      unfolding e by (simp add: shape0_def LongTensor_def)
  qed
  from ne len have "0 < length samples" by simp
  with speech units n show ?thesis by blast
qed

theorem batch_dimensions_agree_witness:
  "prepare_batch ex_env ex_loader [ex_A, ex_D] = Inr (ex_batch_AD, ex_loader_units)
   \<and> surviving_samples ex_env ex_loader [ex_A, ex_D]
      = Inr ([ex_A, ex_D],
            [Tensor [498, 80] (replicate 39840 (Finite 0)),
             Tensor [198, 80] (replicate 15840 (Finite 1))])
   \<and> (\<exists>st sl tt pt tl.
          speech_to_text ex_batch_AD = \<lparr>src_tokens = Some st, src_lengths = Some sl,
            target_tokens = Some tt, prev_output_tokens = Some pt, target_lengths = Some tl\<rparr>
          \<and> shape0 st = Inr 2 \<and> shape sl = [2]
          \<and> shape0 tt = Inr 2 \<and> shape0 pt = Inr 2 \<and> shape tl = [2])
   \<and> (\<exists>tu pu lu.
          target_tokens (text_to_units ex_batch_AD) = Some tu \<and> shape0 tu = Inr 2
        \<and> prev_output_tokens (text_to_units ex_batch_AD) = Some pu \<and> shape0 pu = Inr 2
        \<and> target_lengths (text_to_units ex_batch_AD) = Some lu \<and> shape lu = [2])"
proof -
  have two: "length [ex_A, ex_D] = 2" by simp
  from batch_dimensions_agree[OF ex_prepare_AD ex_surviving_AD, unfolded two]
  have "(\<exists>st sl tt pt tl.
          speech_to_text ex_batch_AD = \<lparr>src_tokens = Some st, src_lengths = Some sl,
            target_tokens = Some tt, prev_output_tokens = Some pt, target_lengths = Some tl\<rparr>
          \<and> shape0 st = Inr 2 \<and> shape sl = [2]
          \<and> shape0 tt = Inr 2 \<and> shape0 pt = Inr 2 \<and> shape tl = [2])"
    and "\<forall>t. target_tokens (text_to_units ex_batch_AD) = Some t \<longrightarrow> shape0 t = Inr 2"
    and "\<forall>t. prev_output_tokens (text_to_units ex_batch_AD) = Some t \<longrightarrow> shape0 t = Inr 2"
    and "\<forall>t. target_lengths (text_to_units ex_batch_AD) = Some t \<longrightarrow> shape t = [2]"
    by blast+
  moreover have "\<exists>tu pu lu. target_tokens (text_to_units ex_batch_AD) = Some tu
      \<and> prev_output_tokens (text_to_units ex_batch_AD) = Some pu
      \<and> target_lengths (text_to_units ex_batch_AD) = Some lu"
    by (simp add: ex_batch_AD_def)
  ultimately show ?thesis
    using ex_prepare_AD ex_surviving_AD by blast
qed

text \<open>
  Claim C6 (no fallback after the NaN filter). If the samples that the duration filter kept
  (never an empty list) all have a feature matrix with a NaN, then \<open>prepare_batch\<close> fails
  with an AssertionError; and whenever \<open>prepare_batch\<close> returns a batch, at least one
  sample has survived the NaN filter, each survivor with a NaN-free feature matrix.
\<close>

theorem nan_filter_fatal_when_empty:
  "(try_map (from_json env) raw = Inr samples0
     \<and> filter_long_audio env self samples0 = Inr samples1
     \<and> try_map (get_source_fbank env self) samples1 = Inr fbs1
     \<and> list_all isnan_any fbs1
     \<longrightarrow> samples1 \<noteq> [] \<and> prepare_batch env self raw = Inl AssertionError)
   \<and> (prepare_batch env self raw = Inr (b, self')
     \<longrightarrow> (\<exists>samples fbs.
           surviving_samples env self raw = Inr (samples, fbs)
         \<and> samples \<noteq> [] \<and> length fbs = length samples
         \<and> list_all (\<lambda>t. \<not> isnan_any t) fbs))"
proof (intro conjI impI)
  assume a: "try_map (from_json env) raw = Inr samples0
     \<and> filter_long_audio env self samples0 = Inr samples1
     \<and> try_map (get_source_fbank env self) samples1 = Inr fbs1
     \<and> list_all isnan_any fbs1"
  then have "filter_long_audio env self samples0 = Inr samples1" by simp
  then show "samples1 \<noteq> []" by (rule filter_long_audio_nonempty)
  from a have "surviving_samples env self raw = Inl AssertionError"
    by (simp add: surviving_samples_def ebind_def filter_nans_all_nan del: try_map.simps)
  then show "prepare_batch env self raw = Inl AssertionError"
    by (simp add: prepare_batch_def ebind_def)
next
  assume "prepare_batch env self raw = Inr (b, self')"
  from prepare_batch_InrD[OF this] obtain samples fbs where
    sv: "surviving_samples env self raw = Inr (samples, fbs)" by blast
  from surviving_samples_InrD[OF sv] have "fbs \<noteq> []" "length samples = length fbs"
    "list_all (\<lambda>t. \<not> isnan_any t) fbs"
    by (auto simp: list_all_iff)
  with sv show "\<exists>samples fbs.
           surviving_samples env self raw = Inr (samples, fbs)
         \<and> samples \<noteq> [] \<and> length fbs = length samples
         \<and> list_all (\<lambda>t. \<not> isnan_any t) fbs"
    by (intro exI[of _ samples] exI[of _ fbs]) auto
qed

theorem nan_filter_fatal_when_empty_witness:
  "try_map (from_json ex_env) [ex_B, ex_C] = Inr [ex_B, ex_C]
   \<and> filter_long_audio ex_env ex_loader [ex_B, ex_C] = Inr [ex_C]
   \<and> try_map (get_source_fbank ex_env ex_loader) [ex_C]
        = Inr [Tensor [298, 80] (replicate 23840 NaN)]
   \<and> list_all isnan_any [Tensor [298, 80] (replicate 23840 NaN)]
   \<and> prepare_batch ex_env ex_loader [ex_B, ex_C] = Inl AssertionError
   \<and> prepare_batch ex_env ex_loader [ex_A, ex_B, ex_C] = Inr (ex_batch_A, ex_loader_units)
   \<and> (\<exists>samples fbs.
           surviving_samples ex_env ex_loader [ex_A, ex_B, ex_C] = Inr (samples, fbs)
         \<and> samples \<noteq> [] \<and> length fbs = length samples
         \<and> list_all (\<lambda>t. \<not> isnan_any t) fbs)"
proof -
  have h: "try_map (from_json ex_env) [ex_B, ex_C] = Inr [ex_B, ex_C]"
    "filter_long_audio ex_env ex_loader [ex_B, ex_C] = Inr [ex_C]"
    "try_map (get_source_fbank ex_env ex_loader) [ex_C]
        = Inr [Tensor [298, 80] (replicate 23840 NaN)]"
    "list_all isnan_any [Tensor [298, 80] (replicate 23840 NaN)]"
    by (simp_all add: ex_defs model_defs)
  from nan_filter_fatal_when_empty[of ex_env "[ex_B, ex_C]" "[ex_B, ex_C]" ex_loader "[ex_C]"
      "[Tensor [298, 80] (replicate 23840 NaN)]"] h
  have 1: "prepare_batch ex_env ex_loader [ex_B, ex_C] = Inl AssertionError" by blast
  from nan_filter_fatal_when_empty[of ex_env "[ex_A, ex_B, ex_C]" _ ex_loader _ _
      ex_batch_A ex_loader_units] ex_prepare_ABC
  have 2: "\<exists>samples fbs.
           surviving_samples ex_env ex_loader [ex_A, ex_B, ex_C] = Inr (samples, fbs)
         \<and> samples \<noteq> [] \<and> length fbs = length samples
         \<and> list_all (\<lambda>t. \<not> isnan_any t) fbs" by blast
  from h 1 2 ex_prepare_ABC show ?thesis by blast
qed

text \<open>
  Claim C7, as amended (channel layout in the feature extractor). For a waveform loaded at
  16 kHz: a 1-dimensional waveform of \<open>n\<close> samples goes to the converter with shape
  \<open>[n, 1]\<close> and the same elements; a 2-dimensional waveform \<open>[c, n]\<close> with \<open>c \<le> 2\<close> goes to
  the converter transposed, with shape \<open>[n, c]\<close> and element \<open>(i, j)\<close> equal to element
  \<open>(j, i)\<close> of the waveform; a 2-dimensional waveform whose first dimension exceeds 2 goes
  to the converter unchanged; a waveform that is neither 1- nor 2-dimensional fails the
  assertion, and the layout assertion fails for those waveforms only.
\<close>

theorem get_source_fbank_channel_layout:
  assumes "torchaudio_load env (audio_local_path (source sample)) = Inr (wav, SAMPLE_RATE)"
  shows
   "(\<forall>n. shape wav = [n] \<longrightarrow>
        get_source_fbank env self sample =
          WaveformToFbankConverter env (fbank_extract_params self)
            (Tensor [n, 1] (data wav)) SAMPLE_RATE)
    \<and> (\<forall>c n. shape wav = [c, n] \<and> c \<le> 2 \<longrightarrow>
        shape (transpose01 wav) = [n, c]
        \<and> (\<forall>i<n. \<forall>j<c. data (transpose01 wav) ! (i * c + j) = data wav ! (j * n + i))
        \<and> get_source_fbank env self sample =
            WaveformToFbankConverter env (fbank_extract_params self)
              (transpose01 wav) SAMPLE_RATE)
    \<and> (\<forall>c n. shape wav = [c, n] \<and> 2 < c \<longrightarrow>
        get_source_fbank env self sample =
          WaveformToFbankConverter env (fbank_extract_params self) wav SAMPLE_RATE)
    \<and> (length (shape wav) \<noteq> 1 \<and> length (shape wav) \<noteq> 2 \<longrightarrow>
        get_source_fbank env self sample = Inl AssertionError)
    \<and> (normalize_channel_layout wav = Inl AssertionError
          \<longleftrightarrow> length (shape wav) \<noteq> 1 \<and> length (shape wav) \<noteq> 2)"
proof (intro conjI allI impI)
  fix n assume "shape wav = [n]"
  then show "get_source_fbank env self sample =
      WaveformToFbankConverter env (fbank_extract_params self) (Tensor [n, 1] (data wav)) SAMPLE_RATE"
    by (simp add: get_source_fbank_loaded[OF assms] normalize_channel_layout_cases ebind_def)
next
  fix c n assume a: "shape wav = [c, n] \<and> c \<le> 2"
  then show "shape (transpose01 wav) = [n, c]"
    by (simp add: transpose01_2d(1))
  from a show "get_source_fbank env self sample =
      WaveformToFbankConverter env (fbank_extract_params self) (transpose01 wav) SAMPLE_RATE"
    by (simp add: get_source_fbank_loaded[OF assms] normalize_channel_layout_cases ebind_def)
  fix i j assume "i < n" "j < c"
  with a show "data (transpose01 wav) ! (i * c + j) = data wav ! (j * n + i)"
    using transpose01_2d(3)[of wav c n j i] by simp
next
  fix c n assume "shape wav = [c, n] \<and> 2 < c"
  then show "get_source_fbank env self sample =
      WaveformToFbankConverter env (fbank_extract_params self) wav SAMPLE_RATE"
    by (simp add: get_source_fbank_loaded[OF assms] normalize_channel_layout_cases ebind_def)
next
  assume "length (shape wav) \<noteq> 1 \<and> length (shape wav) \<noteq> 2"
  then show "get_source_fbank env self sample = Inl AssertionError"
    by (simp add: get_source_fbank_loaded[OF assms] normalize_channel_layout_def ebind_def)
next
  show "normalize_channel_layout wav = Inl AssertionError
      \<longleftrightarrow> length (shape wav) \<noteq> 1 \<and> length (shape wav) \<noteq> 2"
    by (simp add: normalize_channel_layout_def)
qed

theorem get_source_fbank_channel_layout_witness:
  "torchaudio_load ex_env (audio_local_path (source ex_D))
      = Inr (Tensor [2, 32000] (replicate 64000 (Finite 0)), SAMPLE_RATE)
   \<and> shape (transpose01 (Tensor [2, 32000] (replicate 64000 (Finite 0)) :: float tensor)) = [32000, 2]
   \<and> get_source_fbank ex_env ex_loader ex_D
      = WaveformToFbankConverter ex_env (fbank_extract_params ex_loader)
          (transpose01 (Tensor [2, 32000] (replicate 64000 (Finite 0)))) SAMPLE_RATE
   \<and> torchaudio_load ex_env (audio_local_path (source (ex_sample ''g.wav'' [] None)))
      = Inr (Tensor [4] (replicate 4 (Finite 0)), SAMPLE_RATE)
   \<and> get_source_fbank ex_env ex_loader (ex_sample ''g.wav'' [] None)
      = WaveformToFbankConverter ex_env (fbank_extract_params ex_loader)
          (Tensor [4, 1] (replicate 4 (Finite 0))) SAMPLE_RATE"
proof -
  have h1: "torchaudio_load ex_env (audio_local_path (source ex_D))
      = Inr (Tensor [2, 32000] (replicate 64000 (Finite 0)), SAMPLE_RATE)"
    by (simp add: ex_defs SAMPLE_RATE_def)
  have h2: "torchaudio_load ex_env (audio_local_path (source (ex_sample ''g.wav'' [] None)))
      = Inr (Tensor [4] (replicate 4 (Finite 0)), SAMPLE_RATE)"
    by (simp add: ex_defs SAMPLE_RATE_def)
  show ?thesis
    using get_source_fbank_channel_layout[OF h1, of ex_loader]
      get_source_fbank_channel_layout[OF h2, of ex_loader] h1 h2
    by simp
qed

text \<open>
  The claim as stated has every other shape fail. It does not: the file \<open>f.wav\<close> loads with
  shape \<open>[3, 2]\<close>, which is not 1-dimensional and whose first dimension exceeds 2, and the
  feature extractor hands it to the converter unchanged and returns features.
\<close>

theorem channel_layout_counterexample:
  "torchaudio_load ex_env (audio_local_path (source ex_F))
      = Inr (Tensor [3, 2] (replicate 6 (Finite 0)), SAMPLE_RATE)
   \<and> length (shape (Tensor [3, 2] (replicate 6 (Finite 0)) :: float tensor)) \<noteq> 1
   \<and> \<not> hd (shape (Tensor [3, 2] (replicate 6 (Finite 0)) :: float tensor)) \<le> 2
   \<and> normalize_channel_layout (Tensor [3, 2] (replicate 6 (Finite 0)) :: float tensor)
      = Inr (Tensor [3, 2] (replicate 6 (Finite 0)))
   \<and> get_source_fbank ex_env ex_loader ex_F = Inr (Tensor [0, 80] [])"
  by (simp add: ex_defs model_defs)

text \<open>
  Claim C8 (padding is the identity on aligned batches). For every non-empty list of
  well-formed tensors whose leading dimensions all have the same length \<open>n\<close>,
  \<open>batch_tensors\<close> returns exactly what \<open>torch.stack\<close> returns on the unmodified
  inputs: the same stacked tensor, or the same failure when the trailing shapes differ.
  No element is altered and the pad value plays no part.
\<close>

theorem batch_tensors_equal_lengths:
  assumes "tensors \<noteq> []"
    and "list_all wf_tensor tensors"
    and "list_all (\<lambda>t. shape0 t = Inr n) tensors"
  shows "batch_tensors tensors pad_value = stack tensors"
proof -
  from assms(1) obtain t0 rest where ts: "tensors = t0 # rest" by (cases tensors) auto
  have wf: "\<And>t. t \<in> set tensors \<Longrightarrow> wf_tensor t"
    and s0: "\<And>t. t \<in> set tensors \<Longrightarrow> shape0 t = Inr n"
    using assms(2,3) by (auto simp: list_all_iff)
  define d where "d = length (shape t0)"
  define f where "f = (\<lambda>tensor :: 'a tensor. ebind (shape0 tensor) (\<lambda>m.
     pad_tensor tensor ((replicate (2 * d) 0)[2 * d - 1 := n - m]) pad_value))"
  have lens: "try_map shape0 tensors = Inr (map (\<lambda>_. n) tensors)"
    by (rule try_map_total) (rule s0)
  have "set (map (\<lambda>_. n) tensors) = {n}"
    by (auto simp: ts)
  then have mx: "Max (set (map (\<lambda>_. n) tensors)) = n"
    by simp
  have d: "0 < d" using s0[of t0] by (auto simp: ts d_def shape0_Inr)
  have bt: "batch_tensors tensors pad_value = ebind (try_map f tensors) stack"
    using lens mx unfolding ts batch_tensors_def
    by (simp add: ebind_def d_def f_def Let_def del: try_map.simps cong: sum.case_cong)
  have ft: "f t = (if length (shape t) < d then Inl RuntimeError else Inr t)"
    if "t \<in> set tensors" for t
    using wf[OF that] s0[OF that] d
    by (simp add: f_def ebind_def pad_tensor_simps)
  show ?thesis
  proof (cases "\<exists>t\<in>set tensors. length (shape t) < d")
    case True
    have "try_map f tensors = Inl RuntimeError"
      by (rule try_map_Inl[where g = id]) (use ft True in auto)
    moreover from True obtain u where "u \<in> set rest" "shape u \<noteq> shape t0"
      by (fastforce simp: ts d_def)
    then have "stack tensors = Inl RuntimeError"
      by (auto simp: stack_def ts list_all_iff)
    ultimately show ?thesis by (simp add: bt ebind_def)
  next
    case False
    have "try_map f tensors = Inr (map id tensors)"
      by (rule try_map_total) (use ft False in auto)
    then show ?thesis by (simp add: bt ebind_def)
  qed
qed

theorem batch_tensors_equal_lengths_witness:
  "[Tensor [2] [1, 2], Tensor [2] [3, 4 :: int]] \<noteq> []
   \<and> list_all wf_tensor [Tensor [2] [1, 2], Tensor [2] [3, 4 :: int]]
   \<and> list_all (\<lambda>t. shape0 t = Inr 2) [Tensor [2] [1, 2], Tensor [2] [3, 4 :: int]]
   \<and> batch_tensors [Tensor [2] [1, 2], Tensor [2] [3, 4 :: int]] 0
       = Inr (Tensor [2, 2] [1, 2, 3, 4])"
  using batch_tensors_equal_lengths[of "[Tensor [2] [1, 2], Tensor [2] [3, 4 :: int]]" 2 0]
  by (simp add: wf_tensor_def shape0_def stack_def)

text \<open>
  Claim C9 (worker seeds). For worker indices in \<open>[0, 2^32)\<close> and under either version of
  numpy, \<open>worker_init_fn\<close> hands to \<^verbatim>\<open>np.random.seed\<close> the first key word of the global
  generator plus the worker index (reduced modulo \<open>2^32\<close> from numpy 2 on), and its result
  is what \<^verbatim>\<open>np.random.seed\<close> makes of that seed. Two runs from generator states with
  the same first key word (in particular from the same state) and the same worker index
  set the same seed; and from one state, two distinct worker indices set two distinct
  seeds.
\<close>

theorem worker_seed_deterministic_distinct:
  assumes "mt_key st = k # ks" and "mt_key st' = k # ks'"
    and "0 \<le> worker_id" and "worker_id < 2 ^ 32"
    and "0 \<le> worker_id'" and "worker_id' < 2 ^ 32"
  shows "\<exists>seed seed'.
        worker_seed p st worker_id = Inr seed
      \<and> worker_seed p st worker_id' = Inr seed'
      \<and> seed = (case p of Legacy \<Rightarrow> uint k + worker_id
                         | Weak \<Rightarrow> (uint k + worker_id) mod 2 ^ 32)
      \<and> seed' = (case p of Legacy \<Rightarrow> uint k + worker_id'
                          | Weak \<Rightarrow> (uint k + worker_id') mod 2 ^ 32)
      \<and> worker_init_fn p np_random_seed st worker_id = np_random_seed seed
      \<and> worker_init_fn p np_random_seed st' worker_id = np_random_seed seed
      \<and> worker_init_fn p np_random_seed st worker_id' = np_random_seed seed'
      \<and> (worker_id \<noteq> worker_id' \<longrightarrow> seed \<noteq> seed')"
proof -
  have s: "uint32_add_int p k i
      = Inr (case p of Legacy \<Rightarrow> uint k + i | Weak \<Rightarrow> (uint k + i) mod 2 ^ 32)"
    if "0 \<le> i" "i < 2 ^ 32" for i
    using that by (rule uint32_add_int_small)
  have d: "(case p of Legacy \<Rightarrow> uint k + worker_id | Weak \<Rightarrow> (uint k + worker_id) mod 2 ^ 32)
         \<noteq> (case p of Legacy \<Rightarrow> uint k + worker_id' | Weak \<Rightarrow> (uint k + worker_id') mod 2 ^ 32)"
    if "worker_id \<noteq> worker_id'"
    using that assms(3-6) mod_2_32_inj[of "uint k" worker_id worker_id'] by (cases p) auto
  show ?thesis
    using assms(1,2) d
    by (simp add: worker_seed_def worker_init_fn_def ebind_def s[OF assms(3,4)] s[OF assms(5,6)])
qed

text \<open>
  From a key that starts with \<open>2^32 - 1\<close>, under numpy 2 the workers 1 and 2 set the seeds
  0 and 1; before numpy 2 they hand over \<open>2^32\<close> and \<open>2^32 + 1\<close>.
\<close>

theorem worker_seed_deterministic_distinct_witness:
  "mt_key \<lparr>mt_key = [4294967295, 6], mt_pos = 624\<rparr> = 4294967295 # [6]
   \<and> mt_key \<lparr>mt_key = [4294967295, 9], mt_pos = 3\<rparr> = 4294967295 # [9]
   \<and> (0 :: int) \<le> 1 \<and> (1 :: int) < 2 ^ 32 \<and> (0 :: int) \<le> 2 \<and> (2 :: int) < 2 ^ 32
   \<and> worker_seed Weak \<lparr>mt_key = [4294967295, 6], mt_pos = 624\<rparr> 1 = Inr 0
   \<and> worker_seed Weak \<lparr>mt_key = [4294967295, 6], mt_pos = 624\<rparr> 2 = Inr 1
   \<and> worker_seed Legacy \<lparr>mt_key = [4294967295, 6], mt_pos = 624\<rparr> 1 = Inr 4294967296
   \<and> worker_init_fn Weak ex_np_random_seed \<lparr>mt_key = [4294967295, 6], mt_pos = 624\<rparr> 1
       = Inr \<lparr>mt_key = [0], mt_pos = 624\<rparr>
   \<and> worker_init_fn Weak ex_np_random_seed \<lparr>mt_key = [4294967295, 9], mt_pos = 3\<rparr> 1
       = Inr \<lparr>mt_key = [0], mt_pos = 624\<rparr>
   \<and> worker_init_fn Weak ex_np_random_seed \<lparr>mt_key = [4294967295, 6], mt_pos = 624\<rparr> 2
       = Inr \<lparr>mt_key = [1], mt_pos = 624\<rparr>
   \<and> worker_init_fn Legacy ex_np_random_seed \<lparr>mt_key = [4294967295, 6], mt_pos = 624\<rparr> 1
       = Inl ValueError"
proof -
  let ?st = "\<lparr>mt_key = [4294967295, 6], mt_pos = 624\<rparr>"
  let ?st' = "\<lparr>mt_key = [4294967295, 9], mt_pos = 3\<rparr>"
  note w = worker_seed_deterministic_distinct[of ?st 4294967295 "[6]" ?st' "[9]" 1 2 Weak
      ex_np_random_seed]
  note l = worker_seed_deterministic_distinct[of ?st 4294967295 "[6]" ?st' "[9]" 1 2 Legacy
      ex_np_random_seed]
  have s: "worker_seed Weak ?st 2 = Inr 1" "worker_seed Legacy ?st 2 = Inr 4294967297"
    by (simp_all add: worker_seed_def)
  show ?thesis
    using w l by (simp add: s ex_np_random_seed_def)
qed

text \<open>
  Claim C10 (lengths are the unpadded sizes). Whenever \<open>prepare_batch\<close> returns a batch from
  the surviving feature matrices \<open>fbs\<close>, the tokenized texts \<open>toks\<close> and the tokenized units
  \<open>utoks\<close>: \<open>src_lengths[i]\<close> is the leading dimension of \<open>fbs[i]\<close>; \<open>target_lengths[i]\<close> is the
  length of the \<open>i\<close>-th token sequence minus one; and the second dimension of \<open>src_tokens\<close>,
  \<open>target_tokens\<close> and \<open>prev_output_tokens\<close> is the largest entry of the corresponding
  lengths. The same holds for the unit views when they are present.
\<close>

theorem lengths_record_unpadded_sizes:
  assumes "prepare_batch env self raw = Inr (b, self')"
    and "surviving_samples env self raw = Inr (samples, fbs)"
    and "try_fold_map get_tokenized_target_text self samples = Inr (toks, self1)"
    and "try_fold_map get_tokenized_units self1 samples = Inr (utoks, self2)"
  shows "(\<exists>st sl tt pt tl.
        speech_to_text b = \<lparr>src_tokens = Some st, src_lengths = Some sl, target_tokens = Some tt,
          prev_output_tokens = Some pt, target_lengths = Some tl\<rparr>
      \<and> list_all2 (\<lambda>t n. shape0 t = Inr (nat n) \<and> 0 \<le> n) fbs (data sl)
      \<and> list_all2 (\<lambda>t n. shape t = [nat n + 1] \<and> 0 \<le> n) toks (data tl)
      \<and> (\<exists>rest. shape st = length fbs # nat (Max (set (data sl))) # rest)
      \<and> shape tt = [length toks, nat (Max (set (data tl)))]
      \<and> shape pt = [length toks, nat (Max (set (data tl)))])
    \<and> (\<forall>pu tu lu.
        prev_output_tokens (text_to_units b) = Some pu
      \<and> target_tokens (text_to_units b) = Some tu
      \<and> target_lengths (text_to_units b) = Some lu
      \<longrightarrow> list_all2 (\<lambda>u n. \<exists>t. u = Some t \<and> shape t = [nat n + 1] \<and> 0 \<le> n) utoks (data lu)
        \<and> shape tu = [length utoks, nat (Max (set (data lu)))]
        \<and> shape pu = [length utoks, nat (Max (set (data lu)))])"
proof -
  from surviving_samples_InrD[OF assms(2)] have ne: "fbs \<noteq> []" by auto
  from prepare_batch_views[OF assms(1,2)] assms(3,4)
  obtain batched prev tgt tlens where
    bt: "batch_tensors fbs (Finite (real_of_int (fbank_feats_pad_idx (batching_config self)))) = Inr batched"
    and fne: "\<forall>t\<in>set fbs. shape t \<noteq> []"
    and l: "\<forall>t\<in>set toks. \<exists>n. shape t = [Suc n]"
    and sv: "shifted_views toks (pad_idx (text_vocab_info (text_tokenizer self))) = Inr (prev, tgt, tlens)"
    and b: "speech_to_text b =
           \<lparr>src_tokens = Some (to_dtype env (float_dtype (batching_config self)) batched),
            src_lengths = Some (LongTensor (map (\<lambda>t. int (hd (shape t))) fbs)),
            target_tokens = Some tgt, prev_output_tokens = Some prev, target_lengths = Some tlens\<rparr>"
    and c: "if \<exists>s\<in>set samples. units (target s) = None
          then prev_output_tokens (text_to_units b) = None
             \<and> target_tokens (text_to_units b) = None
             \<and> target_lengths (text_to_units b) = None
          else \<exists>pu tu lu.
             shifted_views (map the utoks) (pad_idx (unit_vocab_info (unit_tokenizer self)))
               = Inr (pu, tu, lu)
             \<and> None \<notin> set utoks
             \<and> (\<forall>t\<in>set (map the utoks). \<exists>n. shape t = [Suc n])
             \<and> prev_output_tokens (text_to_units b) = Some pu
             \<and> target_tokens (text_to_units b) = Some tu
             \<and> target_lengths (text_to_units b) = Some lu"
    by auto
  from batch_tensors_InrD[OF bt] obtain s where
    sb: "shape batched = length fbs # Max (set (map (hd \<circ> shape) fbs)) # s" by auto
  have "map (\<lambda>t. int (hd (shape t))) fbs = map int (map (hd \<circ> shape) fbs)" by simp
  then have mx: "Max (set (map (\<lambda>t. int (hd (shape t))) fbs)) = int (Max (set (map (hd \<circ> shape) fbs)))"
    using ne by (simp add: Max_int_image)
  have src: "list_all2 (\<lambda>t n. shape0 t = Inr (nat n) \<and> 0 \<le> n) fbs (map (\<lambda>t. int (hd (shape t))) fbs)"
    using fne by (auto simp: list_all2_conv_all_nth shape0_def split: list.splits)
  from shifted_views_lengths[OF sv l] have
    tl: "data tlens = map (\<lambda>t. int (hd (shape t)) - 1) toks"
    and sh: "shape prev = [length toks, nat (Max (set (data tlens)))]"
      "shape tgt = [length toks, nat (Max (set (data tlens)))]"
    by simp_all
  have tk: "list_all2 (\<lambda>t n. shape t = [nat n + 1] \<and> 0 \<le> n) toks (data tlens)"
    unfolding tl list_all2_conv_all_nth
  proof (intro conjI allI impI)
    show "length toks = length (map (\<lambda>t. int (hd (shape t)) - 1) toks)" by simp
    fix i assume i: "i < length toks"
    with l obtain n where "shape (toks ! i) = [Suc n]" by (metis nth_mem)
    with i show "shape (toks ! i) = [nat (map (\<lambda>t. int (hd (shape t)) - 1) toks ! i) + 1]"
      and "0 \<le> map (\<lambda>t. int (hd (shape t)) - 1) toks ! i"
      by simp_all
  qed
  have speech: "\<exists>st sl tt pt tl.
        speech_to_text b = \<lparr>src_tokens = Some st, src_lengths = Some sl, target_tokens = Some tt,
          prev_output_tokens = Some pt, target_lengths = Some tl\<rparr>
      \<and> list_all2 (\<lambda>t n. shape0 t = Inr (nat n) \<and> 0 \<le> n) fbs (data sl)
      \<and> list_all2 (\<lambda>t n. shape t = [nat n + 1] \<and> 0 \<le> n) toks (data tl)
      \<and> (\<exists>rest. shape st = length fbs # nat (Max (set (data sl))) # rest)
      \<and> shape tt = [length toks, nat (Max (set (data tl)))]
      \<and> shape pt = [length toks, nat (Max (set (data tl)))]"
    unfolding b using src tk sh sb mx by (simp add: to_dtype_def LongTensor_def)
  have unit_part: "list_all2 (\<lambda>u n. \<exists>t. u = Some t \<and> shape t = [nat n + 1] \<and> 0 \<le> n) utoks (data lu)
        \<and> shape tu = [length utoks, nat (Max (set (data lu)))]
        \<and> shape pu = [length utoks, nat (Max (set (data lu)))]"
    if e: "prev_output_tokens (text_to_units b) = Some pu"
      "target_tokens (text_to_units b) = Some tu"
      "target_lengths (text_to_units b) = Some lu"
    for pu tu lu
  proof -
    from c e have
      v: "shifted_views (map the utoks) (pad_idx (unit_vocab_info (unit_tokenizer self)))
               = Inr (pu, tu, lu)"
      and nn: "None \<notin> set utoks"
      and us: "\<forall>t\<in>set (map the utoks). \<exists>n. shape t = [Suc n]"
      by (auto split: if_splits)
    from shifted_views_lengths[OF v us] have
      ul: "data lu = map (\<lambda>t. int (hd (shape t)) - 1) (map the utoks)"
      and ush: "shape pu = [length utoks, nat (Max (set (data lu)))]"
        "shape tu = [length utoks, nat (Max (set (data lu)))]"
      by simp_all
    have "list_all2 (\<lambda>u n. \<exists>t. u = Some t \<and> shape t = [nat n + 1] \<and> 0 \<le> n) utoks (data lu)"
      unfolding ul list_all2_conv_all_nth
    proof (intro conjI allI impI)
      show "length utoks = length (map (\<lambda>t. int (hd (shape t)) - 1) (map the utoks))" by simp
      fix i assume i: "i < length utoks"
      with nn obtain t where t: "utoks ! i = Some t"
        by (cases "utoks ! i") (auto simp: in_set_conv_nth)
      with us i obtain n where "shape t = [Suc n]"
        by (metis nth_mem length_map nth_map option.sel)
      with t i show "\<exists>t. utoks ! i = Some t
          \<and> shape t = [nat (map (\<lambda>t. int (hd (shape t)) - 1) (map the utoks) ! i) + 1]
          \<and> 0 \<le> map (\<lambda>t. int (hd (shape t)) - 1) (map the utoks) ! i"
        by simp
    qed
    with ush show ?thesis by simp
  qed
  from speech unit_part show ?thesis by blast
qed

theorem lengths_record_unpadded_sizes_witness:
  "prepare_batch ex_env ex_loader [ex_A, ex_D] = Inr (ex_batch_AD, ex_loader_units)
   \<and> surviving_samples ex_env ex_loader [ex_A, ex_D]
      = Inr ([ex_A, ex_D],
            [Tensor [498, 80] (replicate 39840 (Finite 0)),
             Tensor [198, 80] (replicate 15840 (Finite 1))])
   \<and> try_fold_map get_tokenized_target_text ex_loader [ex_A, ex_D]
      = Inr ([Tensor [5] [3, 256, 1104, 1105, 3],
              Tensor [8] [3, 256, 1104, 1101, 1108, 1108, 1111, 3]], ex_loader_text)
   \<and> try_fold_map get_tokenized_units ex_loader_text [ex_A, ex_D]
      = Inr ([Some (Tensor [7] [2, 5, 11, 12, 13, 14, 2]), Some (Tensor [5] [2, 5, 5, 6, 2])],
             ex_loader_units)
   \<and> (\<exists>st sl tt pt tl.
        speech_to_text ex_batch_AD = \<lparr>src_tokens = Some st, src_lengths = Some sl,
          target_tokens = Some tt, prev_output_tokens = Some pt, target_lengths = Some tl\<rparr>
      \<and> list_all2 (\<lambda>t n. shape0 t = Inr (nat n) \<and> 0 \<le> n)
           [Tensor [498, 80] (replicate 39840 (Finite 0)),
            Tensor [198, 80] (replicate 15840 (Finite 1))] (data sl)
      \<and> list_all2 (\<lambda>t n. shape t = [nat n + 1] \<and> 0 \<le> n)
           [Tensor [5] [3, 256, 1104, 1105, 3 :: int],
            Tensor [8] [3, 256, 1104, 1101, 1108, 1108, 1111, 3]] (data tl)
      \<and> (\<exists>rest. shape st = 2 # nat (Max (set (data sl))) # rest)
      \<and> shape tt = [2, nat (Max (set (data tl)))]
      \<and> shape pt = [2, nat (Max (set (data tl)))])
   \<and> (\<exists>pu tu lu.
        prev_output_tokens (text_to_units ex_batch_AD) = Some pu
      \<and> target_tokens (text_to_units ex_batch_AD) = Some tu
      \<and> target_lengths (text_to_units ex_batch_AD) = Some lu
      \<and> list_all2 (\<lambda>u n. \<exists>t. u = Some t \<and> shape t = [nat n + 1] \<and> 0 \<le> n)
           [Some (Tensor [7] [2, 5, 11, 12, 13, 14, 2 :: int]), Some (Tensor [5] [2, 5, 5, 6, 2])]
           (data lu)
      \<and> shape tu = [2, nat (Max (set (data lu)))]
      \<and> shape pu = [2, nat (Max (set (data lu)))])"
proof -
  have two: "length [Tensor [498, 80] (replicate 39840 (Finite 0)),
             Tensor [198, 80] (replicate 15840 (Finite 1))] = 2"
    "length [Tensor [5] [3, 256, 1104, 1105, 3],
              Tensor [8] [3, 256, 1104, 1101, 1108, 1108, 1111, 3 :: int]] = 2"
    "length [Some (Tensor [7] [2, 5, 11, 12, 13, 14, 2]), Some (Tensor [5] [2, 5, 5, 6, 2 :: int])] = 2"
    by simp_all
  note t = lengths_record_unpadded_sizes[OF ex_prepare_AD ex_surviving_AD ex_text_AD ex_units_AD,
      unfolded two]
  have "\<exists>pu tu lu.
        prev_output_tokens (text_to_units ex_batch_AD) = Some pu
      \<and> target_tokens (text_to_units ex_batch_AD) = Some tu
      \<and> target_lengths (text_to_units ex_batch_AD) = Some lu"
    by (simp add: ex_batch_AD_def)
  with t ex_prepare_AD ex_surviving_AD ex_text_AD ex_units_AD show ?thesis
    by blast
qed

end
